(* ===== verification/Prelude.thy ===== *)
theory Prelude
  imports Main "HOL-Library.Word"
begin

text \<open>
  Shared vocabulary of the development: the machine integers of the Rust sources, the
  build configuration that decides what checked arithmetic and debug assertions do, the
  result of a computation that may panic, and Rust's own \<open>Result\<close>. The generic lemmas on
  bits, words and lists that several components use are collected here.
\<close>

unbundle bit_operations_syntax

named_theorems cfg_simps \<open>unfolding of checked arithmetic under a build configuration\<close>
named_theorems panic_simps \<open>evaluation of the panic monad\<close>

section \<open>Machine integers\<close>

text \<open>
  Unsigned and signed integers of the same width share a word type; a signed value is read
  with \<open>sint\<close> and compared with \<open><s\<close>. A Rust \<open>usize\<close> that is an index or a
  length of a slice is a \<open>nat\<close> (a slice never has more than \<open>isize::MAX\<close> bytes); a
  \<open>usize\<close> that holds an address is a \<open>u64\<close>.
\<close>

type_synonym u8 = "8 word"
type_synonym u16 = "16 word"
type_synonym u32 = "32 word"
type_synonym u64 = "64 word"
type_synonym i8 = "8 word"
type_synonym i16 = "16 word"
type_synonym i32 = "32 word"
type_synonym i64 = "64 word"

section \<open>Build configuration\<close>

text \<open>
  \<open>debug_assertions\<close> and \<open>overflow_checks\<close> are on in a dev build and off in a release
  build; \<open>big_endian\<close> is \<open>cfg!(target_endian = "big")\<close>.
\<close>

record build_cfg =
  debug_assertions :: bool
  overflow_checks :: bool
  big_endian :: bool

definition release_x86 :: build_cfg where
  "release_x86 = \<lparr>debug_assertions = False, overflow_checks = False, big_endian = False\<rparr>"

definition dev_x86 :: build_cfg where
  "dev_x86 = \<lparr>debug_assertions = True, overflow_checks = True, big_endian = False\<rparr>"

lemma release_x86_sel [simp]:
  "debug_assertions release_x86 = False"
  "overflow_checks release_x86 = False"
  "big_endian release_x86 = False"
  by (simp_all add: release_x86_def)

lemma dev_x86_sel [simp]:
  "debug_assertions dev_x86 = True"
  "overflow_checks dev_x86 = True"
  "big_endian dev_x86 = False"
  by (simp_all add: dev_x86_def)

section \<open>Panics\<close>

datatype panic =
    ArithOverflow
  | ShiftOverflow
  | IndexOutOfBounds nat nat  \<comment> \<open>length and index\<close>
  | SliceOutOfBounds nat nat  \<comment> \<open>length and end of the range\<close>
  | DebugAssertFailed
  | AssertFailed string
  | ExplicitPanic string
  | NotYetImplemented string  \<comment> \<open>\<open>todo!\<close>\<close>
  | UnwrapOnNone

text \<open>A computation either returns a value or panics.\<close>

datatype 'a res = Ret 'a | Panic panic

primrec and_then :: "'a res \<Rightarrow> ('a \<Rightarrow> 'b res) \<Rightarrow> 'b res" where
  "and_then (Ret x) f = f x"
| "and_then (Panic p) f = Panic p"

lemma and_then_Ret_iff:
  "and_then m f = Ret y \<longleftrightarrow> (\<exists>x. m = Ret x \<and> f x = Ret y)"
  by (cases m) auto

lemma and_then_assoc: "and_then (and_then m f) g = and_then m (\<lambda>x. and_then (f x) g)"
  by (cases m) auto

lemma and_then_Ret_right [simp]: "and_then m Ret = m"
  by (cases m) auto

declare and_then.simps [panic_simps]

section \<open>Rust's Result\<close>

datatype ('a, 'e) result = Ok 'a | Err 'e

text \<open>\<open>Result\<close> of the runtime crate: \<open>core::result::Result<c_int, c_int>\<close>.\<close>

type_synonym c_result = "(i32, i32) result"

primrec unwrap_or_else :: "('a, 'e) result \<Rightarrow> ('e \<Rightarrow> 'a) \<Rightarrow> 'a" where
  "unwrap_or_else (Ok x) f = x"
| "unwrap_or_else (Err e) f = f e"

section \<open>Checked arithmetic\<close>

text \<open>
  Rust's \<open>+\<close>, \<open>-\<close> and \<open><<\<close> on unsigned integers: a panic when the result does not
  fit and overflow checks are on, the wrapped result when they are off (a shift amount is
  then taken modulo the width).
\<close>

definition add_checked :: "build_cfg \<Rightarrow> 'a::len word \<Rightarrow> 'a word \<Rightarrow> 'a word res" where
  "add_checked cfg a b =
     (if overflow_checks cfg \<and> unat a + unat b \<ge> 2 ^ LENGTH('a)
      then Panic ArithOverflow else Ret (a + b))"

definition sub_checked :: "build_cfg \<Rightarrow> 'a::len word \<Rightarrow> 'a word \<Rightarrow> 'a word res" where
  "sub_checked cfg a b =
     (if overflow_checks cfg \<and> a < b then Panic ArithOverflow else Ret (a - b))"

definition mul_checked :: "build_cfg \<Rightarrow> 'a::len word \<Rightarrow> 'a word \<Rightarrow> 'a word res" where
  "mul_checked cfg a b =
     (if overflow_checks cfg \<and> unat a * unat b \<ge> 2 ^ LENGTH('a)
      then Panic ArithOverflow else Ret (a * b))"

definition shl_checked :: "build_cfg \<Rightarrow> 'a::len word \<Rightarrow> nat \<Rightarrow> 'a word res" where
  "shl_checked cfg a n =
     (if n < LENGTH('a) then Ret (push_bit n a)
      else if overflow_checks cfg then Panic ShiftOverflow
      else Ret (push_bit (n mod LENGTH('a)) a))"

definition shr_checked :: "build_cfg \<Rightarrow> 'a::len word \<Rightarrow> nat \<Rightarrow> 'a word res" where
  "shr_checked cfg a n =
     (if n < LENGTH('a) then Ret (drop_bit n a)
      else if overflow_checks cfg then Panic ShiftOverflow
      else Ret (drop_bit (n mod LENGTH('a)) a))"

lemma add_checked_ok [cfg_simps]:
  "unat a + unat b < 2 ^ LENGTH('a) \<Longrightarrow> add_checked cfg (a::'a::len word) b = Ret (a + b)"
  by (simp add: add_checked_def)

lemma sub_checked_ok [cfg_simps]: "b \<le> a \<Longrightarrow> sub_checked cfg a b = Ret (a - b)"
  by (auto simp: sub_checked_def)

lemma shl_checked_ok [cfg_simps]:
  "n < LENGTH('a) \<Longrightarrow> shl_checked cfg (a::'a::len word) n = Ret (push_bit n a)"
  by (simp add: shl_checked_def)

lemma shr_checked_ok [cfg_simps]:
  "n < LENGTH('a) \<Longrightarrow> shr_checked cfg (a::'a::len word) n = Ret (drop_bit n a)"
  by (simp add: shr_checked_def)

lemma checked_release [cfg_simps]:
  "\<not> overflow_checks cfg \<Longrightarrow> add_checked cfg a b = Ret (a + b)"
  "\<not> overflow_checks cfg \<Longrightarrow> sub_checked cfg a b = Ret (a - b)"
  "\<not> overflow_checks cfg \<Longrightarrow> mul_checked cfg a b = Ret (a * b)"
  by (simp_all add: add_checked_def sub_checked_def mul_checked_def)

section \<open>Bits\<close>

text \<open>The idiom \<open>x & mask == mask\<close> with a one-bit mask tests that bit.\<close>

lemma and_single_bit_eq:
  assumes "n < LENGTH('a)"
  shows "((w :: 'a::len word) AND push_bit n 1 = push_bit n 1) \<longleftrightarrow> bit w n"
proof
  assume "w AND push_bit n 1 = push_bit n 1"
  then have "bit (w AND push_bit n 1) n = bit (push_bit n 1 :: 'a word) n" by simp
  with assms show "bit w n" by (simp add: bit_and_iff bit_exp_iff)
next
  assume "bit w n"
  then show "w AND push_bit n 1 = push_bit n 1"
    by (auto simp: bit_and_iff bit_exp_iff intro!: bit_word_eqI)
qed

lemma bit_or_single:
  "k < LENGTH('a) \<Longrightarrow>
   bit ((w :: 'a::len word) OR push_bit n 1) k \<longleftrightarrow> bit w k \<or> k = n"
  by (auto simp: bit_or_iff bit_exp_iff)

lemma bit_and_not_single:
  "k < LENGTH('a) \<Longrightarrow>
   bit ((w :: 'a::len word) AND NOT (push_bit n 1)) k \<longleftrightarrow> bit w k \<and> k \<noteq> n"
  by (auto simp: bit_and_iff bit_not_iff bit_exp_iff)

section \<open>The halves of a 64-bit word\<close>

lemma word_halves_eq:
  "(x :: u64) = y \<longleftrightarrow>
   (ucast x :: u32) = ucast y \<and> (ucast (drop_bit 32 x) :: u32) = ucast (drop_bit 32 y)"
proof
  assume halves: "(ucast x :: u32) = ucast y \<and> (ucast (drop_bit 32 x) :: u32) = ucast (drop_bit 32 y)"
  show "x = y"
  proof (rule bit_word_eqI)
    fix k assume k: "k < LENGTH(64)"
    have "bit (ucast x :: u32) k = bit (ucast y :: u32) k"
      and "bit (ucast (drop_bit 32 x) :: u32) (k - 32) = bit (ucast (drop_bit 32 y) :: u32) (k - 32)"
      using halves by simp_all
    with k show "bit x k = bit y k"
      by (cases "k < 32") (auto simp: bit_ucast_iff bit_drop_bit_eq)
  qed
qed simp

lemma bit_scast_u64: "bit (scast (w :: u32) :: u64) k \<longleftrightarrow> k < 64 \<and> bit w (if k < 31 then k else 31)"
  by (simp add: bit_signed_iff min_def)

lemma low_half_scast: "ucast (scast (w :: u32) :: u64) = w"
proof (rule bit_word_eqI)
  fix k assume "k < LENGTH(32)"
  then have "k < 31 \<or> k = 31" by auto
  then show "bit (ucast (scast w :: u64) :: u32) k = bit w k"
    by (auto simp: bit_ucast_iff bit_scast_u64)
qed

lemma high_half_scast:
  "(ucast (drop_bit 32 (scast (w :: u32) :: u64)) :: u32) = (if w <s 0 then - 1 else 0)"
proof -
  have "w <s 0 \<longleftrightarrow> bit w 31"
    using bit_last_iff [of w] by (simp add: word_sless_alt)
  then show ?thesis
    by (intro bit_word_eqI) (auto simp: bit_ucast_iff bit_scast_u64 bit_drop_bit_eq)
qed

section \<open>Runs of labelled steps\<close>

text \<open>A run of steps with its sequence of labels.\<close>

inductive runs :: "('l \<Rightarrow> 's \<Rightarrow> 's \<Rightarrow> bool) \<Rightarrow> 'l list \<Rightarrow> 's \<Rightarrow> 's \<Rightarrow> bool" for step :: "'l \<Rightarrow> 's \<Rightarrow> 's \<Rightarrow> bool" where
  halt: "runs step [] s s"
| step: "step l s t \<Longrightarrow> runs step ls t u \<Longrightarrow> runs step (l # ls) s u"

lemma runs_keeps:
  "runs step ls s t \<Longrightarrow> (\<And>l s t. Inv s \<Longrightarrow> step l s t \<Longrightarrow> Inv t) \<Longrightarrow> Inv s \<Longrightarrow> Inv t"
  by (induction rule: runs.induct) auto

lemma runs_append: "runs step ls s t \<Longrightarrow> runs step ks t u \<Longrightarrow> runs step (ls @ ks) s u"
  by (induction rule: runs.induct) (auto intro: runs.step)

lemma runs_snoc: "runs step ls s t \<Longrightarrow> step l t u \<Longrightarrow> runs step (ls @ [l]) s u"
  by (rule runs_append) (auto intro: runs.intros)

lemma runs_snocE: "runs step (ls @ [l]) s u \<Longrightarrow> \<exists>t. runs step ls s t \<and> step l t u"
proof (induction ls arbitrary: s)
  case Nil
  then show ?case by (auto elim!: runs.cases intro: runs.halt)
next
  case (Cons k ls)
  then obtain t where "step k s t" "runs step (ls @ [l]) t u" by (auto elim: runs.cases)
  with Cons.IH show ?case by (blast intro: runs.step)
qed

text \<open>Induction on the last step.\<close>

lemma runs_snoc_induct [consumes 1, case_names Nil Snoc]:
  assumes "runs step ls s u" and "P [] s"
    and "\<And>ls t l u. runs step ls s t \<Longrightarrow> P ls t \<Longrightarrow> step l t u \<Longrightarrow> P (ls @ [l]) u"
  shows "P ls u"
  using assms(1)
proof (induction ls arbitrary: u rule: rev_induct)
  case Nil
  with assms(2) show ?case by (auto elim: runs.cases)
next
  case (snoc l ls)
  from runs_snocE [OF snoc.prems] show ?case using snoc.IH assms(3) by blast
qed

end
