(* ===== verification/Bitfield.thy ===== *)
theory Bitfield
  imports Prelude
begin

text \<open>
  \<open>__BindgenBitfieldUnit\<close> of \<open>perf_event/binding.rs\<close>: bit fields packed into a byte array.
  The four operations \<open>get_bit\<close>, \<open>set_bit\<close>, \<open>get\<close> and \<open>set\<close> are translated with their
  debug assertions, their loops, the slice bound checks and both byte orders; bit offsets are
  natural numbers, which is exact for storages below \<open>2 ^ 61\<close> bytes. The loops
  are then shown equal to one-shot reference functions (\<open>field_val\<close>, \<open>put_field\<close>), from
  which the laws of a field accessor follow; these laws are the locale \<open>field_accessor\<close>,
  the contract every accessor of the packed structs offers.
\<close>

unbundle bit_operations_syntax

section \<open>The operations\<close>

text \<open>A unit is its storage; \<open>Default\<close> is the zero storage.\<close>

definition bf_new :: "u8 list \<Rightarrow> u8 list" where
  "bf_new storage = storage"

definition bf_default :: "nat \<Rightarrow> u8 list" where
  "bf_default n = bf_new (replicate n 0)"

definition bit_index :: "build_cfg \<Rightarrow> nat \<Rightarrow> nat" where
  "bit_index cfg index = (if big_endian cfg then 7 - index mod 8 else index mod 8)"

definition bf_get_bit :: "build_cfg \<Rightarrow> u8 list \<Rightarrow> nat \<Rightarrow> bool res" where
  "bf_get_bit cfg storage index =
     (if debug_assertions cfg \<and> \<not> index div 8 < length storage then Panic DebugAssertFailed
      else if \<not> index div 8 < length storage
      then Panic (IndexOutOfBounds (length storage) (index div 8))
      else let byte = storage ! (index div 8);
               mask = push_bit (bit_index cfg index) 1
           in Ret (byte AND mask = mask))"

definition bf_set_bit :: "build_cfg \<Rightarrow> u8 list \<Rightarrow> nat \<Rightarrow> bool \<Rightarrow> u8 list res" where
  "bf_set_bit cfg storage index v =
     (if debug_assertions cfg \<and> \<not> index div 8 < length storage then Panic DebugAssertFailed
      else if \<not> index div 8 < length storage
      then Panic (IndexOutOfBounds (length storage) (index div 8))
      else let byte = storage ! (index div 8);
               mask = push_bit (bit_index cfg index) 1
           in Ret (storage[index div 8 :=
                     (if v then byte OR mask else byte AND NOT mask)]))"

text \<open>The bit of the value that the \<open>i\<close>-th bit of a field carries.\<close>

definition value_index :: "build_cfg \<Rightarrow> nat \<Rightarrow> nat \<Rightarrow> nat" where
  "value_index cfg bit_width i = (if big_endian cfg then bit_width - 1 - i else i)"

fun get_loop :: "build_cfg \<Rightarrow> u8 list \<Rightarrow> nat \<Rightarrow> nat \<Rightarrow> nat list \<Rightarrow> u64 \<Rightarrow> u64 res" where
  "get_loop cfg storage bit_offset bit_width [] val = Ret val"
| "get_loop cfg storage bit_offset bit_width (i # is) val =
     and_then (bf_get_bit cfg storage (i + bit_offset)) (\<lambda>b.
       if b
       then and_then (shl_checked cfg 1 (value_index cfg bit_width i)) (\<lambda>m.
              get_loop cfg storage bit_offset bit_width is (val OR m))
       else get_loop cfg storage bit_offset bit_width is val)"

fun set_loop :: "build_cfg \<Rightarrow> nat \<Rightarrow> nat \<Rightarrow> u64 \<Rightarrow> nat list \<Rightarrow> u8 list \<Rightarrow> u8 list res" where
  "set_loop cfg bit_offset bit_width val [] storage = Ret storage"
| "set_loop cfg bit_offset bit_width val (i # is) storage =
     and_then (shl_checked cfg 1 i) (\<lambda>mask.
       and_then (bf_set_bit cfg storage (value_index cfg bit_width i + bit_offset)
                   (val AND mask = mask))
         (set_loop cfg bit_offset bit_width val is))"

text \<open>The three debug assertions that \<open>get\<close> and \<open>set\<close> open with.\<close>

definition field_asserts :: "build_cfg \<Rightarrow> u8 list \<Rightarrow> nat \<Rightarrow> nat \<Rightarrow> bool" where
  "field_asserts cfg storage bit_offset bit_width \<longleftrightarrow>
     debug_assertions cfg \<longrightarrow>
       bit_width \<le> 64 \<and> bit_offset div 8 < length storage \<and>
       (bit_offset + bit_width) div 8 \<le> length storage"

definition bf_get :: "build_cfg \<Rightarrow> u8 list \<Rightarrow> nat \<Rightarrow> u8 \<Rightarrow> u64 res" where
  "bf_get cfg storage bit_offset bit_width =
     (if \<not> field_asserts cfg storage bit_offset (unat bit_width) then Panic DebugAssertFailed
      else get_loop cfg storage bit_offset (unat bit_width) [0..<unat bit_width] 0)"

definition bf_set :: "build_cfg \<Rightarrow> u8 list \<Rightarrow> nat \<Rightarrow> u8 \<Rightarrow> u64 \<Rightarrow> u8 list res" where
  "bf_set cfg storage bit_offset bit_width val =
     (if \<not> field_asserts cfg storage bit_offset (unat bit_width) then Panic DebugAssertFailed
      else set_loop cfg bit_offset (unat bit_width) val [0..<unat bit_width] storage)"

section \<open>The bits of a storage\<close>

lemma bf_default_eq [simp]: "bf_default n = replicate n 0"
  by (simp add: bf_default_def bf_new_def)

definition storage_bit :: "build_cfg \<Rightarrow> u8 list \<Rightarrow> nat \<Rightarrow> bool" where
  "storage_bit cfg s k = bit (s ! (k div 8)) (bit_index cfg k)"

definition in_field :: "nat \<Rightarrow> nat \<Rightarrow> nat \<Rightarrow> bool" where
  "in_field off w k \<longleftrightarrow> off \<le> k \<and> k < off + w"

definition field_ok :: "u8 list \<Rightarrow> nat \<Rightarrow> nat \<Rightarrow> bool" where
  "field_ok s off w \<longleftrightarrow> 0 < w \<and> w \<le> 64 \<and> off + w \<le> 8 * length s"

lemma bit_index_less [simp]: "bit_index cfg k < 8"
  by (auto simp: bit_index_def)

lemma bit_index_eq_iff:
  "k div 8 = j div 8 \<Longrightarrow> bit_index cfg k = bit_index cfg j \<longleftrightarrow> k = j"
proof -
  assume d: "k div 8 = j div 8"
  have "k mod 8 < 8" "j mod 8 < 8" by simp_all
  then have "bit_index cfg k = bit_index cfg j \<longleftrightarrow> k mod 8 = j mod 8"
    by (auto simp: bit_index_def)
  with d show ?thesis by (metis div_mult_mod_eq)
qed

lemma div8_less: "k < 8 * n \<Longrightarrow> k div 8 < (n::nat)"
  by (simp add: less_mult_imp_div_less mult.commute)

lemma bf_get_bit_ok [simp]:
  "k < 8 * length s \<Longrightarrow> bf_get_bit cfg s k = Ret (storage_bit cfg s k)"
  by (simp add: bf_get_bit_def storage_bit_def div8_less and_single_bit_eq Let_def del: push_bit_of_1)

definition put_bit :: "build_cfg \<Rightarrow> u8 list \<Rightarrow> nat \<Rightarrow> bool \<Rightarrow> u8 list" where
  "put_bit cfg s k v = s[k div 8 :=
     (if v then s ! (k div 8) OR push_bit (bit_index cfg k) 1
      else s ! (k div 8) AND NOT (push_bit (bit_index cfg k) 1))]"

lemma bf_set_bit_ok [simp]:
  "k < 8 * length s \<Longrightarrow> bf_set_bit cfg s k v = Ret (put_bit cfg s k v)"
  by (simp add: bf_set_bit_def put_bit_def div8_less Let_def)

lemma length_put_bit [simp]: "length (put_bit cfg s k v) = length s"
  by (simp add: put_bit_def)

lemma storage_bit_put_bit:
  assumes "k < 8 * length s" and "j < 8 * length s"
  shows "storage_bit cfg (put_bit cfg s k v) j = (if j = k then v else storage_bit cfg s j)"
proof (cases "j div 8 = k div 8")
  case True
  with assms bit_index_eq_iff [OF True, of cfg] show ?thesis
    by (auto simp: storage_bit_def put_bit_def div8_less bit_or_single bit_and_not_single
             simp del: push_bit_of_1)
next
  case False
  then have "j \<noteq> k" by auto
  with False show ?thesis by (simp add: storage_bit_def put_bit_def)
qed

text \<open>Two storages of one length with the same bits are equal.\<close>

lemma bit_index_surj:
  assumes "p < 8"
  shows "\<exists>k. k div 8 = b \<and> bit_index cfg k = p"
proof -
  obtain q where "q < 8" and q: "p = (if big_endian cfg then 7 - q else q)"
    using assms by (cases "big_endian cfg") (force intro: that [of "7 - p"], simp add: that)
  then have "(8 * b + q) div 8 = b \<and> bit_index cfg (8 * b + q) = p"
    by (simp add: bit_index_def)
  then show ?thesis by blast
qed

lemma storage_eqI:
  assumes len: "length s = length t"
    and bits: "\<And>k. k < 8 * length t \<Longrightarrow> storage_bit cfg s k = storage_bit cfg t k"
  shows "s = t"
proof (rule nth_equalityI [OF len])
  fix b assume "b < length s"
  show "s ! b = t ! b"
  proof (rule bit_word_eqI)
    fix p assume "p < LENGTH(8)"
    then obtain k where k: "k div 8 = b" "bit_index cfg k = p"
      using bit_index_surj [of p b cfg] by auto
    with \<open>b < length s\<close> len have "k < 8 * length t" by auto
    from bits [OF this] k show "bit (s ! b) p \<longleftrightarrow> bit (t ! b) p"
      by (simp add: storage_bit_def)
  qed
qed

section \<open>Reference functions\<close>

text \<open>
  What \<open>get\<close> reads and what \<open>set\<close> writes, without a loop: the value's bit \<open>j\<close> is the
  storage's bit \<open>off + value_index j\<close>, and the other way round.
\<close>

definition field_val :: "build_cfg \<Rightarrow> u8 list \<Rightarrow> nat \<Rightarrow> nat \<Rightarrow> u64" where
  "field_val cfg s off w =
     horner_sum of_bool 2 (map (\<lambda>j. storage_bit cfg s (off + value_index cfg w j)) [0..<w])"

definition put_field :: "build_cfg \<Rightarrow> u8 list \<Rightarrow> nat \<Rightarrow> nat \<Rightarrow> u64 \<Rightarrow> u8 list" where
  "put_field cfg s off w v =
     foldl (\<lambda>t i. put_bit cfg t (value_index cfg w i + off) (bit v i)) s [0..<w]"

lemma value_index_less [simp]: "j < w \<Longrightarrow> value_index cfg w j < w"
  by (auto simp: value_index_def)

lemma value_index_bound:
  "i < w \<Longrightarrow> off + w \<le> n \<Longrightarrow> value_index cfg w i + off < n"
  "i < w \<Longrightarrow> w \<le> n \<Longrightarrow> value_index cfg w i < n"
  using value_index_less [of i w cfg] by linarith+

lemma value_index_invol [simp]: "j < w \<Longrightarrow> value_index cfg w (value_index cfg w j) = j"
  by (auto simp: value_index_def)

lemma value_index_eq_iff:
  "i < w \<Longrightarrow> j < w \<Longrightarrow> value_index cfg w i = j \<longleftrightarrow> i = value_index cfg w j"
  by (auto simp: value_index_def)

lemma bit_field_val:
  "w \<le> 64 \<Longrightarrow>
   bit (field_val cfg s off w) j \<longleftrightarrow> j < w \<and> storage_bit cfg s (off + value_index cfg w j)"
  by (auto simp: field_val_def bit_horner_sum_bit_word_iff)

lemma field_asserts_ok: "field_ok s off w \<Longrightarrow> field_asserts cfg s off w"
  by (auto simp: field_ok_def field_asserts_def)

subsection \<open>The loop of get\<close>

lemma get_loop_ok:
  assumes "w \<le> 64" and "off + w \<le> 8 * length s" and "\<forall>i\<in>set is. i < w"
  shows "\<exists>r. get_loop cfg s off w is val = Ret r \<and>
           (\<forall>j<64. bit r j \<longleftrightarrow> bit val j \<or>
              j < w \<and> value_index cfg w j \<in> set is \<and>
              storage_bit cfg s (off + value_index cfg w j))"
  using assms(3)
proof (induction "is" arbitrary: val)
  case Nil
  then show ?case by simp
next
  case (Cons i "is")
  then have i: "i < w" and i8: "i + off < 8 * length s" and v64: "value_index cfg w i < 64"
    using assms(1,2) by (auto intro: value_index_bound)
  have this_bit: "\<And>j. j < w \<and> value_index cfg w j = i \<longleftrightarrow> j = value_index cfg w i"
    using i value_index_less [OF i, of cfg] by (auto simp: value_index_eq_iff)
  show ?case
  proof (cases "storage_bit cfg s (i + off)")
    case True
    obtain r where r: "get_loop cfg s off w is (val OR push_bit (value_index cfg w i) 1) = Ret r"
      and bits: "\<forall>j<64. bit r j \<longleftrightarrow> bit (val OR push_bit (value_index cfg w i) 1) j \<or>
              j < w \<and> value_index cfg w j \<in> set is \<and>
              storage_bit cfg s (off + value_index cfg w j)"
      using Cons.IH [of "val OR push_bit (value_index cfg w i) 1"] Cons.prems by auto
    from r i8 v64 True have "get_loop cfg s off w (i # is) val = Ret r"
      by (simp add: shl_checked_ok del: push_bit_of_1)
    moreover have "\<forall>j<64. bit (val OR push_bit (value_index cfg w i) 1) j \<longleftrightarrow>
        bit val j \<or> (j < w \<and> value_index cfg w j = i)"
      by (simp add: bit_or_single this_bit del: push_bit_of_1)
    ultimately show ?thesis
      using bits True by (auto simp: add.commute)
  next
    case False
    then show ?thesis
      using Cons.IH [of val] Cons.prems i8 by (auto simp: add.commute)
  qed
qed

theorem bf_get_eq:
  assumes "field_ok s off (unat w)"
  shows "bf_get cfg s off w = Ret (field_val cfg s off (unat w))"
proof -
  have w64: "unat w \<le> 64" and bound: "off + unat w \<le> 8 * length s"
    using assms by (auto simp: field_ok_def)
  then obtain r where r: "get_loop cfg s off (unat w) [0..<unat w] 0 = Ret r"
    and bits: "\<forall>j<64. bit r j \<longleftrightarrow> j < unat w \<and> value_index cfg (unat w) j < unat w \<and>
                storage_bit cfg s (off + value_index cfg (unat w) j)"
    using get_loop_ok [of "unat w" off s "[0..<unat w]" cfg 0] by auto
  have "r = field_val cfg s off (unat w)"
    using bits w64 by (intro bit_word_eqI) (auto simp: bit_field_val)
  with r show ?thesis
    by (simp add: bf_get_def field_asserts_ok [OF assms])
qed

subsection \<open>The loop of set\<close>

lemma set_loop_ok:
  assumes "w \<le> 64" and "off + w \<le> 8 * length s" and "\<forall>i\<in>set is. i < w"
  shows "set_loop cfg off w v is s =
           Ret (foldl (\<lambda>t i. put_bit cfg t (value_index cfg w i + off) (bit v i)) s is)"
  using assms(2,3)
proof (induction "is" arbitrary: s)
  case Nil
  then show ?case by simp
next
  case (Cons i "is")
  then have i: "i < w" and "i < 64" and k: "value_index cfg w i + off < 8 * length s"
    using assms(1) by (auto intro: value_index_bound)
  then have "set_loop cfg off w v (i # is) s =
      set_loop cfg off w v is (put_bit cfg s (value_index cfg w i + off) (bit v i))"
    by (simp add: shl_checked_ok and_single_bit_eq del: push_bit_of_1)
  with Cons show ?case by simp
qed

theorem bf_set_eq:
  assumes "field_ok s off (unat w)"
  shows "bf_set cfg s off w v = Ret (put_field cfg s off (unat w) v)"
  using assms set_loop_ok [of "unat w" off s "[0..<unat w]" cfg v]
  by (simp add: bf_set_def field_asserts_ok put_field_def field_ok_def)

lemma length_foldl_put_bit [simp]:
  "length (foldl (\<lambda>t i. put_bit cfg t (f i) (g i)) s is) = length s"
  by (induction "is" arbitrary: s) auto

lemma length_put_field [simp]: "length (put_field cfg s off w v) = length s"
  by (simp add: put_field_def)

lemma storage_bit_foldl:
  assumes "\<forall>i\<in>set is. i < w" and "off + w \<le> 8 * length s" and "k < 8 * length s"
  shows "storage_bit cfg (foldl (\<lambda>t i. put_bit cfg t (value_index cfg w i + off) (bit v i)) s is) k =
    (if in_field off w k \<and> value_index cfg w (k - off) \<in> set is
     then bit v (value_index cfg w (k - off)) else storage_bit cfg s k)"
  using assms
proof (induction "is" arbitrary: s)
  case Nil
  then show ?case by simp
next
  case (Cons i "is")
  have i: "i < w" and ik: "value_index cfg w i + off < 8 * length s"
    using Cons.prems by (auto intro: value_index_bound)
  have "k = value_index cfg w i + off \<longleftrightarrow> in_field off w k \<and> value_index cfg w (k - off) = i"
    using i value_index_less [OF i, of cfg] by (auto simp: in_field_def value_index_eq_iff)
  with Cons ik show ?case
    by (auto simp: storage_bit_put_bit)
qed

lemma storage_bit_put_field:
  assumes "field_ok s off w" and "k < 8 * length s"
  shows "storage_bit cfg (put_field cfg s off w v) k =
    (if in_field off w k then bit v (value_index cfg w (k - off)) else storage_bit cfg s k)"
proof -
  have "in_field off w k \<Longrightarrow> value_index cfg w (k - off) < w"
    by (auto simp: in_field_def intro!: value_index_less)
  with assms show ?thesis
    by (simp add: put_field_def storage_bit_foldl field_ok_def)
qed

section \<open>The laws of a field\<close>

definition apart :: "nat \<Rightarrow> nat \<Rightarrow> nat \<Rightarrow> nat \<Rightarrow> bool" where
  "apart off w off' w' \<longleftrightarrow> off + w \<le> off' \<or> off' + w' \<le> off"

lemma field_ok_put_field [simp]: "field_ok (put_field cfg s off w v) = field_ok s"
  by (simp add: field_ok_def fun_eq_iff)

lemma in_field_index [simp]: "j < w \<Longrightarrow> in_field off w (off + value_index cfg w j)"
  by (auto simp: in_field_def)

lemma field_index_bound:
  "field_ok s off w \<Longrightarrow> j < w \<Longrightarrow> off + value_index cfg w j < 8 * length s"
  using value_index_bound(1) [of j w off "8 * length s" cfg] by (simp add: field_ok_def add.commute)

lemma field_val_put_field:
  assumes "field_ok s off w"
  shows "field_val cfg (put_field cfg s off w v) off w = take_bit w v"
  using assms
  by (intro bit_word_eqI)
     (auto simp: bit_field_val bit_take_bit_iff storage_bit_put_field field_index_bound
                 field_ok_def)

lemma field_val_put_apart:
  assumes "field_ok s off w" and f': "field_ok s off' w'" and "apart off w off' w'"
  shows "field_val cfg (put_field cfg s off w v) off' w' = field_val cfg s off' w'"
proof -
  have "\<not> in_field off w (off' + value_index cfg w' j)" if "j < w'" for j
    using assms(3) value_index_less [OF that, of cfg] by (auto simp: in_field_def apart_def)
  with assms(1) f' show ?thesis
    by (intro bit_word_eqI)
       (auto simp: bit_field_val storage_bit_put_field field_index_bound [OF f'] field_ok_def)
qed

lemma put_field_eqI:
  assumes "field_ok s off w" and "length t = length s"
    and "\<And>k. k < 8 * length s \<Longrightarrow> storage_bit cfg t k =
           (if in_field off w k then bit v (value_index cfg w (k - off)) else storage_bit cfg s k)"
  shows "put_field cfg s off w v = t"
  using assms by (intro storage_eqI [where cfg = cfg]) (auto simp: storage_bit_put_field)

lemma put_field_field_val:
  assumes "field_ok s off w"
  shows "put_field cfg s off w (field_val cfg s off w) = s"
proof (rule put_field_eqI [OF assms refl])
  fix k
  show "storage_bit cfg s k =
      (if in_field off w k then bit (field_val cfg s off w) (value_index cfg w (k - off))
       else storage_bit cfg s k)"
    using assms
    by (auto simp: bit_field_val field_ok_def in_field_def)
qed

lemma put_field_put_field:
  assumes "field_ok s off w"
  shows "put_field cfg (put_field cfg s off w v) off w u = put_field cfg s off w u"
  using assms by (intro put_field_eqI) (auto simp: storage_bit_put_field)

lemma put_field_commute:
  assumes "field_ok s off w" and "field_ok s off' w'" and "apart off w off' w'"
  shows "put_field cfg (put_field cfg s off w v) off' w' u =
         put_field cfg (put_field cfg s off' w' u) off w v"
proof -
  have "\<not> (in_field off w k \<and> in_field off' w' k)" for k
    using assms(3) by (auto simp: in_field_def apart_def)
  with assms(1,2) show ?thesis
    by (intro put_field_eqI) (auto simp: storage_bit_put_field)
qed

section \<open>The contract of a packed struct\<close>

text \<open>
  An accessor pair reads and writes one field: both are total on well-formed structs, a
  read returns the last value written cut to the field's width, writing back what was read
  changes nothing, and a second write overrides the first.
\<close>

locale field_accessor =
  fixes get :: "build_cfg \<Rightarrow> 's \<Rightarrow> u64 res"
    and put :: "build_cfg \<Rightarrow> 's \<Rightarrow> u64 \<Rightarrow> 's res"
    and wf :: "'s \<Rightarrow> bool"
    and width :: nat
  assumes get_total: "wf s \<Longrightarrow> \<exists>v. get cfg s = Ret v"
    and put_total: "wf s \<Longrightarrow> \<exists>s'. put cfg s v = Ret s' \<and> wf s'"
    and get_put: "wf s \<Longrightarrow> put cfg s v = Ret s' \<Longrightarrow> get cfg s' = Ret (take_bit width v)"
    and put_get: "wf s \<Longrightarrow> get cfg s = Ret v \<Longrightarrow> put cfg s v = Ret s"
    and put_put: "wf s \<Longrightarrow> put cfg s v = Ret s' \<Longrightarrow> put cfg s' u = put cfg s u"
begin

lemma put_wf: "wf s \<Longrightarrow> put cfg s v = Ret s' \<Longrightarrow> wf s'"
  using put_total [of s cfg v] by auto

lemma get_bounded:
  assumes "wf s" and "get cfg s = Ret v"
  shows "take_bit width v = v"
proof -
  have "put cfg s v = Ret s" using assms by (rule put_get)
  with assms(1) have "get cfg s = Ret (take_bit width v)" by (rule get_put)
  with assms(2) show ?thesis by simp
qed

lemma put_take_bit:
  assumes "wf s"
  shows "put cfg s (take_bit width v) = put cfg s v"
proof -
  obtain s' where s': "put cfg s v = Ret s'" "wf s'"
    using put_total [OF assms] by blast
  with assms have "get cfg s' = Ret (take_bit width v)" by (blast intro: get_put)
  with s' have "put cfg s' (take_bit width v) = Ret s'" by (blast intro: put_get)
  with s' put_put [OF assms s'(1)] show ?thesis by simp
qed

end

fun put_all ::
  "('f \<Rightarrow> build_cfg \<Rightarrow> 's \<Rightarrow> u64 \<Rightarrow> 's res) \<Rightarrow> build_cfg \<Rightarrow> 's \<Rightarrow> ('f \<times> u64) list \<Rightarrow> 's res" where
  "put_all put cfg s [] = Ret s"
| "put_all put cfg s ((f, v) # fvs) = and_then (put f cfg s v) (\<lambda>s'. put_all put cfg s' fvs)"

text \<open>A struct with several fields: one accessor each, and writing one leaves the others alone.\<close>

locale field_family =
  fixes get :: "'f \<Rightarrow> build_cfg \<Rightarrow> 's \<Rightarrow> u64 res"
    and put :: "'f \<Rightarrow> build_cfg \<Rightarrow> 's \<Rightarrow> u64 \<Rightarrow> 's res"
    and wf :: "'s \<Rightarrow> bool"
    and width :: "'f \<Rightarrow> nat"
  assumes accessor: "field_accessor (get f) (put f) wf (width f)"
    and frame: "wf s \<Longrightarrow> f \<noteq> g \<Longrightarrow> put f cfg s v = Ret s' \<Longrightarrow> get g cfg s' = get g cfg s"
begin

lemma put_all_frame:
  assumes "wf s" and "g \<notin> fst ` set fvs" and "put_all put cfg s fvs = Ret s'"
  shows "wf s' \<and> get g cfg s' = get g cfg s"
  using assms
proof (induction fvs arbitrary: s)
  case Nil
  then show ?case by simp
next
  case (Cons fv fvs)
  obtain f v where fv: "fv = (f, v)" by (cases fv)
  from Cons.prems(3) fv obtain t where t: "put f cfg s v = Ret t" "put_all put cfg t fvs = Ret s'"
    by (auto simp: and_then_Ret_iff)
  have "wf t" using Cons.prems(1) t(1) by (rule field_accessor.put_wf [OF accessor])
  with Cons.IH [of t] Cons.prems(2) t(2) have "wf s' \<and> get g cfg s' = get g cfg t" by auto
  moreover have "get g cfg t = get g cfg s"
    using Cons.prems(1,2) t(1) fv by (intro frame) auto
  ultimately show ?case by simp
qed

lemma put_all_get:
  assumes "wf s" and "distinct (map fst fvs)"
  shows "\<exists>s'. put_all put cfg s fvs = Ret s' \<and> wf s' \<and>
           (\<forall>(f, v)\<in>set fvs. get f cfg s' = Ret (take_bit (width f) v))"
  using assms
proof (induction fvs arbitrary: s)
  case Nil
  then show ?case by simp
next
  case (Cons fv fvs)
  obtain f v where fv: "fv = (f, v)" by (cases fv)
  obtain t where t: "put f cfg s v = Ret t" "wf t"
    using field_accessor.put_total [OF accessor Cons.prems(1)] by blast
  have f: "get f cfg t = Ret (take_bit (width f) v)"
    using Cons.prems(1) t(1) by (rule field_accessor.get_put [OF accessor])
  obtain s' where s': "put_all put cfg t fvs = Ret s'" "wf s'"
      "\<forall>(f, v)\<in>set fvs. get f cfg s' = Ret (take_bit (width f) v)"
    using Cons.IH [OF t(2)] Cons.prems(2) by auto
  moreover have "get f cfg s' = get f cfg t"
    using put_all_frame [OF t(2) _ s'(1)] Cons.prems(2) fv by auto
  ultimately show ?case using t f fv by auto
qed

end

text \<open>
  A layout gives every field an offset and a width in the bytes of the struct; where the
  fields are apart, the layout's accessors are such a family.
\<close>

definition layout_get ::
  "('f \<Rightarrow> nat) \<Rightarrow> ('f \<Rightarrow> nat) \<Rightarrow> ('s \<Rightarrow> u8 list) \<Rightarrow> 'f \<Rightarrow> build_cfg \<Rightarrow> 's \<Rightarrow> u64 res" where
  "layout_get off width bits f cfg s = bf_get cfg (bits s) (off f) (of_nat (width f))"

definition layout_put ::
  "('f \<Rightarrow> nat) \<Rightarrow> ('f \<Rightarrow> nat) \<Rightarrow> ('s \<Rightarrow> u8 list) \<Rightarrow> ('s \<Rightarrow> u8 list \<Rightarrow> 's) \<Rightarrow>
   'f \<Rightarrow> build_cfg \<Rightarrow> 's \<Rightarrow> u64 \<Rightarrow> 's res" where
  "layout_put off width bits upd f cfg s v =
     and_then (bf_set cfg (bits s) (off f) (of_nat (width f)) v) (\<lambda>b. Ret (upd s b))"

locale bit_layout =
  fixes off :: "'f \<Rightarrow> nat"
    and width :: "'f \<Rightarrow> nat"
    and nbytes :: nat
    and bits :: "'s \<Rightarrow> u8 list"
    and upd :: "'s \<Rightarrow> u8 list \<Rightarrow> 's"
  assumes bits_upd: "bits (upd s b) = b"
    and upd_bits: "upd s (bits s) = s"
    and upd_upd: "upd (upd s b) c = upd s c"
    and width_pos: "0 < width f"
    and width_le: "width f \<le> 64"
    and fits: "off f + width f \<le> 8 * nbytes"
    and disjoint: "f \<noteq> g \<Longrightarrow> apart (off f) (width f) (off g) (width g)"
begin

lemma layout_ok: "length (bits s) = nbytes \<Longrightarrow> field_ok (bits s) (off f) (width f)"
  using width_pos [of f] width_le [of f] fits [of f] by (simp add: field_ok_def)

lemma unat_width: "unat (of_nat (width f) :: u8) = width f"
  using width_le [of f] by (simp add: unat_of_nat)

lemma layout_get_eq:
  "length (bits s) = nbytes \<Longrightarrow>
   layout_get off width bits f cfg s = Ret (field_val cfg (bits s) (off f) (width f))"
  using bf_get_eq [of "bits s" "off f" "of_nat (width f)" cfg] layout_ok [of s f]
  by (simp add: layout_get_def unat_width)

lemma layout_put_eq:
  "length (bits s) = nbytes \<Longrightarrow>
   layout_put off width bits upd f cfg s v =
     Ret (upd s (put_field cfg (bits s) (off f) (width f) v))"
  using bf_set_eq [of "bits s" "off f" "of_nat (width f)" cfg v] layout_ok [of s f]
  by (simp add: layout_put_def unat_width)

lemma layout_accessor:
  "field_accessor (layout_get off width bits f) (layout_put off width bits upd f)
     (\<lambda>s. length (bits s) = nbytes) (width f)"
  by unfold_locales
     (auto simp: layout_get_eq layout_put_eq bits_upd upd_bits upd_upd layout_ok
                 field_val_put_field put_field_field_val put_field_put_field)

end

sublocale bit_layout \<subseteq> family: field_family
  "layout_get off width bits" "layout_put off width bits upd"
  "\<lambda>s. length (bits s) = nbytes" width
  by unfold_locales
     (auto intro: field_accessor.get_total [OF layout_accessor]
        simp: layout_get_eq layout_put_eq bits_upd upd_bits upd_upd layout_ok disjoint
              field_val_put_field put_field_field_val put_field_put_field field_val_put_apart)

section \<open>Properties of get and set\<close>

lemma get_loop_Ret_bound:
  "get_loop cfg s off w is val = Ret r \<Longrightarrow> \<forall>i\<in>set is. i + off < 8 * length s"
proof (induction "is" arbitrary: val)
  case Nil
  then show ?case by simp
next
  case (Cons i "is")
  from Cons.prems obtain b where b: "bf_get_bit cfg s (i + off) = Ret b"
    by (auto simp: and_then_Ret_iff)
  then have "(i + off) div 8 < length s"
    by (auto simp: bf_get_bit_def split: if_splits)
  then have "i + off < 8 * length s" by linarith
  moreover from Cons.prems b have "\<exists>val'. get_loop cfg s off w is val' = Ret r"
    by (auto simp: and_then_Ret_iff split: if_splits)
  ultimately show ?case using Cons.IH by auto
qed

text \<open>
  C33: For a width of 1 to 64 bits, \<open>get\<close> returns exactly when the whole field lies in the
  storage, in every build: in a dev build too, where the third debug assertion lets some
  fields pass that stick out, the slice index catches them, so no bit outside is ever read.
\<close>
theorem bf_get_returns_iff:
  assumes "0 < unat w" and "unat w \<le> 64"
  shows "(\<exists>v. bf_get cfg s off w = Ret v) \<longleftrightarrow> off + unat w \<le> 8 * length s"
proof
  assume "off + unat w \<le> 8 * length s"
  with assms have "field_ok s off (unat w)" by (simp add: field_ok_def)
  then show "\<exists>v. bf_get cfg s off w = Ret v" by (auto simp: bf_get_eq)
next
  assume "\<exists>v. bf_get cfg s off w = Ret v"
  then obtain v where "get_loop cfg s off (unat w) [0..<unat w] 0 = Ret v"
    by (auto simp: bf_get_def split: if_splits)
  then have "\<forall>i<unat w. i + off < 8 * length s"
    by (auto dest!: get_loop_Ret_bound)
  then have "(unat w - 1) + off < 8 * length s" using assms(1) by (metis diff_less zero_less_one)
  with assms(1) show "off + unat w \<le> 8 * length s" by linarith
qed

theorem bf_get_returns_iff_witness:
  "\<not> (\<exists>v. bf_get dev_x86 [1, 2] 10 7 = Ret v) \<and> field_asserts dev_x86 [1, 2] 10 7"
  using bf_get_returns_iff [of 7 dev_x86 "[1, 2]" 10] by (simp add: field_asserts_def)

text \<open>The bytes of a storage read as one little-endian number.\<close>

definition le_word :: "u8 list \<Rightarrow> u64" where
  "le_word bs = word_of_int (horner_sum uint (2 ^ 8) bs)"

lemma bit_le_word:
  "length bs \<le> 8 \<Longrightarrow>
   bit (le_word bs) k \<longleftrightarrow> k < 8 * length bs \<and> bit (bs ! (k div 8)) (k mod 8)"
  using bit_horner_sum_uint_exp_iff [of bs k]
  by (auto simp: le_word_def bit_word_of_int_iff div8_less)

lemma storage_bit_le_word:
  "\<not> big_endian cfg \<Longrightarrow> length s \<le> 8 \<Longrightarrow> k < 8 * length s \<Longrightarrow>
   storage_bit cfg s k = bit (le_word s) k"
  by (simp add: storage_bit_def bit_le_word bit_index_def)

lemma value_index_le [simp]: "\<not> big_endian cfg \<Longrightarrow> value_index cfg n j = j"
  by (simp add: value_index_def)

lemma field_val_le_word:
  assumes "\<not> big_endian cfg" and "length s \<le> 8" and "field_ok s off w"
  shows "field_val cfg s off w = take_bit w (drop_bit off (le_word s))"
  using assms
  by (intro bit_word_eqI)
     (auto simp: bit_field_val bit_take_bit_iff bit_drop_bit_eq storage_bit_le_word field_ok_def)

lemma le_word_put_field:
  assumes "\<not> big_endian cfg" and "length s \<le> 8" and ok: "field_ok s off w"
  shows "le_word (put_field cfg s off w v) =
    (le_word s AND NOT (push_bit off (mask w))) OR push_bit off (take_bit w v)"
proof (rule bit_word_eqI)
  fix k assume k: "k < LENGTH(64)"
  let ?s' = "put_field cfg s off w v"
  show "bit (le_word ?s') k \<longleftrightarrow>
    bit ((le_word s AND NOT (push_bit off (mask w))) OR push_bit off (take_bit w v)) k"
  proof (cases "k < 8 * length s")
    case True
    with storage_bit_put_field [OF ok True, of cfg v] assms
    have "bit (le_word ?s') k \<longleftrightarrow>
        (if in_field off w k then bit v (k - off) else bit (le_word s) k)"
      by (simp add: storage_bit_le_word)
    with k show ?thesis
      by (auto simp: bit_or_iff bit_and_iff bit_not_iff bit_push_bit_iff bit_mask_iff
            bit_take_bit_iff in_field_def)
  next
    case False
    with ok assms(2) show ?thesis
      by (auto simp: bit_le_word bit_or_iff bit_and_iff bit_push_bit_iff bit_take_bit_iff field_ok_def)
  qed
qed

text \<open>
  C1: On a little-endian target, \<open>get\<close> and \<open>set\<close> refine shift-and-mask arithmetic on the
  storage read as one little-endian number: \<open>get\<close> is the number shifted right by the offset
  and cut to the width, and \<open>set\<close> returns a storage of the same length whose number has the
  field's bits cleared and the cut, shifted value put there.
\<close>
theorem bitfield_refines_shift_mask:
  assumes "\<not> big_endian cfg" and "length s \<le> 8" and ok: "field_ok s off (unat w)"
  shows "bf_get cfg s off w = Ret (take_bit (unat w) (drop_bit off (le_word s))) \<and>
    (\<exists>s'. bf_set cfg s off w v = Ret s' \<and> length s' = length s \<and>
           le_word s' = (le_word s AND NOT (push_bit off (mask (unat w)))) OR
                        push_bit off (take_bit (unat w) v))"
  using bf_get_eq [OF ok, of cfg] bf_set_eq [OF ok, of cfg v] assms
  by (auto simp: field_val_le_word le_word_put_field)

theorem bitfield_refines_shift_mask_witness:
  "bf_get release_x86 [0x34, 0x12] 4 8 = Ret 0x23 \<and>
   (\<exists>s'. bf_set release_x86 [0x34, 0x12] 4 8 0x1FF = Ret s' \<and> le_word s' = 0x1FF4)"
proof -
  have "le_word [0x34, 0x12] = 0x1234" by (simp add: le_word_def)
  then show ?thesis
    using bitfield_refines_shift_mask [of release_x86 "[0x34, 0x12]" 4 8 "0x1FF"]
    by (auto simp: field_ok_def drop_bit_eq_div take_bit_eq_mod mask_eq_exp_minus_1 push_bit_eq_mult)
qed

end
