(* ===== verification/Perf_Bitfields.thy ===== *)
theory Perf_Bitfields
  imports Bitfield
begin

text \<open>
  The packed structs of \<open>perf_event/binding.rs\<close>: \<open>perf_branch_entry\<close> and
  \<open>perf_mem_data_src__bindgen_ty_1\<close>, with the getter and setter of every field and the two
  \<open>new_bitfield_1\<close> constructors. Both are bit layouts in the sense of theory Bitfield, so
  the laws of field families hold for their accessors.
\<close>

section \<open>perf\_branch\_entry\<close>

record perf_branch_entry =
  pbe_from :: u64
  pbe_to :: u64
  pbe_bitfield_1 :: "u8 list"

definition mispred :: "build_cfg \<Rightarrow> perf_branch_entry \<Rightarrow> u64 res" where
  "mispred cfg e = bf_get cfg (pbe_bitfield_1 e) 0 1"

definition set_mispred :: "build_cfg \<Rightarrow> perf_branch_entry \<Rightarrow> u64 \<Rightarrow> perf_branch_entry res" where
  "set_mispred cfg e val =
     and_then (bf_set cfg (pbe_bitfield_1 e) 0 1 val) (\<lambda>b. Ret (e\<lparr>pbe_bitfield_1 := b\<rparr>))"

definition predicted :: "build_cfg \<Rightarrow> perf_branch_entry \<Rightarrow> u64 res" where
  "predicted cfg e = bf_get cfg (pbe_bitfield_1 e) 1 1"

definition set_predicted :: "build_cfg \<Rightarrow> perf_branch_entry \<Rightarrow> u64 \<Rightarrow> perf_branch_entry res" where
  "set_predicted cfg e val =
     and_then (bf_set cfg (pbe_bitfield_1 e) 1 1 val) (\<lambda>b. Ret (e\<lparr>pbe_bitfield_1 := b\<rparr>))"

definition in_tx :: "build_cfg \<Rightarrow> perf_branch_entry \<Rightarrow> u64 res" where
  "in_tx cfg e = bf_get cfg (pbe_bitfield_1 e) 2 1"

definition set_in_tx :: "build_cfg \<Rightarrow> perf_branch_entry \<Rightarrow> u64 \<Rightarrow> perf_branch_entry res" where
  "set_in_tx cfg e val =
     and_then (bf_set cfg (pbe_bitfield_1 e) 2 1 val) (\<lambda>b. Ret (e\<lparr>pbe_bitfield_1 := b\<rparr>))"

definition abort :: "build_cfg \<Rightarrow> perf_branch_entry \<Rightarrow> u64 res" where
  "abort cfg e = bf_get cfg (pbe_bitfield_1 e) 3 1"

definition set_abort :: "build_cfg \<Rightarrow> perf_branch_entry \<Rightarrow> u64 \<Rightarrow> perf_branch_entry res" where
  "set_abort cfg e val =
     and_then (bf_set cfg (pbe_bitfield_1 e) 3 1 val) (\<lambda>b. Ret (e\<lparr>pbe_bitfield_1 := b\<rparr>))"

definition cycles :: "build_cfg \<Rightarrow> perf_branch_entry \<Rightarrow> u64 res" where
  "cycles cfg e = bf_get cfg (pbe_bitfield_1 e) 4 16"

definition set_cycles :: "build_cfg \<Rightarrow> perf_branch_entry \<Rightarrow> u64 \<Rightarrow> perf_branch_entry res" where
  "set_cycles cfg e val =
     and_then (bf_set cfg (pbe_bitfield_1 e) 4 16 val) (\<lambda>b. Ret (e\<lparr>pbe_bitfield_1 := b\<rparr>))"

definition branch_type :: "build_cfg \<Rightarrow> perf_branch_entry \<Rightarrow> u64 res" where
  "branch_type cfg e = bf_get cfg (pbe_bitfield_1 e) 20 4"

definition set_type :: "build_cfg \<Rightarrow> perf_branch_entry \<Rightarrow> u64 \<Rightarrow> perf_branch_entry res" where
  "set_type cfg e val =
     and_then (bf_set cfg (pbe_bitfield_1 e) 20 4 val) (\<lambda>b. Ret (e\<lparr>pbe_bitfield_1 := b\<rparr>))"

definition reserved :: "build_cfg \<Rightarrow> perf_branch_entry \<Rightarrow> u64 res" where
  "reserved cfg e = bf_get cfg (pbe_bitfield_1 e) 24 40"

definition set_reserved :: "build_cfg \<Rightarrow> perf_branch_entry \<Rightarrow> u64 \<Rightarrow> perf_branch_entry res" where
  "set_reserved cfg e val =
     and_then (bf_set cfg (pbe_bitfield_1 e) 24 40 val) (\<lambda>b. Ret (e\<lparr>pbe_bitfield_1 := b\<rparr>))"

definition branch_new_bitfield_1 ::
  "build_cfg \<Rightarrow> u64 \<Rightarrow> u64 \<Rightarrow> u64 \<Rightarrow> u64 \<Rightarrow> u64 \<Rightarrow> u64 \<Rightarrow> u64 \<Rightarrow> u8 list res" where
  "branch_new_bitfield_1 cfg v_mispred v_predicted v_in_tx v_abort v_cycles v_type v_reserved =
     and_then (bf_set cfg (bf_default 8) 0 1 v_mispred) (\<lambda>u.
     and_then (bf_set cfg u 1 1 v_predicted) (\<lambda>u.
     and_then (bf_set cfg u 2 1 v_in_tx) (\<lambda>u.
     and_then (bf_set cfg u 3 1 v_abort) (\<lambda>u.
     and_then (bf_set cfg u 4 16 v_cycles) (\<lambda>u.
     and_then (bf_set cfg u 20 4 v_type) (\<lambda>u.
     bf_set cfg u 24 40 v_reserved))))))"

section \<open>perf\_mem\_data\_src\<close>

record perf_mem_data_src =
  pmds_bitfield_1 :: "u8 list"

definition mem_op :: "build_cfg \<Rightarrow> perf_mem_data_src \<Rightarrow> u64 res" where
  "mem_op cfg d = bf_get cfg (pmds_bitfield_1 d) 0 5"

definition set_mem_op :: "build_cfg \<Rightarrow> perf_mem_data_src \<Rightarrow> u64 \<Rightarrow> perf_mem_data_src res" where
  "set_mem_op cfg d val =
     and_then (bf_set cfg (pmds_bitfield_1 d) 0 5 val) (\<lambda>b. Ret (d\<lparr>pmds_bitfield_1 := b\<rparr>))"

definition mem_lvl :: "build_cfg \<Rightarrow> perf_mem_data_src \<Rightarrow> u64 res" where
  "mem_lvl cfg d = bf_get cfg (pmds_bitfield_1 d) 5 14"

definition set_mem_lvl :: "build_cfg \<Rightarrow> perf_mem_data_src \<Rightarrow> u64 \<Rightarrow> perf_mem_data_src res" where
  "set_mem_lvl cfg d val =
     and_then (bf_set cfg (pmds_bitfield_1 d) 5 14 val) (\<lambda>b. Ret (d\<lparr>pmds_bitfield_1 := b\<rparr>))"

definition mem_snoop :: "build_cfg \<Rightarrow> perf_mem_data_src \<Rightarrow> u64 res" where
  "mem_snoop cfg d = bf_get cfg (pmds_bitfield_1 d) 19 5"

definition set_mem_snoop :: "build_cfg \<Rightarrow> perf_mem_data_src \<Rightarrow> u64 \<Rightarrow> perf_mem_data_src res" where
  "set_mem_snoop cfg d val =
     and_then (bf_set cfg (pmds_bitfield_1 d) 19 5 val) (\<lambda>b. Ret (d\<lparr>pmds_bitfield_1 := b\<rparr>))"

definition mem_lock :: "build_cfg \<Rightarrow> perf_mem_data_src \<Rightarrow> u64 res" where
  "mem_lock cfg d = bf_get cfg (pmds_bitfield_1 d) 24 2"

definition set_mem_lock :: "build_cfg \<Rightarrow> perf_mem_data_src \<Rightarrow> u64 \<Rightarrow> perf_mem_data_src res" where
  "set_mem_lock cfg d val =
     and_then (bf_set cfg (pmds_bitfield_1 d) 24 2 val) (\<lambda>b. Ret (d\<lparr>pmds_bitfield_1 := b\<rparr>))"

definition mem_dtlb :: "build_cfg \<Rightarrow> perf_mem_data_src \<Rightarrow> u64 res" where
  "mem_dtlb cfg d = bf_get cfg (pmds_bitfield_1 d) 26 7"

definition set_mem_dtlb :: "build_cfg \<Rightarrow> perf_mem_data_src \<Rightarrow> u64 \<Rightarrow> perf_mem_data_src res" where
  "set_mem_dtlb cfg d val =
     and_then (bf_set cfg (pmds_bitfield_1 d) 26 7 val) (\<lambda>b. Ret (d\<lparr>pmds_bitfield_1 := b\<rparr>))"

definition mem_lvl_num :: "build_cfg \<Rightarrow> perf_mem_data_src \<Rightarrow> u64 res" where
  "mem_lvl_num cfg d = bf_get cfg (pmds_bitfield_1 d) 33 4"

definition set_mem_lvl_num :: "build_cfg \<Rightarrow> perf_mem_data_src \<Rightarrow> u64 \<Rightarrow> perf_mem_data_src res" where
  "set_mem_lvl_num cfg d val =
     and_then (bf_set cfg (pmds_bitfield_1 d) 33 4 val) (\<lambda>b. Ret (d\<lparr>pmds_bitfield_1 := b\<rparr>))"

definition mem_remote :: "build_cfg \<Rightarrow> perf_mem_data_src \<Rightarrow> u64 res" where
  "mem_remote cfg d = bf_get cfg (pmds_bitfield_1 d) 37 1"

definition set_mem_remote :: "build_cfg \<Rightarrow> perf_mem_data_src \<Rightarrow> u64 \<Rightarrow> perf_mem_data_src res" where
  "set_mem_remote cfg d val =
     and_then (bf_set cfg (pmds_bitfield_1 d) 37 1 val) (\<lambda>b. Ret (d\<lparr>pmds_bitfield_1 := b\<rparr>))"

definition mem_snoopx :: "build_cfg \<Rightarrow> perf_mem_data_src \<Rightarrow> u64 res" where
  "mem_snoopx cfg d = bf_get cfg (pmds_bitfield_1 d) 38 2"

definition set_mem_snoopx :: "build_cfg \<Rightarrow> perf_mem_data_src \<Rightarrow> u64 \<Rightarrow> perf_mem_data_src res" where
  "set_mem_snoopx cfg d val =
     and_then (bf_set cfg (pmds_bitfield_1 d) 38 2 val) (\<lambda>b. Ret (d\<lparr>pmds_bitfield_1 := b\<rparr>))"

definition mem_blk :: "build_cfg \<Rightarrow> perf_mem_data_src \<Rightarrow> u64 res" where
  "mem_blk cfg d = bf_get cfg (pmds_bitfield_1 d) 40 3"

definition set_mem_blk :: "build_cfg \<Rightarrow> perf_mem_data_src \<Rightarrow> u64 \<Rightarrow> perf_mem_data_src res" where
  "set_mem_blk cfg d val =
     and_then (bf_set cfg (pmds_bitfield_1 d) 40 3 val) (\<lambda>b. Ret (d\<lparr>pmds_bitfield_1 := b\<rparr>))"

definition mem_rsvd :: "build_cfg \<Rightarrow> perf_mem_data_src \<Rightarrow> u64 res" where
  "mem_rsvd cfg d = bf_get cfg (pmds_bitfield_1 d) 43 21"

definition set_mem_rsvd :: "build_cfg \<Rightarrow> perf_mem_data_src \<Rightarrow> u64 \<Rightarrow> perf_mem_data_src res" where
  "set_mem_rsvd cfg d val =
     and_then (bf_set cfg (pmds_bitfield_1 d) 43 21 val) (\<lambda>b. Ret (d\<lparr>pmds_bitfield_1 := b\<rparr>))"

definition mem_new_bitfield_1 ::
  "build_cfg \<Rightarrow> u64 \<Rightarrow> u64 \<Rightarrow> u64 \<Rightarrow> u64 \<Rightarrow> u64 \<Rightarrow> u64 \<Rightarrow> u64 \<Rightarrow> u64 \<Rightarrow> u64 \<Rightarrow> u64 \<Rightarrow> u8 list res" where
  "mem_new_bitfield_1 cfg v_mem_op v_mem_lvl v_mem_snoop v_mem_lock v_mem_dtlb v_mem_lvl_num v_mem_remote v_mem_snoopx v_mem_blk v_mem_rsvd =
     and_then (bf_set cfg (bf_default 8) 0 5 v_mem_op) (\<lambda>u.
     and_then (bf_set cfg u 5 14 v_mem_lvl) (\<lambda>u.
     and_then (bf_set cfg u 19 5 v_mem_snoop) (\<lambda>u.
     and_then (bf_set cfg u 24 2 v_mem_lock) (\<lambda>u.
     and_then (bf_set cfg u 26 7 v_mem_dtlb) (\<lambda>u.
     and_then (bf_set cfg u 33 4 v_mem_lvl_num) (\<lambda>u.
     and_then (bf_set cfg u 37 1 v_mem_remote) (\<lambda>u.
     and_then (bf_set cfg u 38 2 v_mem_snoopx) (\<lambda>u.
     and_then (bf_set cfg u 40 3 v_mem_blk) (\<lambda>u.
     bf_set cfg u 43 21 v_mem_rsvd)))))))))"

section \<open>The layouts\<close>

text \<open>One constructor per field, and the accessors as tables over them.\<close>

datatype branch_field = B_mispred | B_predicted | B_in_tx | B_abort | B_cycles | B_type | B_reserved

fun branch_off :: "branch_field \<Rightarrow> nat" where
  "branch_off B_mispred = 0"
| "branch_off B_predicted = 1"
| "branch_off B_in_tx = 2"
| "branch_off B_abort = 3"
| "branch_off B_cycles = 4"
| "branch_off B_type = 20"
| "branch_off B_reserved = 24"

fun branch_width :: "branch_field \<Rightarrow> nat" where
  "branch_width B_mispred = 1"
| "branch_width B_predicted = 1"
| "branch_width B_in_tx = 1"
| "branch_width B_abort = 1"
| "branch_width B_cycles = 16"
| "branch_width B_type = 4"
| "branch_width B_reserved = 40"

fun branch_get :: "branch_field \<Rightarrow> build_cfg \<Rightarrow> perf_branch_entry \<Rightarrow> u64 res" where
  "branch_get B_mispred = mispred"
| "branch_get B_predicted = predicted"
| "branch_get B_in_tx = in_tx"
| "branch_get B_abort = abort"
| "branch_get B_cycles = cycles"
| "branch_get B_type = branch_type"
| "branch_get B_reserved = reserved"

fun branch_put :: "branch_field \<Rightarrow> build_cfg \<Rightarrow> perf_branch_entry \<Rightarrow> u64 \<Rightarrow> perf_branch_entry res" where
  "branch_put B_mispred = set_mispred"
| "branch_put B_predicted = set_predicted"
| "branch_put B_in_tx = set_in_tx"
| "branch_put B_abort = set_abort"
| "branch_put B_cycles = set_cycles"
| "branch_put B_type = set_type"
| "branch_put B_reserved = set_reserved"

interpretation branch: bit_layout branch_off branch_width 8 pbe_bitfield_1 "\<lambda>s b. s\<lparr>pbe_bitfield_1 := b\<rparr>"
proof unfold_locales
  fix f g :: branch_field
  show "0 < branch_width f" and "branch_width f \<le> 64" and "branch_off f + branch_width f \<le> 8 * 8"
    by (cases f; simp)+
  show "f \<noteq> g \<Longrightarrow> apart (branch_off f) (branch_width f) (branch_off g) (branch_width g)"
    by (cases f; cases g; simp add: apart_def)
qed simp_all

lemma branch_get_layout: "branch_get = layout_get branch_off branch_width pbe_bitfield_1"
proof (intro ext)
  fix f cfg s
  show "branch_get f cfg s = layout_get branch_off branch_width pbe_bitfield_1 f cfg s"
    by (cases f) (simp_all add: layout_get_def mispred_def predicted_def in_tx_def abort_def cycles_def branch_type_def reserved_def)
qed

lemma branch_put_layout:
  "branch_put = layout_put branch_off branch_width pbe_bitfield_1 (\<lambda>s b. s\<lparr>pbe_bitfield_1 := b\<rparr>)"
proof (intro ext)
  fix f cfg s v
  show "branch_put f cfg s v =
      layout_put branch_off branch_width pbe_bitfield_1 (\<lambda>s b. s\<lparr>pbe_bitfield_1 := b\<rparr>) f cfg s v"
    by (cases f) (simp_all add: layout_put_def set_mispred_def set_predicted_def set_in_tx_def set_abort_def set_cycles_def set_type_def set_reserved_def)
qed

text \<open>So the struct's own accessors are a family of independent fields.\<close>

interpretation branch_acc: field_family branch_get branch_put "\<lambda>s. length (pbe_bitfield_1 s) = 8" branch_width
  unfolding branch_get_layout branch_put_layout by (rule branch.family.field_family_axioms)

datatype mem_field = M_op | M_lvl | M_snoop | M_lock | M_dtlb | M_lvl_num | M_remote | M_snoopx | M_blk | M_rsvd

fun memsrc_off :: "mem_field \<Rightarrow> nat" where
  "memsrc_off M_op = 0"
| "memsrc_off M_lvl = 5"
| "memsrc_off M_snoop = 19"
| "memsrc_off M_lock = 24"
| "memsrc_off M_dtlb = 26"
| "memsrc_off M_lvl_num = 33"
| "memsrc_off M_remote = 37"
| "memsrc_off M_snoopx = 38"
| "memsrc_off M_blk = 40"
| "memsrc_off M_rsvd = 43"

fun memsrc_width :: "mem_field \<Rightarrow> nat" where
  "memsrc_width M_op = 5"
| "memsrc_width M_lvl = 14"
| "memsrc_width M_snoop = 5"
| "memsrc_width M_lock = 2"
| "memsrc_width M_dtlb = 7"
| "memsrc_width M_lvl_num = 4"
| "memsrc_width M_remote = 1"
| "memsrc_width M_snoopx = 2"
| "memsrc_width M_blk = 3"
| "memsrc_width M_rsvd = 21"

fun memsrc_get :: "mem_field \<Rightarrow> build_cfg \<Rightarrow> perf_mem_data_src \<Rightarrow> u64 res" where
  "memsrc_get M_op = mem_op"
| "memsrc_get M_lvl = mem_lvl"
| "memsrc_get M_snoop = mem_snoop"
| "memsrc_get M_lock = mem_lock"
| "memsrc_get M_dtlb = mem_dtlb"
| "memsrc_get M_lvl_num = mem_lvl_num"
| "memsrc_get M_remote = mem_remote"
| "memsrc_get M_snoopx = mem_snoopx"
| "memsrc_get M_blk = mem_blk"
| "memsrc_get M_rsvd = mem_rsvd"

fun memsrc_put :: "mem_field \<Rightarrow> build_cfg \<Rightarrow> perf_mem_data_src \<Rightarrow> u64 \<Rightarrow> perf_mem_data_src res" where
  "memsrc_put M_op = set_mem_op"
| "memsrc_put M_lvl = set_mem_lvl"
| "memsrc_put M_snoop = set_mem_snoop"
| "memsrc_put M_lock = set_mem_lock"
| "memsrc_put M_dtlb = set_mem_dtlb"
| "memsrc_put M_lvl_num = set_mem_lvl_num"
| "memsrc_put M_remote = set_mem_remote"
| "memsrc_put M_snoopx = set_mem_snoopx"
| "memsrc_put M_blk = set_mem_blk"
| "memsrc_put M_rsvd = set_mem_rsvd"

interpretation memsrc: bit_layout memsrc_off memsrc_width 8 pmds_bitfield_1 "\<lambda>s b. s\<lparr>pmds_bitfield_1 := b\<rparr>"
proof unfold_locales
  fix f g :: mem_field
  show "0 < memsrc_width f" and "memsrc_width f \<le> 64" and "memsrc_off f + memsrc_width f \<le> 8 * 8"
    by (cases f; simp)+
  show "f \<noteq> g \<Longrightarrow> apart (memsrc_off f) (memsrc_width f) (memsrc_off g) (memsrc_width g)"
    by (cases f; cases g; simp add: apart_def)
qed simp_all

lemma memsrc_get_layout: "memsrc_get = layout_get memsrc_off memsrc_width pmds_bitfield_1"
proof (intro ext)
  fix f cfg s
  show "memsrc_get f cfg s = layout_get memsrc_off memsrc_width pmds_bitfield_1 f cfg s"
    by (cases f) (simp_all add: layout_get_def mem_op_def mem_lvl_def mem_snoop_def mem_lock_def mem_dtlb_def mem_lvl_num_def mem_remote_def mem_snoopx_def mem_blk_def mem_rsvd_def)
qed

lemma memsrc_put_layout:
  "memsrc_put = layout_put memsrc_off memsrc_width pmds_bitfield_1 (\<lambda>s b. s\<lparr>pmds_bitfield_1 := b\<rparr>)"
proof (intro ext)
  fix f cfg s v
  show "memsrc_put f cfg s v =
      layout_put memsrc_off memsrc_width pmds_bitfield_1 (\<lambda>s b. s\<lparr>pmds_bitfield_1 := b\<rparr>) f cfg s v"
    by (cases f) (simp_all add: layout_put_def set_mem_op_def set_mem_lvl_def set_mem_snoop_def set_mem_lock_def set_mem_dtlb_def set_mem_lvl_num_def set_mem_remote_def set_mem_snoopx_def set_mem_blk_def set_mem_rsvd_def)
qed

text \<open>So the struct's own accessors are a family of independent fields.\<close>

interpretation memsrc_acc: field_family memsrc_get memsrc_put "\<lambda>s. length (pmds_bitfield_1 s) = 8" memsrc_width
  unfolding memsrc_get_layout memsrc_put_layout by (rule memsrc.family.field_family_axioms)

section \<open>Properties\<close>

lemma put_all_bits_branch:
  "branch_new_bitfield_1 cfg v1 v2 v3 v4 v5 v6 v7 =
   and_then (put_all branch_put cfg \<lparr>pbe_from = a, pbe_to = b, pbe_bitfield_1 = replicate 8 0\<rparr>
     [(B_mispred, v1), (B_predicted, v2), (B_in_tx, v3), (B_abort, v4), (B_cycles, v5),
      (B_type, v6), (B_reserved, v7)]) (\<lambda>e. Ret (pbe_bitfield_1 e))"
  by (simp add: branch_new_bitfield_1_def set_mispred_def set_predicted_def set_in_tx_def
        set_abort_def set_cycles_def set_type_def set_reserved_def and_then_assoc)

lemma branch_put_from_to:
  "branch_put f cfg e v = Ret t \<Longrightarrow> pbe_from t = pbe_from e \<and> pbe_to t = pbe_to e"
  by (auto simp: branch_put_layout layout_put_def and_then_Ret_iff)

lemma put_all_from_to_branch:
  "put_all branch_put cfg e fvs = Ret e' \<Longrightarrow> pbe_from e' = pbe_from e \<and> pbe_to e' = pbe_to e"
proof (induction fvs arbitrary: e)
  case Nil
  then show ?case by simp
next
  case (Cons fv fvs)
  obtain f v where "fv = (f, v)" by (cases fv)
  with Cons.prems obtain t where "branch_put f cfg e v = Ret t" "put_all branch_put cfg t fvs = Ret e'"
    by (auto simp: and_then_Ret_iff)
  with Cons.IH [of t] branch_put_from_to [of f cfg e v t] show ?case by simp
qed

text \<open>
  C30: The constructor \<open>perf_branch_entry::new_bitfield_1\<close> never panics, in any build and byte
  order, and every getter reads back the argument it was given, cut to the field's width.
\<close>
theorem branch_new_bitfield_1_roundtrip:
  "\<exists>u. branch_new_bitfield_1 cfg v_mispred v_predicted v_in_tx v_abort v_cycles v_type v_reserved = Ret u \<and>
     mispred cfg \<lparr>pbe_from = a, pbe_to = b, pbe_bitfield_1 = u\<rparr> = Ret (take_bit 1 v_mispred) \<and>
     predicted cfg \<lparr>pbe_from = a, pbe_to = b, pbe_bitfield_1 = u\<rparr> = Ret (take_bit 1 v_predicted) \<and>
     in_tx cfg \<lparr>pbe_from = a, pbe_to = b, pbe_bitfield_1 = u\<rparr> = Ret (take_bit 1 v_in_tx) \<and>
     abort cfg \<lparr>pbe_from = a, pbe_to = b, pbe_bitfield_1 = u\<rparr> = Ret (take_bit 1 v_abort) \<and>
     cycles cfg \<lparr>pbe_from = a, pbe_to = b, pbe_bitfield_1 = u\<rparr> = Ret (take_bit 16 v_cycles) \<and>
     branch_type cfg \<lparr>pbe_from = a, pbe_to = b, pbe_bitfield_1 = u\<rparr> = Ret (take_bit 4 v_type) \<and>
     reserved cfg \<lparr>pbe_from = a, pbe_to = b, pbe_bitfield_1 = u\<rparr> = Ret (take_bit 40 v_reserved)"
proof -
  let ?e = "\<lparr>pbe_from = a, pbe_to = b, pbe_bitfield_1 = replicate 8 0\<rparr> :: perf_branch_entry"
  let ?fvs = "[(B_mispred, v_mispred), (B_predicted, v_predicted), (B_in_tx, v_in_tx),
    (B_abort, v_abort), (B_cycles, v_cycles), (B_type, v_type), (B_reserved, v_reserved)]"
  obtain e where e: "put_all branch_put cfg ?e ?fvs = Ret e"
    and get: "\<forall>(f, v)\<in>set ?fvs. branch_get f cfg e = Ret (take_bit (branch_width f) v)"
    using branch_acc.put_all_get [of ?e ?fvs cfg] by auto
  obtain u where u: "e = \<lparr>pbe_from = a, pbe_to = b, pbe_bitfield_1 = u\<rparr>"
    using put_all_from_to_branch [OF e] by (cases e) simp
  have "branch_new_bitfield_1 cfg v_mispred v_predicted v_in_tx v_abort v_cycles v_type v_reserved
      = Ret u"
    unfolding put_all_bits_branch [of cfg _ _ _ _ _ _ _ a b] e u by simp
  then show ?thesis using get unfolding u by simp
qed

lemma put_all_bits_mem:
  "mem_new_bitfield_1 cfg v1 v2 v3 v4 v5 v6 v7 v8 v9 v10 =
   and_then (put_all memsrc_put cfg \<lparr>pmds_bitfield_1 = replicate 8 0\<rparr>
     [(M_op, v1), (M_lvl, v2), (M_snoop, v3), (M_lock, v4), (M_dtlb, v5),
      (M_lvl_num, v6), (M_remote, v7), (M_snoopx, v8), (M_blk, v9), (M_rsvd, v10)])
     (\<lambda>d. Ret (pmds_bitfield_1 d))"
  by (simp add: mem_new_bitfield_1_def set_mem_op_def set_mem_lvl_def set_mem_snoop_def
        set_mem_lock_def set_mem_dtlb_def set_mem_lvl_num_def set_mem_remote_def
        set_mem_snoopx_def set_mem_blk_def set_mem_rsvd_def and_then_assoc)

lemma mem_new_get:
  "\<exists>u. mem_new_bitfield_1 cfg v_op v_lvl v_snoop v_lock v_dtlb v_lvl_num v_remote v_snoopx v_blk v_rsvd
        = Ret u \<and> length u = 8 \<and>
     (\<forall>(f, v)\<in>set [(M_op, v_op), (M_lvl, v_lvl), (M_snoop, v_snoop), (M_lock, v_lock),
        (M_dtlb, v_dtlb), (M_lvl_num, v_lvl_num), (M_remote, v_remote), (M_snoopx, v_snoopx),
        (M_blk, v_blk), (M_rsvd, v_rsvd)].
        memsrc_get f cfg \<lparr>pmds_bitfield_1 = u\<rparr> = Ret (take_bit (memsrc_width f) v))"
proof -
  let ?fvs = "[(M_op, v_op), (M_lvl, v_lvl), (M_snoop, v_snoop), (M_lock, v_lock), (M_dtlb, v_dtlb),
    (M_lvl_num, v_lvl_num), (M_remote, v_remote), (M_snoopx, v_snoopx), (M_blk, v_blk), (M_rsvd, v_rsvd)]"
  obtain d where d: "put_all memsrc_put cfg \<lparr>pmds_bitfield_1 = replicate 8 0\<rparr> ?fvs = Ret d"
    and wf: "length (pmds_bitfield_1 d) = 8"
    and get: "\<forall>(f, v)\<in>set ?fvs. memsrc_get f cfg d = Ret (take_bit (memsrc_width f) v)"
    using memsrc_acc.put_all_get [of "\<lparr>pmds_bitfield_1 = replicate 8 0\<rparr>" ?fvs cfg] by auto
  have "mem_new_bitfield_1 cfg v_op v_lvl v_snoop v_lock v_dtlb v_lvl_num v_remote v_snoopx v_blk
      v_rsvd = Ret (pmds_bitfield_1 d)"
    unfolding put_all_bits_mem d by simp
  with wf get show ?thesis by (cases d) simp
qed

text \<open>
  The same for \<open>perf_mem_data_src__bindgen_ty_1::new_bitfield_1\<close> and its ten fields.
\<close>
theorem mem_new_bitfield_1_roundtrip:
  "\<exists>u. mem_new_bitfield_1 cfg v_op v_lvl v_snoop v_lock v_dtlb v_lvl_num v_remote v_snoopx v_blk v_rsvd
        = Ret u \<and>
     mem_op cfg \<lparr>pmds_bitfield_1 = u\<rparr> = Ret (take_bit 5 v_op) \<and>
     mem_lvl cfg \<lparr>pmds_bitfield_1 = u\<rparr> = Ret (take_bit 14 v_lvl) \<and>
     mem_snoop cfg \<lparr>pmds_bitfield_1 = u\<rparr> = Ret (take_bit 5 v_snoop) \<and>
     mem_lock cfg \<lparr>pmds_bitfield_1 = u\<rparr> = Ret (take_bit 2 v_lock) \<and>
     mem_dtlb cfg \<lparr>pmds_bitfield_1 = u\<rparr> = Ret (take_bit 7 v_dtlb) \<and>
     mem_lvl_num cfg \<lparr>pmds_bitfield_1 = u\<rparr> = Ret (take_bit 4 v_lvl_num) \<and>
     mem_remote cfg \<lparr>pmds_bitfield_1 = u\<rparr> = Ret (take_bit 1 v_remote) \<and>
     mem_snoopx cfg \<lparr>pmds_bitfield_1 = u\<rparr> = Ret (take_bit 2 v_snoopx) \<and>
     mem_blk cfg \<lparr>pmds_bitfield_1 = u\<rparr> = Ret (take_bit 3 v_blk) \<and>
     mem_rsvd cfg \<lparr>pmds_bitfield_1 = u\<rparr> = Ret (take_bit 21 v_rsvd)"
  using mem_new_get [of cfg v_op v_lvl v_snoop v_lock v_dtlb v_lvl_num v_remote v_snoopx v_blk v_rsvd]
  by auto

text \<open>
  In a \<open>perf_branch_entry\<close> with its 8 bytes, every setter succeeds, its getter then
  reads the new value cut to the field's width, and every other field, and the two plain
  fields, are unchanged.
\<close>
theorem branch_setters_independent:
  assumes "length (pbe_bitfield_1 e) = 8"
  shows "\<exists>e'. branch_put f cfg e v = Ret e' \<and>
     branch_get f cfg e' = Ret (take_bit (branch_width f) v) \<and>
     (\<forall>g. g \<noteq> f \<longrightarrow> branch_get g cfg e' = branch_get g cfg e) \<and>
     pbe_from e' = pbe_from e \<and> pbe_to e' = pbe_to e"
proof -
  obtain e' where e': "branch_put f cfg e v = Ret e'"
    using assms field_accessor.put_total [OF branch_acc.accessor] by blast
  moreover have "branch_get f cfg e' = Ret (take_bit (branch_width f) v)"
    using assms e' by (rule field_accessor.get_put [OF branch_acc.accessor])
  moreover have "g \<noteq> f \<Longrightarrow> branch_get g cfg e' = branch_get g cfg e" for g
    using branch_acc.frame [OF assms not_sym e'] by simp
  moreover have "pbe_from e' = pbe_from e \<and> pbe_to e' = pbe_to e"
    using e' by (rule branch_put_from_to)
  ultimately show ?thesis by blast
qed

theorem branch_setters_independent_witness:
  "\<exists>e'. branch_put B_cycles release_x86
          \<lparr>pbe_from = 1, pbe_to = 2, pbe_bitfield_1 = replicate 8 255\<rparr> 0x12345 = Ret e' \<and>
        cycles release_x86 e' = Ret 0x2345"
  using branch_setters_independent
    [where e = "\<lparr>pbe_from = 1, pbe_to = 2, pbe_bitfield_1 = replicate 8 255\<rparr>" and f = B_cycles
       and cfg = release_x86 and v = "0x12345"]
  by (auto simp: take_bit_eq_mod)

end
