(* ===== verification/Utils.thy ===== *)
theory Utils
  imports Prelude
begin

text \<open>
  \<open>utils.rs\<close>: the macro \<open>to_result!\<close> that turns a kernel return code into a \<open>Result\<close>, the
  big-endian wrapper \<open>u16be\<close>, and the sealed trait \<open>DirectPacketAccessOk\<close>, a predicate on
  types. A syntactic type is what the macros of \<open>struct_filter\<close> see.
\<close>

unbundle bit_operations_syntax

section \<open>to\_result\<close>

text \<open>
  The macro is generic in the type of the return code: it is used at \<open>i32\<close> and at \<open>i64\<close>.
  The cast \<open>as i32\<close> truncates.
\<close>

definition to_result :: "'a::len word \<Rightarrow> c_result" where
  "to_result val = (if val <s 0 then Err (ucast val) else Ok (ucast val))"

text \<open>\<open>to_result!(x as i32)\<close>, the form the map helpers use.\<close>

definition to_result_i32 :: "i64 \<Rightarrow> c_result" where
  "to_result_i32 val = to_result (ucast val :: i32)"

definition result_code :: "c_result \<Rightarrow> i32" where
  "result_code r = (case r of Ok v \<Rightarrow> v | Err e \<Rightarrow> e)"

definition fits_i32 :: "i64 \<Rightarrow> bool" where
  "fits_i32 val \<longleftrightarrow> - (2 ^ 31) \<le> sint val \<and> sint val < 2 ^ 31"

lemma sint_ucast_i32:
  assumes "fits_i32 val"
  shows "sint (ucast val :: i32) = sint val"
proof -
  have "sint (ucast val :: i32) = signed_take_bit 31 (sint val)"
    by (simp add: sint_uint unsigned_ucast_eq signed_take_bit_take_bit)
  also have "\<dots> = sint val"
    using assms by (intro signed_take_bit_int_eq_self) (simp_all add: fits_i32_def)
  finally show ?thesis .
qed

lemma to_result_code: "result_code (to_result val) = ucast val"
  by (simp add: result_code_def to_result_def)

text \<open>
  On return codes that fit an \<open>i32\<close>, \<open>to_result!\<close> on the \<open>i64\<close> code and on its cast
  agree: a negative code is \<open>Err\<close> of itself, any other code \<open>Ok\<close> of itself, with the value
  unchanged.
\<close>
theorem to_result_faithful:
  assumes "fits_i32 val"
  shows "to_result val = to_result_i32 val \<and>
    (sint val < 0 \<longrightarrow> (\<exists>e. to_result val = Err e \<and> sint e = sint val)) \<and>
    (0 \<le> sint val \<longrightarrow> (\<exists>v. to_result val = Ok v \<and> sint v = sint val))"
  using sint_ucast_i32 [OF assms]
  by (auto simp: to_result_def to_result_i32_def word_sless_alt)

theorem to_result_faithful_witness:
  "(\<exists>e. to_result (- 22 :: i64) = Err e \<and> sint e = - 22)"
proof -
  have "fits_i32 (- 22)" by (simp add: fits_i32_def)
  from to_result_faithful [OF this, THEN conjunct2, THEN conjunct1] show ?thesis by simp
qed

text \<open>
  Outside that range the two forms of the macro disagree: there are return codes that
  \<open>to_result!(val)\<close> calls \<open>Ok\<close> of a negative number, and non-negative codes that
  \<open>to_result!(val as i32)\<close> calls \<open>Err\<close>.
\<close>
theorem to_result_truncation_hazard:
  "(\<exists>val :: i64. 0 \<le> sint val \<and> (\<exists>v. to_result val = Ok v \<and> sint v < 0) \<and>
      (\<exists>e. to_result_i32 val = Err e))"
  by (rule exI [of _ "0x80000000"])
     (simp add: to_result_def to_result_i32_def word_sless_alt)

section \<open>u16be\<close>

datatype u16be = u16be (u16be_0: u16)

definition swap_bytes :: "u16 \<Rightarrow> u16" where
  "swap_bytes x = push_bit 8 x OR drop_bit 8 x"

text \<open>\<open>u16::from_be\<close> swaps on a little-endian target only.\<close>

definition from_be :: "build_cfg \<Rightarrow> u16 \<Rightarrow> u16" where
  "from_be cfg x = (if big_endian cfg then x else swap_bytes x)"

definition u16_from_u16be :: "build_cfg \<Rightarrow> u16be \<Rightarrow> u16" where
  "u16_from_u16be cfg v = from_be cfg (u16be_0 v)"

lemma bit_swap_bytes:
  "bit (swap_bytes x) k \<longleftrightarrow> k < 16 \<and> (if k < 8 then bit x (k + 8) else bit x (k - 8))"
  by (auto simp: swap_bytes_def bit_or_iff bit_push_bit_iff bit_drop_bit_eq add.commute
           dest: bit_imp_le_length)

lemma swap_bytes_invol: "swap_bytes (swap_bytes x) = x"
  by (rule bit_word_eqI) (auto simp: bit_swap_bytes)

section \<open>Types, as the procedural macros and the trait bound see them\<close>

text \<open>
  \<open>syn::Type\<close>: a path is the list of its segments' identifiers; array lengths do not
  matter to any check; every other kind of type is \<open>TOther\<close>.
\<close>

datatype syn_type = TPath "string list" | TArray syn_type | TReference syn_type | TOther

definition scalar_names :: "string list" where
  "scalar_names = [''u64'', ''i64'', ''u32'', ''i32'', ''u16'', ''i16'', ''u8'', ''i8'']"

text \<open>
  The impls of \<open>DirectPacketAccessOk\<close>: the eight integer types and the arrays of one of
  them. \<open>resolve\<close> is the compiler's name resolution, from a path to the name of the
  primitive type it denotes, if it denotes one.
\<close>

definition direct_packet_access_ok_impl ::
  "(string list \<Rightarrow> string option) \<Rightarrow> syn_type \<Rightarrow> bool" where
  "direct_packet_access_ok_impl resolve ty =
     (case ty of TPath p \<Rightarrow> (case resolve p of Some n \<Rightarrow> n \<in> set scalar_names | None \<Rightarrow> False)
      | _ \<Rightarrow> False)"

definition direct_packet_access_ok_impl_arr ::
  "(string list \<Rightarrow> string option) \<Rightarrow> syn_type \<Rightarrow> bool" where
  "direct_packet_access_ok_impl_arr resolve ty =
     (case ty of TArray elem \<Rightarrow> direct_packet_access_ok_impl resolve elem | _ \<Rightarrow> False)"

definition direct_packet_access_ok :: "(string list \<Rightarrow> string option) \<Rightarrow> syn_type \<Rightarrow> bool" where
  "direct_packet_access_ok resolve ty \<longleftrightarrow>
     direct_packet_access_ok_impl resolve ty \<or> direct_packet_access_ok_impl_arr resolve ty"

end
