(* ===== verification/Machine.thy ===== *)
theory Machine
  imports Utils
begin

text \<open>
  The machine the runtime crate runs on, and the kernel it runs in.

  The state (record \<open>machine\<close>) has a byte-addressed memory, the base of the \<open>gs\<close> segment of
  the running CPU, and one typed heap per kernel struct whose layout the bindings generate
  at build time: the fields are those the crate reads. The kernel's private state is the
  record's extension. Everything that is not in the sources, the generated constants, the
  addresses of kernel symbols and the kernel functions declared in \<open>stub.rs\<close>, is a field of
  the record \<open>kernel\<close>, an argument of every definition that uses it. A pointer to a value of
  the program (a key, a value, a format string) is passed to a kernel function as its bytes.

  The file also holds \<open>read_once.rs\<close> (volatile reads of each integer width) and \<open>barrier.rs\<close>.
\<close>

section \<open>Kernel structs\<close>

text \<open>\<open>pt_regs\<close> of \<open>kprobe/binding.rs\<close> and, the same struct again, of \<open>perf_event/binding.rs\<close>.\<close>

record pt_regs =
  r15 :: u64
  r14 :: u64
  r13 :: u64
  r12 :: u64
  rbp :: u64
  rbx :: u64
  r11 :: u64
  r10 :: u64
  r9 :: u64
  r8 :: u64
  rax :: u64
  rcx :: u64
  rdx :: u64
  rsi :: u64
  rdi :: u64
  orig_rax :: u64
  rip :: u64
  cs :: u64
  eflags :: u64
  rsp :: u64
  ss :: u64

text \<open>\<open>core::mem::size_of::<pt_regs>()\<close>: 21 registers of 8 bytes.\<close>

definition sizeof_pt_regs :: nat where
  "sizeof_pt_regs = 21 * 8"

record xdp_buff =
  xb_data :: u64
  xb_data_end :: u64
  xb_data_meta :: u64
  xb_rxq :: u64

record xdp_rxq_info =
  queue_index :: u32

record sk_buff =
  skb_len :: u32
  skb_data_len :: u32
  skb_data :: u64
  skb_protocol :: u16
  skb_priority :: u32
  skb_hash :: u32
  skb_queue_mapping :: u16
  skb_vlan_tci :: u16
  skb_vlan_proto :: u16
  skb_cb :: "i8 list"
  skb_tc_index :: u16
  skb_sk :: u64
  skb_dev :: u64

record net_device =
  nd_ifindex :: i32

record task_struct =
  ts_pid :: i32
  ts_tgid :: i32
  ts_comm :: "i8 list"
  ts_stack :: u64

text \<open>\<open>bpf_perf_event_data_kern\<close> and the fields of \<open>perf_sample_data\<close> that are read.\<close>

record bpf_perf_event_data_kern =
  bpe_regs :: u64
  bpe_data :: u64
  bpe_event :: u64

record perf_sample_data =
  psd_addr :: u64
  psd_period :: u64

section \<open>The state\<close>

record machine =
  mem :: "u64 \<Rightarrow> u8"
  gs_base :: u64
  xdp_buffs :: "u64 \<Rightarrow> xdp_buff"
  rxq_infos :: "u64 \<Rightarrow> xdp_rxq_info"
  sk_buffs :: "u64 \<Rightarrow> sk_buff"
  net_devices :: "u64 \<Rightarrow> net_device"
  task_structs :: "u64 \<Rightarrow> task_struct"
  pt_regss :: "u64 \<Rightarrow> pt_regs"
  perf_kerns :: "u64 \<Rightarrow> bpf_perf_event_data_kern"
  perf_samples :: "u64 \<Rightarrow> perf_sample_data"

section \<open>The kernel's interface\<close>

text \<open>
  The functions \<open>stub.rs\<close> declares, in its order. A function gets its arguments and the machine
  and returns its result with the machine it leaves; a pointer to a value of the program is the
  value's bytes, returned with the result where the function writes through it. \<open>vprintk\<close> gets
  the bare address of its format string. \<open>iu_landingpad\<close> never returns: its value is the state
  in which the kernel goes on. Of \<open>just_return_func\<close> only the address is used.
\<close>

record 'k stub_functions =
  k_trace_printk :: "u8 list \<Rightarrow> u32 \<Rightarrow> u64 \<Rightarrow> u64 \<Rightarrow> u64 \<Rightarrow> 'k machine_scheme \<Rightarrow> i64 \<times> 'k machine_scheme"
  k_map_lookup_elem :: "u64 \<Rightarrow> u8 list \<Rightarrow> 'k machine_scheme \<Rightarrow> u64 \<times> 'k machine_scheme"
  k_map_update_elem :: "u64 \<Rightarrow> u8 list \<Rightarrow> u8 list \<Rightarrow> u64 \<Rightarrow> 'k machine_scheme \<Rightarrow> i64 \<times> 'k machine_scheme"
  k_map_delete_elem :: "u64 \<Rightarrow> u8 list \<Rightarrow> 'k machine_scheme \<Rightarrow> i64 \<times> 'k machine_scheme"
  k_map_push_elem :: "u64 \<Rightarrow> u8 list \<Rightarrow> u64 \<Rightarrow> 'k machine_scheme \<Rightarrow> i64 \<times> 'k machine_scheme"
  k_map_pop_elem :: "u64 \<Rightarrow> u8 list \<Rightarrow> 'k machine_scheme \<Rightarrow> i64 \<times> u8 list \<times> 'k machine_scheme"
  k_map_peek_elem :: "u64 \<Rightarrow> u8 list \<Rightarrow> 'k machine_scheme \<Rightarrow> i64 \<times> u8 list \<times> 'k machine_scheme"
  k_probe_read_kernel :: "u8 list \<Rightarrow> u32 \<Rightarrow> u64 \<Rightarrow> 'k machine_scheme \<Rightarrow> i64 \<times> u8 list \<times> 'k machine_scheme"
  k_ktime_get_mono_fast_ns :: "'k machine_scheme \<Rightarrow> u64 \<times> 'k machine_scheme"
  k_ktime_get_boot_fast_ns :: "'k machine_scheme \<Rightarrow> u64 \<times> 'k machine_scheme"
  k_get_random_u32 :: "'k machine_scheme \<Rightarrow> u32 \<times> 'k machine_scheme"
  k_snprintf :: "u8 list \<Rightarrow> u32 \<Rightarrow> u8 list \<Rightarrow> u64 list \<Rightarrow> u32 \<Rightarrow> 'k machine_scheme \<Rightarrow> i64 \<times> u8 list \<times> 'k machine_scheme"
  k_vprintk :: "u64 \<Rightarrow> u64 list \<Rightarrow> 'k machine_scheme \<Rightarrow> i32 \<times> 'k machine_scheme"
  k_landingpad :: "u8 list \<Rightarrow> 'k machine_scheme \<Rightarrow> 'k machine_scheme"
  k_spin_lock :: "u64 \<Rightarrow> 'k machine_scheme \<Rightarrow> i64 \<times> 'k machine_scheme"
  k_spin_unlock :: "u64 \<Rightarrow> 'k machine_scheme \<Rightarrow> i64 \<times> 'k machine_scheme"
  sym_just_return_func :: u64
  k_get_stackid_pe :: "u64 \<Rightarrow> u64 \<Rightarrow> u64 \<Rightarrow> 'k machine_scheme \<Rightarrow> i64 \<times> 'k machine_scheme"
  k_perf_prog_read_value :: "u64 \<Rightarrow> u8 list \<Rightarrow> u32 \<Rightarrow> 'k machine_scheme \<Rightarrow> i64 \<times> u8 list \<times> 'k machine_scheme"
  k_xdp_adjust_head :: "u64 \<Rightarrow> i32 \<Rightarrow> 'k machine_scheme \<Rightarrow> i32 \<times> 'k machine_scheme"
  k_xdp_adjust_tail :: "u64 \<Rightarrow> i32 \<Rightarrow> 'k machine_scheme \<Rightarrow> i32 \<times> 'k machine_scheme"
  k_clone_redirect :: "u64 \<Rightarrow> u32 \<Rightarrow> u64 \<Rightarrow> 'k machine_scheme \<Rightarrow> i32 \<times> 'k machine_scheme"
  k_ringbuf_reserve :: "u64 \<Rightarrow> u64 \<Rightarrow> u64 \<Rightarrow> 'k machine_scheme \<Rightarrow> u64 \<times> 'k machine_scheme"
  k_ringbuf_submit :: "u64 \<Rightarrow> u64 \<Rightarrow> 'k machine_scheme \<Rightarrow> 'k machine_scheme"

text \<open>
  The global variables \<open>stub.rs\<close> declares: the address of each symbol, which for a per-CPU
  variable is its offset from the CPU's base; \<open>__per_cpu_offset\<close> is read-only after boot, so it
  is its value.
\<close>

record 'k stub_globals = "'k stub_functions" +
  sym_cpu_number :: u64
  sym_jiffies :: u64
  sym_numa_node :: u64
  per_cpu_offset :: "u64 list"
  sym_iu_cleanup_entries :: u64
  sym_iu_stack_ptr :: u64
  sym_current_task :: u64

text \<open>With the constants and sizes the bindings generate at build time, this is the kernel.\<close>

record 'k kernel = "'k stub_globals" +
  \<comment> \<open>constants of the generated bindings\<close>
  EINVAL :: u32
  XDP_PASS :: u32
  TC_ACT_OK :: u32
  BPF_PROG_TYPE_KPROBE :: u32
  BPF_PROG_TYPE_TRACEPOINT :: u32
  BPF_PROG_TYPE_PERF_EVENT :: u32
  BPF_MAP_TYPE_ARRAY :: u32
  BPF_MAP_TYPE_HASH :: u32
  BPF_MAP_TYPE_RINGBUF :: u32
  BPF_MAP_TYPE_STACK_TRACE :: u32
  CLOCKSOURCE_VALIDATE_LAST_CYCLE :: u32
  \<comment> \<open>sizes and offsets of generated structs\<close>
  sizeof_ethhdr :: nat
  sizeof_iphdr :: nat
  sizeof_tcphdr :: nat
  sizeof_udphdr :: nat
  offsetof_iphdr_check :: nat
  sizeof_perf_event_value :: u32

section \<open>Memory\<close>

definition load_bytes :: "(u64 \<Rightarrow> u8) \<Rightarrow> u64 \<Rightarrow> nat \<Rightarrow> u8 list" where
  "load_bytes m a n = map (\<lambda>i. m (a + of_nat i)) [0..<n]"

text \<open>A little-endian load of a whole number of bytes.\<close>

definition load_le :: "(u64 \<Rightarrow> u8) \<Rightarrow> u64 \<Rightarrow> 'a::len word" where
  "load_le m a = word_of_int (horner_sum uint (2 ^ 8) (load_bytes m a (LENGTH('a) div 8)))"

definition store_bytes :: "(u64 \<Rightarrow> u8) \<Rightarrow> u64 \<Rightarrow> u8 list \<Rightarrow> u64 \<Rightarrow> u8" where
  "store_bytes m a bs x =
     (if unat (x - a) < length bs then bs ! unat (x - a) else m x)"

text \<open>The bytes of a value, lowest first.\<close>

definition word_bytes :: "'a::len word \<Rightarrow> u8 list" where
  "word_bytes w = map (\<lambda>i. ucast (drop_bit (8 * i) w)) [0..<LENGTH('a) div 8]"

lemma length_word_bytes [simp]: "length (word_bytes (w :: 'a::len word)) = LENGTH('a) div 8"
  by (simp add: word_bytes_def)

lemma length_load_bytes [simp]: "length (load_bytes m a n) = n"
  by (simp add: load_bytes_def)

lemma nth_load_bytes [simp]: "i < n \<Longrightarrow> load_bytes m a n ! i = m (a + of_nat i)"
  by (simp add: load_bytes_def)

lemma load_bytes_eq_iff:
  "load_bytes m a n = load_bytes m' a n \<longleftrightarrow> (\<forall>i<n. m (a + of_nat i) = m' (a + of_nat i))"
  by (auto simp: load_bytes_def)

lemma bit_load_le:
  "bit (load_le m a :: 'a::len word) k \<longleftrightarrow>
   k < LENGTH('a) \<and> k div 8 < LENGTH('a) div 8 \<and> bit (m (a + of_nat (k div 8))) (k mod 8)"
  using bit_horner_sum_uint_exp_iff [of "load_bytes m a (LENGTH('a) div 8)" k]
  by (auto simp: load_le_def bit_word_of_int_iff)

text \<open>A 64-bit load is two 32-bit loads.\<close>

lemma load_le_low_half: "ucast (load_le m a :: u64) = (load_le m a :: u32)"
  by (rule bit_word_eqI) (auto simp: bit_ucast_iff bit_load_le)

lemma load_le_high_half: "ucast (drop_bit 32 (load_le m a :: u64)) = (load_le m (a + 4) :: u32)"
proof (rule bit_word_eqI)
  fix k assume k: "k < LENGTH(32)"
  have d: "(32 + k) div 8 = 4 + k div 8" "(32 + k) mod 8 = k mod 8" by presburger+
  then have "a + of_nat ((32 + k) div 8) = a + 4 + (of_nat (k div 8) :: u64)"
    by (simp only: of_nat_add of_nat_numeral add.assoc)
  with k d(2) show "bit (ucast (drop_bit 32 (load_le m a :: u64)) :: u32) k =
      bit (load_le m (a + 4) :: u32) k"
    by (simp only: bit_ucast_iff bit_drop_bit_eq bit_load_le o_def) auto
qed

lemma load_store_same:
  "length bs \<le> 2 ^ 63 \<Longrightarrow> load_bytes (store_bytes m a bs) a (length bs) = bs"
  by (rule nth_equalityI) (auto simp: store_bytes_def unat_of_nat)

lemma store_bytes_outside:
  "length bs \<le> unat (x - a) \<Longrightarrow> store_bytes m a bs x = m x"
  by (simp add: store_bytes_def)

section \<open>read\_once\<close>

text \<open>
  \<open>read_once\<close> is a volatile read through a reference. One definition per implementation of
  the trait \<open>ReadOnce\<close>; a signed integer is the word of its width.
\<close>

definition read_once_u8 :: "'k machine_scheme \<Rightarrow> u64 \<Rightarrow> u8" where
  "read_once_u8 \<sigma> var_addr = load_le (mem \<sigma>) var_addr"

definition read_once_u16 :: "'k machine_scheme \<Rightarrow> u64 \<Rightarrow> u16" where
  "read_once_u16 \<sigma> var_addr = load_le (mem \<sigma>) var_addr"

definition read_once_u32 :: "'k machine_scheme \<Rightarrow> u64 \<Rightarrow> u32" where
  "read_once_u32 \<sigma> var_addr = load_le (mem \<sigma>) var_addr"

definition read_once_u64 :: "'k machine_scheme \<Rightarrow> u64 \<Rightarrow> u64" where
  "read_once_u64 \<sigma> var_addr = load_le (mem \<sigma>) var_addr"

definition read_once_i8 :: "'k machine_scheme \<Rightarrow> u64 \<Rightarrow> i8" where
  "read_once_i8 \<sigma> var_addr = load_le (mem \<sigma>) var_addr"

definition read_once_i16 :: "'k machine_scheme \<Rightarrow> u64 \<Rightarrow> i16" where
  "read_once_i16 \<sigma> var_addr = load_le (mem \<sigma>) var_addr"

definition read_once_i32 :: "'k machine_scheme \<Rightarrow> u64 \<Rightarrow> i32" where
  "read_once_i32 \<sigma> var_addr = load_le (mem \<sigma>) var_addr"

definition read_once_i64 :: "'k machine_scheme \<Rightarrow> u64 \<Rightarrow> i64" where
  "read_once_i64 \<sigma> var_addr = load_le (mem \<sigma>) var_addr"

definition read_once_ptr :: "'k machine_scheme \<Rightarrow> u64 \<Rightarrow> u64" where
  "read_once_ptr \<sigma> var_addr = load_le (mem \<sigma>) var_addr"

definition read_once_mut_ptr :: "'k machine_scheme \<Rightarrow> u64 \<Rightarrow> u64" where
  "read_once_mut_ptr \<sigma> var_addr = load_le (mem \<sigma>) var_addr"

section \<open>Branch hints and barriers\<close>

text \<open>\<open>likely\<close> and \<open>unlikely\<close> call an empty cold function and return their argument.\<close>

definition likely :: "bool \<Rightarrow> bool" where
  "likely b = b"

definition unlikely :: "bool \<Rightarrow> bool" where
  "unlikely b = b"

text \<open>
  \<open>kcsan_atomic_next\<close> has an empty body, and \<open>barrier\<close> only keeps the compiler from moving
  accesses across it: both leave every state as it is, since the model performs accesses in
  program order.
\<close>

definition kcsan_atomic_next :: "u32 \<Rightarrow> 's \<Rightarrow> 's" where
  "kcsan_atomic_next n s = s"

definition barrier :: "'s \<Rightarrow> 's" where
  "barrier s = s"

text \<open>The macro \<open>preempt_disable!\<close>, which is a compiler barrier here, not more.\<close>

definition preempt_disable :: "'s \<Rightarrow> 's" where
  "preempt_disable s = barrier s"

section \<open>Slices of memory\<close>

record slice =
  sl_ptr :: u64
  sl_len :: nat

text \<open>\<open>&s[b..e]\<close> panics unless \<open>b <= e <= len\<close>.\<close>

definition subslice :: "slice \<Rightarrow> nat \<Rightarrow> nat \<Rightarrow> slice res" where
  "subslice s b e =
     (if b \<le> e \<and> e \<le> sl_len s then Ret \<lparr>sl_ptr = sl_ptr s + of_nat b, sl_len = e - b\<rparr>
      else Panic (SliceOutOfBounds (sl_len s) e))"

text \<open>A window of bytes lies inside another one, as offsets from the other's start.\<close>

definition within :: "u64 \<Rightarrow> nat \<Rightarrow> slice \<Rightarrow> bool" where
  "within p n s \<longleftrightarrow> (\<exists>k. p = sl_ptr s + of_nat k \<and> k + n \<le> sl_len s)"

lemma subslice_Ret_iff:
  "subslice s b e = Ret t \<longleftrightarrow>
   b \<le> e \<and> e \<le> sl_len s \<and> t = \<lparr>sl_ptr = sl_ptr s + of_nat b, sl_len = e - b\<rparr>"
  by (auto simp: subslice_def)

lemma within_subslice:
  "subslice s b e = Ret t \<Longrightarrow> n \<le> sl_len t \<Longrightarrow> within (sl_ptr t) n s"
  by (auto simp: subslice_Ret_iff within_def)

text \<open>Writing through a window of a slice changes no byte outside the slice.\<close>

definition outside :: "slice \<Rightarrow> u64 \<Rightarrow> bool" where
  "outside s x \<longleftrightarrow> sl_len s \<le> unat (x - sl_ptr s)"

lemma store_within_frame:
  assumes "within p n s" and "length bs \<le> n" and "outside s x"
  shows "store_bytes m p bs x = m x"
proof -
  from assms(1) obtain k where p: "p = sl_ptr s + of_nat k" and k: "k + n \<le> sl_len s"
    by (auto simp: within_def)
  have le: "k + n \<le> unat (x - sl_ptr s)" using k assms(3) by (simp add: outside_def)
  then have "k < 2 ^ 64" using unsigned_less [of "x - sl_ptr s", where ?'a = nat] by simp
  then have u: "unat (of_nat k :: u64) = k" by (simp add: unat_of_nat)
  have xp: "x - p = x - sl_ptr s - of_nat k" by (simp add: p)
  have "unat (x - sl_ptr s - of_nat k) = unat (x - sl_ptr s) - k"
    using le u by (subst unat_sub) (simp_all add: word_le_nat_alt)
  then have "n \<le> unat (x - p)" unfolding xp using le by linarith
  with assms(2) show ?thesis by (intro store_bytes_outside) simp
qed

section \<open>A concrete kernel\<close>

text \<open>
  An instance of the interface for the witnesses: the constants of the Linux headers, symbol
  addresses and one CPU, and kernel functions that succeed and change nothing. A witness
  overrides the functions it is about.
\<close>

definition demo_kernel :: "'k kernel" where
  "demo_kernel = \<lparr>
     k_trace_printk = (\<lambda>_ _ _ _ _ \<sigma>. (0, \<sigma>)),
     k_map_lookup_elem = (\<lambda>_ _ \<sigma>. (0, \<sigma>)),
     k_map_update_elem = (\<lambda>_ _ _ _ \<sigma>. (0, \<sigma>)),
     k_map_delete_elem = (\<lambda>_ _ \<sigma>. (0, \<sigma>)),
     k_map_push_elem = (\<lambda>_ _ _ \<sigma>. (0, \<sigma>)),
     k_map_pop_elem = (\<lambda>_ v \<sigma>. (0, v, \<sigma>)),
     k_map_peek_elem = (\<lambda>_ v \<sigma>. (0, v, \<sigma>)),
     k_probe_read_kernel = (\<lambda>dst _ p \<sigma>. (0, load_bytes (mem \<sigma>) p (length dst), \<sigma>)),
     k_ktime_get_mono_fast_ns = (\<lambda>\<sigma>. (0, \<sigma>)),
     k_ktime_get_boot_fast_ns = (\<lambda>\<sigma>. (0, \<sigma>)),
     k_get_random_u32 = (\<lambda>\<sigma>. (4, \<sigma>)),
     k_snprintf = (\<lambda>str _ _ _ _ \<sigma>. (0, str, \<sigma>)),
     k_vprintk = (\<lambda>_ _ \<sigma>. (0, \<sigma>)),
     k_landingpad = (\<lambda>_ \<sigma>. \<sigma>),
     k_spin_lock = (\<lambda>_ \<sigma>. (0, \<sigma>)),
     k_spin_unlock = (\<lambda>_ \<sigma>. (0, \<sigma>)),
     sym_just_return_func = 0x3000,
     k_get_stackid_pe = (\<lambda>_ _ _ \<sigma>. (0, \<sigma>)),
     k_perf_prog_read_value = (\<lambda>_ buf _ \<sigma>. (0, buf, \<sigma>)),
     k_xdp_adjust_head = (\<lambda>_ _ \<sigma>. (0, \<sigma>)),
     k_xdp_adjust_tail = (\<lambda>_ _ \<sigma>. (0, \<sigma>)),
     k_clone_redirect = (\<lambda>_ _ _ \<sigma>. (0, \<sigma>)),
     k_ringbuf_reserve = (\<lambda>_ _ _ \<sigma>. (0, \<sigma>)),
     k_ringbuf_submit = (\<lambda>_ _ \<sigma>. \<sigma>),
     sym_cpu_number = 0x100,
     sym_jiffies = 0x2000,
     sym_numa_node = 0x108,
     per_cpu_offset = [0x10000],
     sym_iu_cleanup_entries = 0x200,
     sym_iu_stack_ptr = 0x110,
     sym_current_task = 0x118,
     EINVAL = 22,
     XDP_PASS = 2,
     TC_ACT_OK = 0,
     BPF_PROG_TYPE_KPROBE = 2,
     BPF_PROG_TYPE_TRACEPOINT = 5,
     BPF_PROG_TYPE_PERF_EVENT = 7,
     BPF_MAP_TYPE_ARRAY = 2,
     BPF_MAP_TYPE_HASH = 1,
     BPF_MAP_TYPE_RINGBUF = 27,
     BPF_MAP_TYPE_STACK_TRACE = 7,
     CLOCKSOURCE_VALIDATE_LAST_CYCLE = 1,
     sizeof_ethhdr = 14,
     sizeof_iphdr = 20,
     sizeof_tcphdr = 20,
     sizeof_udphdr = 8,
     offsetof_iphdr_check = 10,
     sizeof_perf_event_value = 24\<rparr>"

definition demo_machine :: machine where
  "demo_machine = \<lparr>
     mem = (\<lambda>_. 0), gs_base = 0x10000,
     xdp_buffs = (\<lambda>_. \<lparr>xb_data = 0, xb_data_end = 0, xb_data_meta = 0, xb_rxq = 0\<rparr>),
     rxq_infos = (\<lambda>_. \<lparr>queue_index = 0\<rparr>),
     sk_buffs = (\<lambda>_. \<lparr>skb_len = 0, skb_data_len = 0, skb_data = 0, skb_protocol = 0,
       skb_priority = 0, skb_hash = 0, skb_queue_mapping = 0, skb_vlan_tci = 0,
       skb_vlan_proto = 0, skb_cb = replicate 48 0, skb_tc_index = 0, skb_sk = 0, skb_dev = 0\<rparr>),
     net_devices = (\<lambda>_. \<lparr>nd_ifindex = 0\<rparr>),
     task_structs = (\<lambda>_. \<lparr>ts_pid = 1, ts_tgid = 1, ts_comm = replicate 16 0, ts_stack = 0\<rparr>),
     pt_regss = (\<lambda>_. \<lparr>r15 = 0, r14 = 0, r13 = 0, r12 = 0, rbp = 0, rbx = 0, r11 = 0, r10 = 0,
       r9 = 0, r8 = 0, rax = 0, rcx = 0, rdx = 0, rsi = 0, rdi = 0, orig_rax = 0, rip = 0,
       cs = 0, eflags = 0, rsp = 0, ss = 0\<rparr>),
     perf_kerns = (\<lambda>_. \<lparr>bpe_regs = 0, bpe_data = 0, bpe_event = 0\<rparr>),
     perf_samples = (\<lambda>_. \<lparr>psd_addr = 0, psd_period = 0\<rparr>)\<rparr>"

lemma demo_kernel_sel [simp]:
  "EINVAL demo_kernel = 22" "XDP_PASS demo_kernel = 2" "TC_ACT_OK demo_kernel = 0"
  "sizeof_ethhdr demo_kernel = 14" "sizeof_iphdr demo_kernel = 20"
  "sizeof_tcphdr demo_kernel = 20" "sizeof_udphdr demo_kernel = 8"
  "offsetof_iphdr_check demo_kernel = 10"
  "BPF_PROG_TYPE_KPROBE demo_kernel = 2" "BPF_PROG_TYPE_TRACEPOINT demo_kernel = 5"
  "BPF_PROG_TYPE_PERF_EVENT demo_kernel = 7"
  "CLOCKSOURCE_VALIDATE_LAST_CYCLE demo_kernel = 1" "sizeof_perf_event_value demo_kernel = 24"
  "sym_cpu_number demo_kernel = 0x100" "sym_numa_node demo_kernel = 0x108"
  "per_cpu_offset demo_kernel = [0x10000]" "sym_iu_cleanup_entries demo_kernel = 0x200"
  "sym_iu_stack_ptr demo_kernel = 0x110" "sym_current_task demo_kernel = 0x118"
  "sym_just_return_func demo_kernel = 0x3000"
  by (simp_all add: demo_kernel_def)

lemma demo_machine_sel [simp]: 
  "mem demo_machine = (\<lambda>_. 0)" "gs_base demo_machine = 0x10000"
  "xdp_buffs demo_machine = (\<lambda>_. \<lparr>xb_data = 0, xb_data_end = 0, xb_data_meta = 0, xb_rxq = 0\<rparr>)"
  "skb_len (sk_buffs demo_machine b) = 0" "skb_data_len (sk_buffs demo_machine b) = 0"
  "skb_data (sk_buffs demo_machine b) = 0" "skb_dev (sk_buffs demo_machine b) = 0"
  "perf_kerns demo_machine = (\<lambda>_. \<lparr>bpe_regs = 0, bpe_data = 0, bpe_event = 0\<rparr>)"
  "perf_samples demo_machine = (\<lambda>_. \<lparr>psd_addr = 0, psd_period = 0\<rparr>)"
  by (simp_all add: demo_machine_def)

lemma load_le_zero [simp]: "load_le (\<lambda>_. 0) a = 0"
  by (rule bit_word_eqI) (simp add: bit_load_le)

end
