(* ===== verification/Layout.thy ===== *)
theory Layout
  imports Machine
begin

text \<open>
  The C layout that \<open>#[repr(C)]\<close>, \<open>#[repr(C, packed)]\<close> and \<open>#[repr(align(n))]\<close> ask for: size
  and alignment of a type, and the offset of every field. The bindings rely on it, since the
  kernel's C code and the crate look at the same memory. The laws that make a layout usable
  are proved once here: fields are aligned, disjoint, in order, and inside the type.
\<close>

section \<open>Types, sizes, alignments\<close>

text \<open>
  An integer is its number of bytes. A zero-sized marker is an array of length 0; a packed
  struct puts every field at the next byte.
\<close>

datatype cty =
    CInt nat
  | CPtr
  | CArr cty nat
  | CStruct "(string \<times> cty) list"
  | CPacked "(string \<times> cty) list"
  | CUnion "(string \<times> cty) list"
  | CAligned nat cty

definition align_up :: "nat \<Rightarrow> nat \<Rightarrow> nat" where
  "align_up a n = (n + a - 1) div a * a"

fun align_of :: "cty \<Rightarrow> nat" and fields_align :: "(string \<times> cty) list \<Rightarrow> nat" where
  "align_of (CInt n) = n"
| "align_of CPtr = 8"
| "align_of (CArr t n) = align_of t"
| "align_of (CStruct fs) = fields_align fs"
| "align_of (CPacked fs) = 1"
| "align_of (CUnion fs) = fields_align fs"
| "align_of (CAligned n t) = max n (align_of t)"
| "fields_align [] = 1"
| "fields_align ((nm, t) # fs) = max (align_of t) (fields_align fs)"

fun size_of :: "cty \<Rightarrow> nat" and struct_end :: "nat \<Rightarrow> (string \<times> cty) list \<Rightarrow> nat"
  and packed_end :: "nat \<Rightarrow> (string \<times> cty) list \<Rightarrow> nat" and union_end :: "(string \<times> cty) list \<Rightarrow> nat" where
  "size_of (CInt n) = n"
| "size_of CPtr = 8"
| "size_of (CArr t n) = n * size_of t"
| "size_of (CStruct fs) = align_up (fields_align fs) (struct_end 0 fs)"
| "size_of (CPacked fs) = packed_end 0 fs"
| "size_of (CUnion fs) = align_up (fields_align fs) (union_end fs)"
| "size_of (CAligned n t) = align_up (max n (align_of t)) (size_of t)"
| "struct_end off [] = off"
| "struct_end off ((nm, t) # fs) = struct_end (align_up (align_of t) off + size_of t) fs"
| "packed_end off [] = off"
| "packed_end off ((nm, t) # fs) = packed_end (off + size_of t) fs"
| "union_end [] = 0"
| "union_end ((nm, t) # fs) = max (size_of t) (union_end fs)"

text \<open>The fields of a struct with their offsets.\<close>

fun struct_offsets :: "nat \<Rightarrow> (string \<times> cty) list \<Rightarrow> (string \<times> nat \<times> cty) list" where
  "struct_offsets off [] = []"
| "struct_offsets off ((nm, t) # fs) =
     (nm, align_up (align_of t) off, t) # struct_offsets (align_up (align_of t) off + size_of t) fs"

fun packed_offsets :: "nat \<Rightarrow> (string \<times> cty) list \<Rightarrow> (string \<times> nat \<times> cty) list" where
  "packed_offsets off [] = []"
| "packed_offsets off ((nm, t) # fs) = (nm, off, t) # packed_offsets (off + size_of t) fs"

fun field_offsets :: "cty \<Rightarrow> (string \<times> nat \<times> cty) list" where
  "field_offsets (CStruct fs) = struct_offsets 0 fs"
| "field_offsets (CPacked fs) = packed_offsets 0 fs"
| "field_offsets (CUnion fs) = map (\<lambda>(nm, t). (nm, 0, t)) fs"
| "field_offsets (CAligned n t) = field_offsets t"
| "field_offsets _ = []"

definition offset_of :: "cty \<Rightarrow> string \<Rightarrow> nat option" where
  "offset_of t nm = map_option fst (map_of (field_offsets t) nm)"

text \<open>Every alignment that occurs is a power of two.\<close>

definition pow2 :: "nat \<Rightarrow> bool" where
  "pow2 n \<longleftrightarrow> n \<in> {1, 2, 4, 8, 16, 32, 64}"

fun wf_cty :: "cty \<Rightarrow> bool" and wf_fields :: "(string \<times> cty) list \<Rightarrow> bool" where
  "wf_cty (CInt n) = pow2 n"
| "wf_cty CPtr = True"
| "wf_cty (CArr t n) = wf_cty t"
| "wf_cty (CStruct fs) = wf_fields fs"
| "wf_cty (CPacked fs) = wf_fields fs"
| "wf_cty (CUnion fs) = wf_fields fs"
| "wf_cty (CAligned n t) = (pow2 n \<and> wf_cty t)"
| "wf_fields [] = True"
| "wf_fields ((nm, t) # fs) = (wf_cty t \<and> wf_fields fs)"

section \<open>Lemmas\<close>

lemma align_up_ge: "0 < a \<Longrightarrow> n \<le> align_up a n"
proof -
  assume a: "0 < a"
  have "n + a - 1 = (n + a - 1) div a * a + (n + a - 1) mod a" by simp
  moreover have "(n + a - 1) mod a \<le> a - 1" using mod_less_divisor [OF a, of "n + a - 1"] by linarith
  ultimately show ?thesis unfolding align_up_def using a by linarith
qed

lemma align_up_dvd [simp]: "a dvd align_up a n"
  by (simp add: align_up_def)

lemma pow2_pos: "pow2 n \<Longrightarrow> 0 < n"
  by (auto simp: pow2_def)

lemma pow2_dvd: "pow2 a \<Longrightarrow> pow2 b \<Longrightarrow> a \<le> b \<Longrightarrow> a dvd b"
  by (auto simp: pow2_def)

lemma pow2_max: "pow2 a \<Longrightarrow> pow2 b \<Longrightarrow> pow2 (max a b)"
  by (simp add: max_def)

lemma pow2_align:
  "wf_cty t \<Longrightarrow> pow2 (align_of t)"
  "wf_fields fs \<Longrightarrow> pow2 (fields_align fs)"
  by (induction t and fs rule: align_of_fields_align.induct) (auto intro: pow2_max simp: pow2_def)

lemma fields_align_dvd:
  "wf_fields fs \<Longrightarrow> (nm, t) \<in> set fs \<Longrightarrow> align_of t dvd fields_align fs"
proof (induction fs)
  case (Cons f fs)
  obtain nm' t' where f: "f = (nm', t')" by (cases f)
  note p = pow2_align(1) [of t'] pow2_align(2) [of fs]
  from Cons.prems f have wf: "wf_cty t'" "wf_fields fs" by simp_all
  have "align_of t' dvd max (align_of t') (fields_align fs)"
    and "fields_align fs dvd max (align_of t') (fields_align fs)"
    using p wf by (auto intro!: pow2_dvd pow2_max)
  with Cons f wf show ?case by (auto intro: dvd_trans)
qed simp

text \<open>What a field of a struct may rely on, and that the next field starts behind it.\<close>

definition laid_out :: "nat \<Rightarrow> nat \<Rightarrow> (string \<times> nat \<times> cty) list \<Rightarrow> bool" where
  "laid_out lo hi os \<longleftrightarrow>
     (\<forall>(nm, off, t)\<in>set os. lo \<le> off \<and> off + size_of t \<le> hi) \<and>
     sorted_wrt (\<lambda>(_, o1, t1) (_, o2, t2). o1 + size_of t1 \<le> o2) os"

lemma struct_end_ge: "wf_fields fs \<Longrightarrow> off \<le> struct_end off fs"
proof (induction fs arbitrary: off)
  case (Cons f fs)
  obtain nm t where f: "f = (nm, t)" by (cases f)
  have "off \<le> align_up (align_of t) off"
    using Cons.prems f pow2_align(1) [of t] by (simp add: align_up_ge pow2_pos)
  with Cons f show ?case by (auto intro: order_trans [OF _ Cons.IH])
qed simp

lemma laid_out_Cons:
  assumes "lo \<le> off" and "laid_out (off + size_of t) hi os" and "off + size_of t \<le> hi"
  shows "laid_out lo hi ((nm, off, t) # os)"
  using assms unfolding laid_out_def by (fastforce split: prod.splits)

lemma struct_laid_out:
  "wf_fields fs \<Longrightarrow> laid_out off (struct_end off fs) (struct_offsets off fs)"
proof (induction fs arbitrary: off)
  case (Cons f fs)
  obtain nm t where f: "f = (nm, t)" by (cases f)
  from Cons.prems f have wf: "wf_cty t" "wf_fields fs" by simp_all
  let ?o = "align_up (align_of t) off"
  have "off \<le> ?o" using wf pow2_align(1) [of t] by (simp add: align_up_ge pow2_pos)
  moreover have "?o + size_of t \<le> struct_end (?o + size_of t) fs" using wf(2) by (rule struct_end_ge)
  ultimately show ?case using Cons.IH [OF wf(2), of "?o + size_of t"] f
    by (auto intro: laid_out_Cons)
qed (simp add: laid_out_def)

lemma struct_offsets_aligned:
  "(nm, off, t) \<in> set (struct_offsets start fs) \<Longrightarrow> align_of t dvd off \<and> (nm, t) \<in> set fs"
  by (induction start fs rule: struct_offsets.induct) auto

text \<open>The law of a \<open>repr(C)\<close> struct.\<close>

lemma struct_layout:
  assumes "wf_cty (CStruct fs)"
  shows "laid_out 0 (size_of (CStruct fs)) (field_offsets (CStruct fs))"
    and "(nm, off, t) \<in> set (field_offsets (CStruct fs)) \<Longrightarrow>
         align_of t dvd off \<and> align_of t dvd align_of (CStruct fs)"
    and "align_of (CStruct fs) dvd size_of (CStruct fs)"
proof -
  from assms have wf: "wf_fields fs" by simp
  have "struct_end 0 fs \<le> size_of (CStruct fs)"
    using wf pow2_align(2) [of fs] by (simp add: align_up_ge pow2_pos)
  with struct_laid_out [OF wf, of 0] show "laid_out 0 (size_of (CStruct fs)) (field_offsets (CStruct fs))"
    unfolding laid_out_def by fastforce
  show "align_of t dvd off \<and> align_of t dvd align_of (CStruct fs)"
    if "(nm, off, t) \<in> set (field_offsets (CStruct fs))"
    using that struct_offsets_aligned [of nm off t 0 fs] fields_align_dvd [OF wf] by auto
qed simp

text \<open>An object of the type at an aligned address that does not wrap has aligned fields.\<close>

definition object_at :: "cty \<Rightarrow> u64 \<Rightarrow> bool" where
  "object_at t p \<longleftrightarrow> align_of t dvd unat p \<and> unat p + size_of t \<le> 2 ^ 64"

lemma unat_add_small: "unat (p :: u64) + n < 2 ^ 64 \<Longrightarrow> unat (p + of_nat n) = unat p + n"
  by (simp add: unat_word_ariths unat_of_nat)

lemma struct_field_object:
  assumes "wf_cty (CStruct fs)" and "object_at (CStruct fs) p" and "0 < size_of t"
    and f: "(nm, off, t) \<in> set (field_offsets (CStruct fs))"
  shows "object_at t (p + of_nat off) \<and> unat (p + of_nat off) = unat p + off"
proof -
  have b: "off + size_of t \<le> size_of (CStruct fs)"
    using struct_layout(1) [OF assms(1)] f unfolding laid_out_def by fastforce
  with assms(2,3) have "unat p + off < 2 ^ 64" by (simp add: object_at_def)
  then have u: "unat (p + of_nat off) = unat p + off" by (rule unat_add_small)
  have "align_of t dvd unat p + off"
    using struct_layout(2) [OF assms(1) f] assms(2) unfolding object_at_def
    by (meson dvd_add dvd_trans)
  with b assms(2) u show ?thesis by (simp add: object_at_def)
qed

end
