(* ===== verification/Perf_Types.thy ===== *)
theory Perf_Types
  imports Layout Perf_Bitfields
begin

unbundle bit_operations_syntax

text \<open>
  The structs of \<open>perf_event/binding.rs\<close> as they lie in memory: the layout of each of them, in
  the order of the file, the views of its unions, the flexible arrays at the end of two of
  them, and what the crate reads of them at an address.
\<close>

section \<open>Integers of the bindings\<close>

definition u16_ty :: cty where "u16_ty = CInt 2"
definition u32_ty :: cty where "u32_ty = CInt 4"
definition u64_ty :: cty where "u64_ty = CInt 8"

section \<open>Bitfield units and flexible arrays\<close>

definition BindgenBitfieldUnit :: "nat \<Rightarrow> cty" where
  "BindgenBitfieldUnit n = CStruct [(''storage'', CArr (CInt 1) n)]"

text \<open>A marker of size 0 and an array of length 0.\<close>

definition IncompleteArrayField :: "cty \<Rightarrow> cty" where
  "IncompleteArrayField t = CStruct [(''0'', CStruct []), (''1'', CArr t 0)]"

text \<open>The bytes of a new one, of which there are none, and what its \<open>Debug\<close> writes.\<close>

definition iaf_new :: "u8 list" where
  "iaf_new = []"

definition iaf_fmt :: "string \<Rightarrow> string" where
  "iaf_fmt fmt = fmt @ ''__IncompleteArrayField''"

definition iaf_as_ptr :: "u64 \<Rightarrow> u64" where
  "iaf_as_ptr self = self"

definition iaf_as_mut_ptr :: "u64 \<Rightarrow> u64" where
  "iaf_as_mut_ptr self = self"

text \<open>A slice of \<open>len\<close> elements of type \<open>t\<close>; \<open>sl_len\<close> counts bytes.\<close>

definition iaf_as_slice :: "cty \<Rightarrow> u64 \<Rightarrow> nat \<Rightarrow> slice" where
  "iaf_as_slice t self len = \<lparr>sl_ptr = iaf_as_ptr self, sl_len = len * size_of t\<rparr>"

definition iaf_as_mut_slice :: "cty \<Rightarrow> u64 \<Rightarrow> nat \<Rightarrow> slice" where
  "iaf_as_mut_slice t self len = \<lparr>sl_ptr = iaf_as_mut_ptr self, sl_len = len * size_of t\<rparr>"

section \<open>Registers\<close>

definition pe_pt_regs :: cty where
  "pe_pt_regs = CStruct
     [(''r15'', u64_ty), (''r14'', u64_ty), (''r13'', u64_ty), (''r12'', u64_ty),
      (''rbp'', u64_ty), (''rbx'', u64_ty), (''r11'', u64_ty), (''r10'', u64_ty),
      (''r9'', u64_ty), (''r8'', u64_ty), (''rax'', u64_ty), (''rcx'', u64_ty),
      (''rdx'', u64_ty), (''rsi'', u64_ty), (''rdi'', u64_ty), (''orig_rax'', u64_ty),
      (''rip'', u64_ty), (''cs'', u64_ty), (''eflags'', u64_ty), (''rsp'', u64_ty),
      (''ss'', u64_ty)]"

text \<open>
  The accessor of a register loads the field of its name; a name that is not a field has no
  accessor.
\<close>

definition pe_reg_accessor :: "string \<Rightarrow> (u64 \<Rightarrow> u8) \<Rightarrow> u64 \<Rightarrow> u64 option" where
  "pe_reg_accessor t m self =
     map_option (\<lambda>off. load_le m (self + of_nat off)) (offset_of pe_pt_regs t)"

section \<open>Raw records\<close>

definition perf_copy_f :: cty where "perf_copy_f = CPtr"

definition perf_raw_frag_bindgen_ty_1 :: cty where
  "perf_raw_frag_bindgen_ty_1 = CUnion [(''next'', CPtr), (''pad'', u64_ty)]"

definition perf_raw_frag :: cty where
  "perf_raw_frag = CPacked
     [(''__bindgen_anon_1'', perf_raw_frag_bindgen_ty_1), (''copy'', perf_copy_f),
      (''data'', CPtr), (''size'', u32_ty)]"

definition perf_raw_record :: cty where
  "perf_raw_record = CStruct [(''frag'', perf_raw_frag), (''size'', u32_ty)]"

section \<open>Branch stacks\<close>

definition perf_branch_entry_ty :: cty where
  "perf_branch_entry_ty = CStruct
     [(''from'', u64_ty), (''to'', u64_ty), (''_bitfield_align_1'', CArr u64_ty 0),
      (''_bitfield_1'', BindgenBitfieldUnit 8)]"

definition perf_branch_stack :: cty where
  "perf_branch_stack = CStruct
     [(''nr'', u64_ty), (''hw_idx'', u64_ty),
      (''entries'', IncompleteArrayField perf_branch_entry_ty)]"

section \<open>Unions\<close>

text \<open>
  A union is its bytes; a view of it reads some of them. The target is little-endian, as the
  kernel's x86 assembly in the crate requires.
\<close>

definition perf_sample_weight_bindgen_ty_1 :: cty where
  "perf_sample_weight_bindgen_ty_1 =
     CStruct [(''var1_dw'', u32_ty), (''var2_w'', u16_ty), (''var3_w'', u16_ty)]"

definition perf_sample_weight :: cty where
  "perf_sample_weight =
     CUnion [(''full'', u64_ty), (''__bindgen_anon_1'', perf_sample_weight_bindgen_ty_1)]"

definition perf_mem_data_src_bindgen_ty_1 :: cty where
  "perf_mem_data_src_bindgen_ty_1 = CAligned 8 (CStruct
     [(''_bitfield_align_1'', CArr u32_ty 0), (''_bitfield_1'', BindgenBitfieldUnit 8)])"

definition perf_mem_data_src_union :: cty where
  "perf_mem_data_src_union =
     CUnion [(''val'', u64_ty), (''__bindgen_anon_1'', perf_mem_data_src_bindgen_ty_1)]"

text \<open>The union \<open>perf_mem_data_src\<close> written through \<open>val\<close>, and its \<open>val\<close> when written as a bitfield.\<close>

definition mem_data_src_of_val :: "u64 \<Rightarrow> perf_mem_data_src" where
  "mem_data_src_of_val v = \<lparr>pmds_bitfield_1 = word_bytes v\<rparr>"

definition mem_data_src_val :: "perf_mem_data_src \<Rightarrow> u64" where
  "mem_data_src_val d = le_word (pmds_bitfield_1 d)"

section \<open>Samples\<close>

definition perf_callchain_entry :: cty where
  "perf_callchain_entry = CStruct [(''nr'', u64_ty), (''ip'', IncompleteArrayField u64_ty)]"

definition perf_regs :: cty where
  "perf_regs = CStruct [(''abi'', u64_ty), (''regs'', CPtr)]"

definition perf_sample_data_bindgen_ty_1 :: cty where
  "perf_sample_data_bindgen_ty_1 = CStruct [(''pid'', u32_ty), (''tid'', u32_ty)]"

definition perf_sample_data_bindgen_ty_2 :: cty where
  "perf_sample_data_bindgen_ty_2 = CStruct [(''cpu'', u32_ty), (''reserved'', u32_ty)]"

definition perf_sample_data_fields :: "(string \<times> cty) list" where
  "perf_sample_data_fields =
     [(''addr'', u64_ty), (''raw'', CPtr), (''br_stack'', CPtr), (''period'', u64_ty),
      (''weight'', perf_sample_weight), (''txn'', u64_ty),
      (''data_src'', perf_mem_data_src_union), (''type_'', u64_ty), (''ip'', u64_ty),
      (''tid_entry'', perf_sample_data_bindgen_ty_1), (''time'', u64_ty), (''id'', u64_ty),
      (''stream_id'', u64_ty), (''cpu_entry'', perf_sample_data_bindgen_ty_2),
      (''callchain'', CPtr), (''aux_size'', u64_ty), (''regs_user'', perf_regs),
      (''regs_intr'', perf_regs), (''stack_user_size'', u64_ty), (''phys_addr'', u64_ty),
      (''cgroup'', u64_ty), (''data_page_size'', u64_ty), (''code_page_size'', u64_ty),
      (''_bitfield_align_1'', CArr (CInt 1) 0), (''_bitfield_1'', BindgenBitfieldUnit 56)]"

definition perf_sample_data_ty :: cty where
  "perf_sample_data_ty = CStruct perf_sample_data_fields"

definition bpf_perf_event_data_kern_ty :: cty where
  "bpf_perf_event_data_kern_ty = CStruct [(''regs'', CPtr), (''data'', CPtr), (''event'', CPtr)]"

lemmas int_tys = u16_ty_def u32_ty_def u64_ty_def
lemmas struct_tys = BindgenBitfieldUnit_def IncompleteArrayField_def pe_pt_regs_def
  perf_copy_f_def perf_raw_frag_bindgen_ty_1_def perf_raw_frag_def perf_raw_record_def
  perf_branch_entry_ty_def perf_branch_stack_def perf_sample_weight_bindgen_ty_1_def
  perf_sample_weight_def perf_mem_data_src_bindgen_ty_1_def perf_mem_data_src_union_def
  perf_callchain_entry_def perf_regs_def perf_sample_data_bindgen_ty_1_def
  perf_sample_data_bindgen_ty_2_def perf_sample_data_fields_def perf_sample_data_ty_def
  bpf_perf_event_data_kern_ty_def
lemmas layout_eval = int_tys struct_tys align_up_def offset_of_def pow2_def

section \<open>Sizes\<close>

lemma binding_sizes:
  "size_of pe_pt_regs = 168" "size_of perf_raw_frag = 28" "size_of perf_raw_record = 32"
  "size_of perf_branch_entry_ty = 24" "size_of perf_branch_stack = 16"
  "size_of perf_sample_weight = 8" "size_of perf_mem_data_src_union = 8"
  "size_of perf_callchain_entry = 8" "size_of perf_regs = 16"
  "size_of perf_sample_data_ty = 256" "size_of bpf_perf_event_data_kern_ty = 24"
  by (simp_all add: layout_eval)

section \<open>Lemmas\<close>

lemma laid_out_disjoint:
  assumes "laid_out lo hi os" and "(nm, o1, t1) \<in> set os" and "(nm', o2, t2) \<in> set os" and "nm \<noteq> nm'"
  shows "o1 + size_of t1 \<le> o2 \<or> o2 + size_of t2 \<le> o1"
proof -
  from assms(2,3) obtain i j where i: "i < length os" "os ! i = (nm, o1, t1)"
    and j: "j < length os" "os ! j = (nm', o2, t2)"
    by (auto simp: in_set_conv_nth)
  with assms(4) have "i \<noteq> j" by auto
  then have "i < j \<or> j < i" by arith
  with assms(1) i j show ?thesis
    unfolding laid_out_def by (auto dest: sorted_wrt_nth_less)
qed

text \<open>
  The \<open>repr(C)\<close> structs of the file, with the byte offset of every field and the size: 21
  registers of 8 bytes, a sample of four cache lines of 64, and so on.
\<close>

definition binding_table :: "(cty \<times> (string \<times> nat) list \<times> nat) list" where
  "binding_table =
     [(pe_pt_regs, zip [''r15'', ''r14'', ''r13'', ''r12'', ''rbp'', ''rbx'', ''r11'', ''r10'', ''r9'', ''r8'',
         ''rax'', ''rcx'', ''rdx'', ''rsi'', ''rdi'', ''orig_rax'', ''rip'', ''cs'', ''eflags'', ''rsp'', ''ss'']
         (map ((*) 8) [0..<21]), 21 * 8),
      (perf_raw_record, [(''frag'', 0), (''size'', 28)], 32),
      (perf_branch_entry_ty, [(''from'', 0), (''to'', 8), (''_bitfield_align_1'', 16), (''_bitfield_1'', 16)], 24),
      (perf_branch_stack, [(''nr'', 0), (''hw_idx'', 8), (''entries'', 16)], 16),
      (perf_sample_weight_bindgen_ty_1, [(''var1_dw'', 0), (''var2_w'', 4), (''var3_w'', 6)], 8),
      (perf_callchain_entry, [(''nr'', 0), (''ip'', 8)], 8),
      (perf_regs, [(''abi'', 0), (''regs'', 8)], 16),
      (perf_sample_data_ty,
         [(''addr'', 0), (''raw'', 8), (''br_stack'', 16), (''period'', 24), (''weight'', 32), (''txn'', 40),
          (''data_src'', 48), (''type_'', 56), (''ip'', 64), (''tid_entry'', 72), (''time'', 80), (''id'', 88),
          (''stream_id'', 96), (''cpu_entry'', 104), (''callchain'', 112), (''aux_size'', 120),
          (''regs_user'', 128), (''regs_intr'', 144), (''stack_user_size'', 160), (''phys_addr'', 168),
          (''cgroup'', 176), (''data_page_size'', 184), (''code_page_size'', 192),
          (''_bitfield_align_1'', 200), (''_bitfield_1'', 200)], 4 * 64),
      (perf_sample_data_bindgen_ty_1, [(''pid'', 0), (''tid'', 4)], 8),
      (perf_sample_data_bindgen_ty_2, [(''cpu'', 0), (''reserved'', 4)], 8),
      (bpf_perf_event_data_kern_ty, [(''regs'', 0), (''data'', 8), (''event'', 16)], 24)]"

lemma binding_table_wf: "(st, os, sz) \<in> set binding_table \<Longrightarrow> wf_cty st \<and> (\<exists>fs. st = CStruct fs)"
  by (auto simp: binding_table_def layout_eval)

lemma binding_table_offsets:
  "(st, os, sz) \<in> set binding_table \<Longrightarrow>
   map (\<lambda>(nm, off, t). (nm, off)) (field_offsets st) = os \<and> size_of st = sz"
  by (auto simp: binding_table_def layout_eval upt_rec)

lemma binding_table_names: "(st, os, sz) \<in> set binding_table \<Longrightarrow> distinct (map fst os)"
  by (auto simp: binding_table_def upt_rec)

lemma map_of_offsets: "map_of (map (\<lambda>(nm, off, t). (nm, off)) fos) nm = map_option fst (map_of fos nm)"
  by (induction fos) auto

lemma binding_offset_of:
  assumes "(st, os, sz) \<in> set binding_table" and "(nm, off) \<in> set os"
  shows "offset_of st nm = Some off"
proof -
  have "offset_of st nm = map_of os nm"
    using binding_table_offsets [OF assms(1)] map_of_offsets [of "field_offsets st" nm] by (simp add: offset_of_def)
  also have "\<dots> = Some off" using binding_table_names [OF assms(1)] assms(2) by (rule map_of_is_SomeI)
  finally show ?thesis .
qed

lemma bit_word_bytes: "i < 8 \<Longrightarrow> j < 8 \<Longrightarrow> bit (word_bytes (v :: u64) ! i) j \<longleftrightarrow> bit v (8 * i + j)"
  by (simp add: word_bytes_def bit_ucast_iff bit_drop_bit_eq)

lemma le_word_word_bytes [simp]: "le_word (word_bytes v) = v"
proof (rule bit_word_eqI)
  fix k assume k: "k < LENGTH(64)"
  then have "k div 8 < 8" by simp
  with k show "bit (le_word (word_bytes v)) k = bit v k"
    by (simp add: bit_le_word bit_word_bytes)
qed

lemma memsrc_get_val:
  assumes "\<not> big_endian cfg" and "length (pmds_bitfield_1 d) = 8"
  shows "memsrc_get f cfg d = Ret (take_bit (memsrc_width f) (drop_bit (memsrc_off f) (mem_data_src_val d)))"
  using assms memsrc.layout_ok [of d f]
  by (simp add: memsrc_get_layout memsrc.layout_get_eq field_val_le_word mem_data_src_val_def)

lemma memsrc_put_val:
  assumes "\<not> big_endian cfg" and "length (pmds_bitfield_1 d) = 8"
  shows "\<exists>d'. memsrc_put f cfg d v = Ret d' \<and> length (pmds_bitfield_1 d') = 8 \<and>
    mem_data_src_val d' =
      (mem_data_src_val d AND NOT (push_bit (memsrc_off f) (mask (memsrc_width f)))) OR
      push_bit (memsrc_off f) (take_bit (memsrc_width f) v)"
  using assms memsrc.layout_ok [of d f]
  by (simp add: memsrc_put_layout memsrc.layout_put_eq le_word_put_field mem_data_src_val_def)

lemma push_drop_split:
  assumes "b = a + w"
  shows "push_bit a (drop_bit a x) =
    push_bit a (take_bit w (drop_bit a x)) OR push_bit b (drop_bit b (x :: u64))"
proof (rule bit_word_eqI)
  fix n assume "n < LENGTH(64)"
  with assms show "bit (push_bit a (drop_bit a x)) n \<longleftrightarrow>
      bit (push_bit a (take_bit w (drop_bit a x)) OR push_bit b (drop_bit b x)) n"
    by (cases "n < b") (auto simp: bit_or_iff bit_push_bit_iff bit_take_bit_iff bit_drop_bit_eq)
qed

text \<open>A number is the union of the ten fields of a data source.\<close>

lemma mem_fields_split:
  "x = take_bit 5 x OR push_bit 5 (take_bit 14 (drop_bit 5 x)) OR
    push_bit 19 (take_bit 5 (drop_bit 19 x)) OR push_bit 24 (take_bit 2 (drop_bit 24 x)) OR
    push_bit 26 (take_bit 7 (drop_bit 26 x)) OR push_bit 33 (take_bit 4 (drop_bit 33 x)) OR
    push_bit 37 (take_bit 1 (drop_bit 37 x)) OR push_bit 38 (take_bit 2 (drop_bit 38 x)) OR
    push_bit 40 (take_bit 3 (drop_bit 40 x)) OR push_bit 43 (take_bit 21 (drop_bit 43 (x :: u64)))"
proof -
  have "x = take_bit 5 x OR push_bit 5 (drop_bit 5 x)"
    using push_drop_split [of 5 0 5 x] by simp
  moreover have
    "push_bit 5 (drop_bit 5 x) = push_bit 5 (take_bit 14 (drop_bit 5 x)) OR push_bit 19 (drop_bit 19 x)"
    "push_bit 19 (drop_bit 19 x) = push_bit 19 (take_bit 5 (drop_bit 19 x)) OR push_bit 24 (drop_bit 24 x)"
    "push_bit 24 (drop_bit 24 x) = push_bit 24 (take_bit 2 (drop_bit 24 x)) OR push_bit 26 (drop_bit 26 x)"
    "push_bit 26 (drop_bit 26 x) = push_bit 26 (take_bit 7 (drop_bit 26 x)) OR push_bit 33 (drop_bit 33 x)"
    "push_bit 33 (drop_bit 33 x) = push_bit 33 (take_bit 4 (drop_bit 33 x)) OR push_bit 37 (drop_bit 37 x)"
    "push_bit 37 (drop_bit 37 x) = push_bit 37 (take_bit 1 (drop_bit 37 x)) OR push_bit 38 (drop_bit 38 x)"
    "push_bit 38 (drop_bit 38 x) = push_bit 38 (take_bit 2 (drop_bit 38 x)) OR push_bit 40 (drop_bit 40 x)"
    "push_bit 40 (drop_bit 40 x) = push_bit 40 (take_bit 3 (drop_bit 40 x)) OR push_bit 43 (drop_bit 43 x)"
    by (rule push_drop_split, simp)+
  moreover have "push_bit 43 (drop_bit 43 x) = push_bit 43 (take_bit 21 (drop_bit 43 x))"
    by (rule bit_word_eqI) (auto simp: bit_push_bit_iff bit_take_bit_iff bit_drop_bit_eq)
  ultimately show ?thesis by metis
qed

lemma mem_new_val:
  assumes "\<not> big_endian cfg"
  shows "\<exists>u. mem_new_bitfield_1 cfg v_op v_lvl v_snoop v_lock v_dtlb v_lvl_num v_remote v_snoopx v_blk v_rsvd
      = Ret u \<and>
    mem_data_src_val \<lparr>pmds_bitfield_1 = u\<rparr> =
      take_bit 5 v_op OR push_bit 5 (take_bit 14 v_lvl) OR push_bit 19 (take_bit 5 v_snoop) OR
      push_bit 24 (take_bit 2 v_lock) OR push_bit 26 (take_bit 7 v_dtlb) OR
      push_bit 33 (take_bit 4 v_lvl_num) OR push_bit 37 (take_bit 1 v_remote) OR
      push_bit 38 (take_bit 2 v_snoopx) OR push_bit 40 (take_bit 3 v_blk) OR
      push_bit 43 (take_bit 21 v_rsvd)"
proof -
  obtain u where u: "mem_new_bitfield_1 cfg v_op v_lvl v_snoop v_lock v_dtlb v_lvl_num v_remote
      v_snoopx v_blk v_rsvd = Ret u" and l: "length u = 8"
    and get: "\<forall>(f, v)\<in>set [(M_op, v_op), (M_lvl, v_lvl), (M_snoop, v_snoop), (M_lock, v_lock),
        (M_dtlb, v_dtlb), (M_lvl_num, v_lvl_num), (M_remote, v_remote), (M_snoopx, v_snoopx),
        (M_blk, v_blk), (M_rsvd, v_rsvd)].
        memsrc_get f cfg \<lparr>pmds_bitfield_1 = u\<rparr> = Ret (take_bit (memsrc_width f) v)"
    using mem_new_get [of cfg v_op v_lvl v_snoop v_lock v_dtlb v_lvl_num v_remote v_snoopx v_blk v_rsvd]
    by blast
  let ?val = "mem_data_src_val \<lparr>pmds_bitfield_1 = u\<rparr>"
  have field: "take_bit (memsrc_width f) (drop_bit (memsrc_off f) ?val) = take_bit (memsrc_width f) v"
    if "memsrc_get f cfg \<lparr>pmds_bitfield_1 = u\<rparr> = Ret (take_bit (memsrc_width f) v)" for f v
    using that memsrc_get_val [OF assms, of "\<lparr>pmds_bitfield_1 = u\<rparr>" f] l by simp
  from get have fields: "take_bit 5 ?val = take_bit 5 v_op"
    "take_bit 14 (drop_bit 5 ?val) = take_bit 14 v_lvl"
    "take_bit 5 (drop_bit 19 ?val) = take_bit 5 v_snoop"
    "take_bit 2 (drop_bit 24 ?val) = take_bit 2 v_lock"
    "take_bit 7 (drop_bit 26 ?val) = take_bit 7 v_dtlb"
    "take_bit 4 (drop_bit 33 ?val) = take_bit 4 v_lvl_num"
    "take_bit 1 (drop_bit 37 ?val) = take_bit 1 v_remote"
    "take_bit 2 (drop_bit 38 ?val) = take_bit 2 v_snoopx"
    "take_bit 3 (drop_bit 40 ?val) = take_bit 3 v_blk"
    "take_bit 21 (drop_bit 43 ?val) = take_bit 21 v_rsvd"
    using field [of M_op] field [of M_lvl] field [of M_snoop] field [of M_lock] field [of M_dtlb]
      field [of M_lvl_num] field [of M_remote] field [of M_snoopx] field [of M_blk] field [of M_rsvd]
    by simp_all
  show ?thesis using u mem_fields_split [of ?val] unfolding fields by blast
qed

section \<open>Properties\<close>

text \<open>
  C31: The structs of the bindings are laid out as their table says: every field is at the listed
  offset, every struct has the listed size, and where an aligned object of the struct lies in
  memory, the field at that offset is an aligned object of its own type inside it, with no
  byte in common with another field.
\<close>
theorem binding_fields_typed:
  assumes "(st, os, sz) \<in> set binding_table" and "object_at st p" and "(nm, off) \<in> set os"
  shows "offset_of st nm = Some off \<and> size_of st = sz \<and>
    (\<exists>t. (nm, off, t) \<in> set (field_offsets st) \<and> off + size_of t \<le> sz \<and>
       (0 < size_of t \<longrightarrow> object_at t (p + of_nat off) \<and> unat (p + of_nat off) = unat p + off) \<and>
       (\<forall>(nm', off', t') \<in> set (field_offsets st).
          nm' \<noteq> nm \<longrightarrow> off + size_of t \<le> off' \<or> off' + size_of t' \<le> off))"
proof -
  obtain fs where st: "st = CStruct fs" and wf: "wf_cty (CStruct fs)"
    using binding_table_wf [OF assms(1)] by auto
  from binding_table_offsets [OF assms(1)]
  have os: "map (\<lambda>(nm, off, t). (nm, off)) (field_offsets st) = os" and sz: "size_of st = sz" by blast+
  from assms(3) obtain t where t: "(nm, off, t) \<in> set (field_offsets st)" unfolding os [symmetric] by auto
  note lay = struct_layout(1) [OF wf]
  from lay t have "off + size_of t \<le> sz" unfolding laid_out_def st sz [symmetric] by fastforce
  moreover have "\<forall>(nm', off', t') \<in> set (field_offsets st).
      nm' \<noteq> nm \<longrightarrow> off + size_of t \<le> off' \<or> off' + size_of t' \<le> off"
    using laid_out_disjoint [OF lay t [unfolded st]] unfolding st by blast
  moreover have "object_at t (p + of_nat off) \<and> unat (p + of_nat off) = unat p + off" if "0 < size_of t"
    using struct_field_object [OF wf assms(2) [unfolded st] that t [unfolded st]] .
  ultimately have "off + size_of t \<le> sz \<and>
      (0 < size_of t \<longrightarrow> object_at t (p + of_nat off) \<and> unat (p + of_nat off) = unat p + off) \<and>
      (\<forall>(nm', off', t') \<in> set (field_offsets st).
         nm' \<noteq> nm \<longrightarrow> off + size_of t \<le> off' \<or> off' + size_of t' \<le> off)" by blast
  from conjI [OF t this] have "\<exists>t. (nm, off, t) \<in> set (field_offsets st) \<and> off + size_of t \<le> sz \<and>
       (0 < size_of t \<longrightarrow> object_at t (p + of_nat off) \<and> unat (p + of_nat off) = unat p + off) \<and>
       (\<forall>(nm', off', t') \<in> set (field_offsets st).
          nm' \<noteq> nm \<longrightarrow> off + size_of t \<le> off' \<or> off' + size_of t' \<le> off)" by (rule exI)
  with binding_offset_of [OF assms(1,3)] sz show ?thesis by (intro conjI)
qed

theorem binding_fields_typed_witness:
  "object_at perf_regs (0x1000 + of_nat 144) \<and> offset_of perf_sample_data_ty ''regs_intr'' = Some 144"
proof -
  obtain os where os: "(perf_sample_data_ty, os, 256) \<in> set binding_table" "(''regs_intr'', 144) \<in> set os"
    by (simp add: binding_table_def)
  have at: "object_at perf_sample_data_ty 0x1000"
    using binding_sizes(10) by (simp add: object_at_def) (simp add: layout_eval)
  from binding_fields_typed [OF os(1) at os(2)] obtain t where
    o: "offset_of perf_sample_data_ty ''regs_intr'' = Some 144" and
    t: "(''regs_intr'', 144, t) \<in> set (field_offsets perf_sample_data_ty)"
      "0 < size_of t \<longrightarrow> object_at t (0x1000 + of_nat 144)" by auto
  from t(1) have "t = perf_regs" by (auto simp: layout_eval)
  with t(2) o show ?thesis by (simp add: binding_sizes)
qed

text \<open>
  C32: The two views of the union \<open>perf_mem_data_src\<close> agree on a little-endian target: every
  bitfield getter reads its bits of \<open>val\<close>, every setter changes exactly those bits of \<open>val\<close>,
  a value stored through \<open>val\<close> is the value read back, and the constructor builds the number
  that has each argument, cut to its field's width, at its field's place.
\<close>
theorem mem_data_src_views:
  assumes "\<not> big_endian cfg"
  shows "memsrc_get f cfg (mem_data_src_of_val v) =
      Ret (take_bit (memsrc_width f) (drop_bit (memsrc_off f) v)) \<and>
    mem_data_src_val (mem_data_src_of_val v) = v \<and>
    (\<exists>d. memsrc_put f cfg (mem_data_src_of_val v) x = Ret d \<and>
       mem_data_src_val d = (v AND NOT (push_bit (memsrc_off f) (mask (memsrc_width f)))) OR
         push_bit (memsrc_off f) (take_bit (memsrc_width f) x)) \<and>
    (\<exists>u. mem_new_bitfield_1 cfg v_op v_lvl v_snoop v_lock v_dtlb v_lvl_num v_remote v_snoopx v_blk v_rsvd
        = Ret u \<and>
       mem_data_src_val \<lparr>pmds_bitfield_1 = u\<rparr> =
         take_bit 5 v_op OR push_bit 5 (take_bit 14 v_lvl) OR push_bit 19 (take_bit 5 v_snoop) OR
         push_bit 24 (take_bit 2 v_lock) OR push_bit 26 (take_bit 7 v_dtlb) OR
         push_bit 33 (take_bit 4 v_lvl_num) OR push_bit 37 (take_bit 1 v_remote) OR
         push_bit 38 (take_bit 2 v_snoopx) OR push_bit 40 (take_bit 3 v_blk) OR
         push_bit 43 (take_bit 21 v_rsvd))"
  using assms memsrc_get_val [of cfg "mem_data_src_of_val v" f]
    memsrc_put_val [of cfg "mem_data_src_of_val v" f x] mem_new_val [OF assms]
  by (simp add: mem_data_src_of_val_def mem_data_src_val_def) blast

theorem mem_data_src_views_witness:
  "mem_lvl release_x86 (mem_data_src_of_val 0x1234) = Ret (take_bit 14 (drop_bit 5 0x1234))"
  using mem_data_src_views [of release_x86 M_lvl "0x1234"] by simp

text \<open>The elements behind a flexible array's address.\<close>

lemma array_element:
  assumes "align_of t dvd size_of t" and "align_of t dvd unat q" and "0 < size_of t"
    and "unat q + n * size_of t \<le> 2 ^ 64" and "k < n"
  shows "object_at t (q + of_nat (k * size_of t)) \<and>
    within (q + of_nat (k * size_of t)) (size_of t) (iaf_as_slice t q n) \<and>
    unat (q + of_nat (k * size_of t)) = unat q + k * size_of t"
proof -
  have "Suc k * size_of t \<le> n * size_of t" using assms(5) by (intro mult_le_mono1) simp
  then have b: "k * size_of t + size_of t \<le> n * size_of t" by simp
  with assms(3,4) have u: "unat (q + of_nat (k * size_of t)) = unat q + k * size_of t"
    by (intro unat_add_small) linarith
  moreover have "object_at t (q + of_nat (k * size_of t))"
    unfolding object_at_def u using b assms by auto
  moreover have "within (q + of_nat (k * size_of t)) (size_of t) (iaf_as_slice t q n)"
    unfolding within_def using b by (intro exI [of _ "k * size_of t"]) (simp add: iaf_as_slice_def iaf_as_ptr_def)
  ultimately show ?thesis by blast
qed

text \<open>
  The flexible arrays of the bindings lie right behind the fixed fields: when the kernel's
  object has room for \<open>n\<close> elements, each of the \<open>n\<close> elements of \<open>as_slice(n)\<close> is an aligned
  object inside the slice, behind the header, and where C's indexing finds it.
\<close>
theorem flexible_array_elements:
  assumes "(st, fld, t) \<in> {(perf_branch_stack, ''entries'', perf_branch_entry_ty),
      (perf_callchain_entry, ''ip'', u64_ty)}"
    and "object_at st p" and "unat p + size_of st + n * size_of t \<le> 2 ^ 64" and "k < n"
  shows "offset_of st fld = Some (size_of st) \<and>
    object_at t (p + of_nat (size_of st) + of_nat (k * size_of t)) \<and>
    within (p + of_nat (size_of st) + of_nat (k * size_of t)) (size_of t)
      (iaf_as_slice t (p + of_nat (size_of st)) n) \<and>
    unat (p + of_nat (size_of st) + of_nat (k * size_of t)) = unat p + size_of st + k * size_of t"
proof -
  have t: "align_of t dvd size_of t" "0 < size_of t" "align_of t dvd align_of st"
    "align_of t dvd size_of st" "offset_of st fld = Some (size_of st)"
    using assms(1) by (auto simp: layout_eval)
  have "0 < n * size_of t" using assms(4) t(2) by simp
  with assms(3) have u: "unat (p + of_nat (size_of st)) = unat p + size_of st"
    by (intro unat_add_small) linarith
  have "align_of t dvd unat p" using assms(2) t(3) unfolding object_at_def by (blast intro: dvd_trans)
  with t(4) u have "align_of t dvd unat (p + of_nat (size_of st))" by simp
  from array_element [OF t(1) this t(2) _ assms(4)] assms(3) u t(5) show ?thesis by simp
qed

theorem flexible_array_elements_witness:
  "object_at perf_branch_entry_ty (0x1000 + 16 + 48)"
proof -
  have s: "size_of perf_branch_stack = 16" "size_of perf_branch_entry_ty = 24"
    by (simp_all add: binding_sizes)
  have "object_at perf_branch_stack 0x1000" by (simp add: object_at_def layout_eval)
  then show ?thesis
    using flexible_array_elements [of perf_branch_stack "''entries''" perf_branch_entry_ty "0x1000" 3 2]
    by (simp add: s)
qed

end
