(* ===== verification/Per_Cpu.thy ===== *)
theory Per_Cpu
  imports Machine
begin

text \<open>
  \<open>per_cpu.rs\<close>: reads of per-CPU variables relative to the \<open>gs\<close> segment, one definition per
  implementation of \<open>PerCPURead\<close>, and the address computation of \<open>__this_cpu_ptr\<close>. The
  contract of a per-CPU read is the locale \<open>per_cpu_read\<close>.
\<close>

section \<open>Reads\<close>

definition this_cpu_read_u64 :: "'k machine_scheme \<Rightarrow> u64 \<Rightarrow> u64" where
  "this_cpu_read_u64 \<sigma> addr = load_le (mem \<sigma>) (gs_base \<sigma> + addr)"

definition this_cpu_read_u32 :: "'k machine_scheme \<Rightarrow> u64 \<Rightarrow> u32" where
  "this_cpu_read_u32 \<sigma> addr = load_le (mem \<sigma>) (gs_base \<sigma> + addr)"

definition this_cpu_read_u16 :: "'k machine_scheme \<Rightarrow> u64 \<Rightarrow> u16" where
  "this_cpu_read_u16 \<sigma> addr = load_le (mem \<sigma>) (gs_base \<sigma> + addr)"

definition this_cpu_read_u8 :: "'k machine_scheme \<Rightarrow> u64 \<Rightarrow> u8" where
  "this_cpu_read_u8 \<sigma> addr = load_le (mem \<sigma>) (gs_base \<sigma> + addr)"

definition this_cpu_read_ptr :: "'k machine_scheme \<Rightarrow> u64 \<Rightarrow> u64" where
  "this_cpu_read_ptr \<sigma> addr = load_le (mem \<sigma>) (gs_base \<sigma> + addr)"

definition this_cpu_read_mut_ptr :: "'k machine_scheme \<Rightarrow> u64 \<Rightarrow> u64" where
  "this_cpu_read_mut_ptr \<sigma> addr = load_le (mem \<sigma>) (gs_base \<sigma> + addr)"

section \<open>Addresses\<close>

text \<open>The array read \<open>__per_cpu_offset[cpu_id]\<close> is bounds-checked; the addition can overflow.\<close>

definition this_cpu_ptr :: "build_cfg \<Rightarrow> 'k kernel \<Rightarrow> 'k machine_scheme \<Rightarrow> u64 \<Rightarrow> u64 res" where
  "this_cpu_ptr cfg K \<sigma> pcp_addr =
     (let cpu_id = unat (this_cpu_read_u32 \<sigma> (sym_cpu_number K)) in
      if cpu_id < length (per_cpu_offset K)
      then add_checked cfg pcp_addr (per_cpu_offset K ! cpu_id)
      else Panic (IndexOutOfBounds (length (per_cpu_offset K)) cpu_id))"

text \<open>
  The invariant the kernel keeps while a CPU runs: its number is in range, and its \<open>gs\<close> base
  is its entry of the offset table.
\<close>

definition on_cpu :: "'k kernel \<Rightarrow> 'k machine_scheme \<Rightarrow> nat \<Rightarrow> bool" where
  "on_cpu K \<sigma> cpu \<longleftrightarrow>
     cpu < length (per_cpu_offset K) \<and>
     unat (this_cpu_read_u32 \<sigma> (sym_cpu_number K)) = cpu \<and>
     gs_base \<sigma> = per_cpu_offset K ! cpu"

lemma this_cpu_ptr_on_cpu:
  assumes "on_cpu K \<sigma> cpu"
    and "\<not> overflow_checks cfg \<or> unat pcp_addr + unat (gs_base \<sigma>) < 2 ^ 64"
  shows "this_cpu_ptr cfg K \<sigma> pcp_addr = Ret (gs_base \<sigma> + pcp_addr)"
proof -
  have "add_checked cfg pcp_addr (gs_base \<sigma>) = Ret (pcp_addr + gs_base \<sigma>)"
    using assms(2) by (cases "overflow_checks cfg") (simp_all add: add_checked_def)
  with assms(1) show ?thesis
    by (simp add: this_cpu_ptr_def on_cpu_def add.commute)
qed

section \<open>The contract\<close>

text \<open>
  A per-CPU read of a type loads that type at the variable's address in the CPU's area, so
  it sees what a plain load through \<open>this_cpu_ptr\<close> sees.
\<close>

locale per_cpu_read =
  fixes read :: "'k machine_scheme \<Rightarrow> u64 \<Rightarrow> 'v"
    and load :: "(u64 \<Rightarrow> u8) \<Rightarrow> u64 \<Rightarrow> 'v"
  assumes read_eq: "read \<sigma> addr = load (mem \<sigma>) (gs_base \<sigma> + addr)"
begin

lemma read_through_ptr:
  assumes "on_cpu K \<sigma> cpu" and "\<not> overflow_checks cfg \<or> unat addr + unat (gs_base \<sigma>) < 2 ^ 64"
  shows "\<exists>p. this_cpu_ptr cfg K \<sigma> addr = Ret p \<and> read \<sigma> addr = load (mem \<sigma>) p"
  using this_cpu_ptr_on_cpu [OF assms] by (simp add: read_eq)

lemma read_cong: "mem \<sigma> = mem \<tau> \<Longrightarrow> gs_base \<sigma> = gs_base \<tau> \<Longrightarrow> read \<sigma> addr = read \<tau> addr"
  by (simp add: read_eq)

end

interpretation pc_u64: per_cpu_read this_cpu_read_u64 load_le
  by unfold_locales (simp add: this_cpu_read_u64_def)

interpretation pc_u32: per_cpu_read this_cpu_read_u32 load_le
  by unfold_locales (simp add: this_cpu_read_u32_def)

interpretation pc_u16: per_cpu_read this_cpu_read_u16 load_le
  by unfold_locales (simp add: this_cpu_read_u16_def)

interpretation pc_u8: per_cpu_read this_cpu_read_u8 load_le
  by unfold_locales (simp add: this_cpu_read_u8_def)

interpretation pc_ptr: per_cpu_read this_cpu_read_ptr load_le
  by unfold_locales (simp add: this_cpu_read_ptr_def)

interpretation pc_mut_ptr: per_cpu_read this_cpu_read_mut_ptr load_le
  by unfold_locales (simp add: this_cpu_read_mut_ptr_def)

end
