(* ===== verification/Cleanup.thy ===== *)
theory Cleanup
  imports Per_Cpu
begin

text \<open>
  \<open>panic.rs\<close>: the per-CPU table of cleanup entries, the panic handler that runs them and
  formats the message for the kernel's landing pad, and the stack check. A cleanup function
  changes the machine and may itself panic; then Rust calls the panic handler again, so the
  handler is a partial function whose value \<open>None\<close> is "never reaches the landing pad".
\<close>

section \<open>Entries\<close>

definition ENTRIES_SIZE :: nat where "ENTRIES_SIZE = 64"

text \<open>A cleanup function gets its argument and the machine; it may panic after changing it.\<close>

type_synonym 'k cleanup_fn = "u64 \<Rightarrow> 'k machine_scheme \<Rightarrow> 'k machine_scheme \<times> panic option"

record 'k cleanup_entry =
  valid :: u64
  cleanup_fn :: "'k cleanup_fn option"
  cleanup_arg :: u64

definition entry_new :: "'k cleanup_fn \<Rightarrow> u64 \<Rightarrow> 'k cleanup_entry" where
  "entry_new f arg = \<lparr>valid = 1, cleanup_fn = Some f, cleanup_arg = arg\<rparr>"

definition entry_default :: "'k cleanup_entry" where
  "entry_default = \<lparr>valid = 0, cleanup_fn = None, cleanup_arg = 0\<rparr>"

definition cleanup :: "'k cleanup_entry \<Rightarrow> 'k machine_scheme \<Rightarrow> 'k machine_scheme \<times> panic option" where
  "cleanup e \<sigma> =
     (if valid e \<noteq> 0
      then (case cleanup_fn e of Some f \<Rightarrow> f (cleanup_arg e) \<sigma> | None \<Rightarrow> (\<sigma>, None))
      else (\<sigma>, None))"

section \<open>The table of this CPU\<close>

text \<open>The tables live in per-CPU memory: a typed heap from the table's address to its entries.\<close>

type_synonym 'k tables = "u64 \<Rightarrow> 'k cleanup_entry list"

definition cleanup_entries_this_cpu ::
  "build_cfg \<Rightarrow> 'k kernel \<Rightarrow> 'k machine_scheme \<Rightarrow> u64 res" where
  "cleanup_entries_this_cpu cfg K \<sigma> = this_cpu_ptr cfg K \<sigma> (sym_iu_cleanup_entries K)"

fun find_empty_from :: "nat \<Rightarrow> 'k cleanup_entry list \<Rightarrow> nat res" where
  "find_empty_from idx [] = Panic (ExplicitPanic ''Object count exceeded\<newline>'')"
| "find_empty_from idx (e # es) =
     (if valid e = 0 then Ret idx else find_empty_from (Suc idx) es)"

text \<open>The code's name has the typo; the result is the entry's index.\<close>

definition find_next_emtpy_entry :: "'k cleanup_entry list \<Rightarrow> nat res" where
  "find_next_emtpy_entry entries = find_empty_from 0 entries"

definition entries_index :: "'k cleanup_entry list \<Rightarrow> nat \<Rightarrow> 'k cleanup_entry res" where
  "entries_index entries i =
     (if i < length entries then Ret (entries ! i)
      else Panic (IndexOutOfBounds (length entries) i))"

text \<open>\<open>IndexMut\<close>, as the assignment \<open>entries[i] = e\<close> through it.\<close>

definition entries_index_mut ::
  "'k cleanup_entry list \<Rightarrow> nat \<Rightarrow> 'k cleanup_entry \<Rightarrow> 'k cleanup_entry list res" where
  "entries_index_mut entries i e =
     (if i < length entries then Ret (entries[i := e])
      else Panic (IndexOutOfBounds (length entries) i))"

text \<open>
  \<open>cleanup_all\<close> runs an entry, then resets it. When the run panics the loop stops there: the
  entry is still valid, and so are all later ones.
\<close>

fun cleanup_all ::
  "'k cleanup_entry list \<Rightarrow> 'k machine_scheme
   \<Rightarrow> 'k cleanup_entry list \<times> 'k machine_scheme \<times> panic option" where
  "cleanup_all [] \<sigma> = ([], \<sigma>, None)"
| "cleanup_all (e # es) \<sigma> =
     (case cleanup e \<sigma> of
        (\<sigma>', Some p) \<Rightarrow> (e # es, \<sigma>', Some p)
      | (\<sigma>', None) \<Rightarrow>
          (let (es', \<sigma>'', r) = cleanup_all es \<sigma>' in (entry_default # es', \<sigma>'', r)))"

section \<open>The message\<close>

text \<open>
  \<open>PanicInfo\<close>: \<open>message\<close> is \<open>info.message()\<close> mapped through \<open>as_str\<close>, \<open>payload\<close> is the
  downcast of the payload to \<open>&str\<close>. Strings are bytes.
\<close>

record panic_info =
  message :: "u8 list option option"
  payload :: "u8 list option"

definition str_bytes :: "string \<Rightarrow> u8 list" where
  "str_bytes s = map of_char s"

definition default_msg :: "u8 list" where
  "default_msg = str_bytes ''Rust program panicked\<newline>'' @ [0]"

definition copy_truncated :: "u8 list \<Rightarrow> u8 list \<Rightarrow> u8 list" where
  "copy_truncated msg s =
     (let len = min (length msg - 1) (length s) in (take len s @ drop len msg)[len := 0])"

definition copy_default :: "u8 list \<Rightarrow> u8 list" where
  "copy_default msg = default_msg @ drop (length default_msg) msg"

definition format_msg :: "panic_info \<Rightarrow> u8 list" where
  "format_msg info =
     (let msg = replicate 128 0 in
      case message info of
        Some (Some s) \<Rightarrow> copy_truncated msg s
      | Some None \<Rightarrow> copy_default msg
      | None \<Rightarrow> (case payload info of Some s \<Rightarrow> copy_truncated msg s | None \<Rightarrow> copy_default msg))"

section \<open>The panic handler\<close>

text \<open>
  \<open>info_of\<close> is the \<open>PanicInfo\<close> the compiler builds for a panic. The handler looks up this
  CPU's table (which may panic), runs it, and lands with the message; a panic on the way
  enters the handler again with the state reached. The result is the message handed to
  \<open>iu_landingpad\<close>, the tables and the machine.
\<close>

partial_function (option) panic_handler ::
  "build_cfg \<Rightarrow> 'k kernel \<Rightarrow> (panic \<Rightarrow> panic_info) \<Rightarrow> panic \<Rightarrow> 'k tables \<Rightarrow> 'k machine_scheme
   \<Rightarrow> (u8 list \<times> 'k tables \<times> 'k machine_scheme) option" where
  "panic_handler cfg K info_of p tabs \<sigma> =
     (case cleanup_entries_this_cpu cfg K \<sigma> of
        Panic q \<Rightarrow> panic_handler cfg K info_of q tabs \<sigma>
      | Ret a \<Rightarrow>
          (case cleanup_all (tabs a) \<sigma> of
             (es, \<sigma>', r) \<Rightarrow>
               (case r of
                  Some q \<Rightarrow> panic_handler cfg K info_of q (tabs(a := es)) \<sigma>'
                | None \<Rightarrow> Some (format_msg (info_of p), tabs(a := es), \<sigma>'))))"

section \<open>The stack check\<close>

text \<open>
  \<open>__iu_check_stack\<close>: the result is the value left in \<open>r10\<close>; the comparison is unsigned.
\<close>

definition iu_check_stack :: "'k kernel \<Rightarrow> 'k machine_scheme \<Rightarrow> u64 \<Rightarrow> u64 res" where
  "iu_check_stack K \<sigma> rsp_val =
     (let reg = this_cpu_read_u64 \<sigma> (sym_iu_stack_ptr K) - 0x2000 in
      if rsp_val > reg then Ret reg
      else Panic (ExplicitPanic ''Stack overflow in inner-unikernel program''))"

section \<open>Lemmas\<close>

lemma find_empty_from_spec:
  "find_empty_from idx es =
     (if \<exists>i<length es. valid (es ! i) = 0
      then Ret (idx + (LEAST i. i < length es \<and> valid (es ! i) = 0))
      else Panic (ExplicitPanic ''Object count exceeded\<newline>''))"
proof (induction es arbitrary: idx)
  case Nil
  then show ?case by simp
next
  case (Cons e es)
  show ?case
  proof (cases "valid e = 0")
    case True
    then have "(LEAST i. i < length (e # es) \<and> valid ((e # es) ! i) = 0) = 0"
      by (intro Least_equality) auto
    with True show ?thesis by auto
  next
    case False
    have ex: "(\<exists>i<length (e # es). valid ((e # es) ! i) = 0) \<longleftrightarrow> (\<exists>i<length es. valid (es ! i) = 0)"
      using False by (auto simp: less_Suc_eq_0_disj)
    show ?thesis
    proof (cases "\<exists>i<length es. valid (es ! i) = 0")
      case True
      then obtain i where "i < length es \<and> valid (es ! i) = 0" by blast
      then have "(LEAST i. i < length (e # es) \<and> valid ((e # es) ! i) = 0) =
          Suc (LEAST i. i < length es \<and> valid (es ! i) = 0)"
        using Least_Suc [of "\<lambda>i. i < length (e # es) \<and> valid ((e # es) ! i) = 0" "Suc i"] False by simp
      with True False ex Cons.IH [of "Suc idx"] show ?thesis by simp
    next
      case no: False
      with False ex Cons.IH [of "Suc idx"] show ?thesis by simp
    qed
  qed
qed

text \<open>The effect of the entries in order, for entries that do not panic.\<close>

definition never_panics :: "'k cleanup_entry \<Rightarrow> bool" where
  "never_panics e \<longleftrightarrow> (\<forall>\<sigma>. snd (cleanup e \<sigma>) = None)"

definition run_entry :: "'k cleanup_entry \<Rightarrow> 'k machine_scheme \<Rightarrow> 'k machine_scheme" where
  "run_entry e \<sigma> = fst (cleanup e \<sigma>)"

lemma never_panics_default [simp]: "never_panics entry_default"
  by (simp add: never_panics_def cleanup_def entry_default_def)

lemma run_entry_default [simp]: "run_entry entry_default \<sigma> = \<sigma>"
  by (simp add: run_entry_def cleanup_def entry_default_def)

lemma cleanup_never_panics: "never_panics e \<Longrightarrow> cleanup e \<sigma> = (run_entry e \<sigma>, None)"
  by (simp add: never_panics_def run_entry_def prod_eq_iff)

lemma cleanup_all_ok:
  "\<forall>e\<in>set es. never_panics e \<Longrightarrow>
   cleanup_all es \<sigma> = (replicate (length es) entry_default, fold run_entry es \<sigma>, None)"
  by (induction es arbitrary: \<sigma>) (auto simp: cleanup_never_panics)

lemma length_cleanup_all: "length (fst (cleanup_all es \<sigma>)) = length es"
  by (induction es \<sigma> rule: cleanup_all.induct) (auto split: prod.splits option.splits)

lemma cleanup_all_prefix:
  "\<forall>e\<in>set pre. never_panics e \<Longrightarrow>
   cleanup_all (pre @ es) \<sigma> =
     (let (es', \<sigma>', r) = cleanup_all es (fold run_entry pre \<sigma>)
      in (replicate (length pre) entry_default @ es', \<sigma>', r))"
  by (induction pre arbitrary: \<sigma>) (auto simp: cleanup_never_panics split: prod.splits)

lemma panic_handler_clean:
  assumes "cleanup_entries_this_cpu cfg K \<sigma> = Ret a" and "cleanup_all (tabs a) \<sigma> = (es, \<sigma>', None)"
  shows "panic_handler cfg K info_of p tabs \<sigma> = Some (format_msg (info_of p), tabs(a := es), \<sigma>')"
  by (subst panic_handler.simps) (simp add: assms)

lemma cleanup_all_empty: "set es \<subseteq> {entry_default} \<Longrightarrow> cleanup_all es \<sigma> = (es, \<sigma>, None)"
  by (induction es) (auto simp: cleanup_def entry_default_def)

text \<open>With empty tables a panic changes neither the tables nor the machine.\<close>

lemma panic_handler_empty:
  assumes "panic_handler cfg K info_of p tabs \<sigma> = Some (msg, tabs', \<tau>)"
    and "\<forall>a. set (tabs a) \<subseteq> {entry_default}"
  shows "tabs' = tabs \<and> \<tau> = \<sigma>"
proof -
  let ?P = "\<lambda>tabs \<sigma> (msg, tabs', \<tau>). (\<forall>a. set (tabs a) \<subseteq> {entry_default}) \<longrightarrow> tabs' = tabs \<and> \<tau> = \<sigma>"
  have "?P tabs \<sigma> (msg, tabs', \<tau>)"
  proof (rule panic_handler.raw_induct [OF _ assms(1), where P = "\<lambda>cfg K info_of p tabs \<sigma> r. ?P tabs \<sigma> r"])
    fix handler cfg K info_of p tabs \<sigma> r
    assume IH: "\<And>cfg K info_of p tabs \<sigma> r. handler cfg K info_of p tabs \<sigma> = Some r \<Longrightarrow> ?P tabs \<sigma> r"
      and body: "(case cleanup_entries_this_cpu cfg K \<sigma> of
          Ret a \<Rightarrow> (case cleanup_all (tabs a) \<sigma> of
            (es, \<sigma>', None) \<Rightarrow> Some (format_msg (info_of p), tabs(a := es), \<sigma>')
          | (es, \<sigma>', Some q) \<Rightarrow> handler cfg K info_of q (tabs(a := es)) \<sigma>')
        | Panic q \<Rightarrow> handler cfg K info_of q tabs \<sigma>) = Some r"
    show "?P tabs \<sigma> r"
    proof (cases "cleanup_entries_this_cpu cfg K \<sigma>")
      case (Ret a)
      show ?thesis
      proof (cases "set (tabs a) \<subseteq> {entry_default}")
        case True
        from cleanup_all_empty [OF this] Ret body show ?thesis by auto
      next
        case False
        then show ?thesis by (cases r) auto
      qed
    next
      case (Panic q)
      with body IH show ?thesis by simp
    qed
  qed
  with assms(2) show ?thesis by simp
qed

section \<open>Properties\<close>

text \<open>
  \<open>find_next_emtpy_entry\<close> returns the least index whose entry is not valid, and panics
  with "Object count exceeded" exactly when every entry is valid.
\<close>
theorem find_next_emtpy_entry_spec:
  "find_next_emtpy_entry entries =
     (if \<exists>i<length entries. valid (entries ! i) = 0
      then Ret (LEAST i. i < length entries \<and> valid (entries ! i) = 0)
      else Panic (ExplicitPanic ''Object count exceeded\<newline>''))"
  by (simp add: find_next_emtpy_entry_def find_empty_from_spec)

lemma find_next_free:
  assumes "find_next_emtpy_entry es = Ret i"
  shows "i < length es" and "valid (es ! i) = 0"
proof -
  from assms have ex: "\<exists>i<length es. valid (es ! i) = 0"
    and i: "i = (LEAST i. i < length es \<and> valid (es ! i) = 0)"
    by (auto simp: find_next_emtpy_entry_def find_empty_from_spec split: if_splits)
  from ex have "\<exists>i. i < length es \<and> valid (es ! i) = 0" by blast
  from LeastI_ex [OF this] i show "i < length es" and "valid (es ! i) = 0" by auto
qed

lemma length_filter_update:
  "i < length xs \<Longrightarrow> \<not> P (xs ! i) \<Longrightarrow> P x \<Longrightarrow>
   length (filter P (xs[i := x])) = Suc (length (filter P xs))"
  by (induction xs arbitrary: i) (auto split: nat.splits)

text \<open>
  Storing a new entry at the index \<open>find_next_emtpy_entry\<close> returned never overwrites a
  registered one: the other entries are unchanged, the new one is valid, and the number of
  valid entries grows by one.
\<close>
theorem register_fresh_entry:
  assumes "find_next_emtpy_entry es = Ret i"
  shows "\<exists>es'. entries_index_mut es i (entry_new f arg) = Ret es' \<and> length es' = length es \<and>
    es' ! i = entry_new f arg \<and> (\<forall>j<length es. j \<noteq> i \<longrightarrow> es' ! j = es ! j) \<and>
    length (filter (\<lambda>e. valid e \<noteq> 0) es') = Suc (length (filter (\<lambda>e. valid e \<noteq> 0) es))"
  using find_next_free [OF assms] length_filter_update [of i es "\<lambda>e. valid e \<noteq> 0" "entry_new f arg"]
  by (simp add: entries_index_mut_def entry_new_def)

theorem register_fresh_entry_witness:
  "\<exists>es'. entries_index_mut [entry_new (\<lambda>a \<sigma>. (\<sigma> :: machine, None)) 1, entry_default] 1
           (entry_new (\<lambda>a \<sigma>. (\<sigma>, None)) 2) = Ret es' \<and> cleanup_arg (es' ! 0) = 1"
proof -
  have "find_next_emtpy_entry [entry_new (\<lambda>a \<sigma>. (\<sigma> :: machine, None)) 1, entry_default] = Ret 1"
    by (simp add: find_next_emtpy_entry_def entry_new_def entry_default_def)
  from register_fresh_entry [OF this, of "\<lambda>a \<sigma>. (\<sigma>, None)" 2] show ?thesis
    by (auto simp: entry_new_def nth_Cons split: nat.splits)
qed

lemma demo_table: "cleanup_entries_this_cpu release_x86 demo_kernel demo_machine = Ret 0x10200"
  by (simp add: cleanup_entries_this_cpu_def this_cpu_ptr_def this_cpu_read_u32_def
      checked_release)

text \<open>
  C7: When no cleanup function of this CPU's table panics, the panic handler reaches the
  landing pad: it has run every valid entry once, in order, reset the whole table to the
  default entry, left the other CPUs' tables alone, and hands over the formatted message of
  the panic.
\<close>
theorem panic_handler_lands:
  assumes "cleanup_entries_this_cpu cfg K \<sigma> = Ret a"
    and "\<forall>e\<in>set (tabs a). never_panics e"
  shows "panic_handler cfg K info_of p tabs \<sigma> =
    Some (format_msg (info_of p), tabs(a := replicate (length (tabs a)) entry_default),
          fold run_entry (tabs a) \<sigma>)"
  using assms by (simp add: panic_handler_clean cleanup_all_ok)

theorem panic_handler_lands_witness:
  "\<exists>m. panic_handler release_x86 demo_kernel (\<lambda>p. \<lparr>message = None, payload = None\<rparr>) UnwrapOnNone
     (\<lambda>_. [entry_default, entry_new (\<lambda>a \<sigma>. (\<sigma>\<lparr>gs_base := a\<rparr>, None)) 7]) demo_machine =
     Some (m, (\<lambda>_. [entry_default, entry_new (\<lambda>a \<sigma>. (\<sigma>\<lparr>gs_base := a\<rparr>, None)) 7])
                (0x10200 := [entry_default, entry_default]), demo_machine\<lparr>gs_base := 7\<rparr>)"
proof -
  have "\<forall>e\<in>set [entry_default, entry_new (\<lambda>a (\<sigma>::machine). (\<sigma>\<lparr>gs_base := a\<rparr>, None)) 7]. never_panics e"
    by (simp add: never_panics_def cleanup_def entry_new_def entry_default_def)
  from panic_handler_lands [OF demo_table, of "\<lambda>_. [entry_default, entry_new (\<lambda>a \<sigma>. (\<sigma>\<lparr>gs_base := a\<rparr>, None)) 7]", OF this]
  show ?thesis by (auto simp: run_entry_def cleanup_def entry_new_def entry_default_def numeral_2_eq_2)
qed

text \<open>
  What keeps the handler from landing: this CPU's table is at \<open>a\<close>, an entry \<open>e\<close> of it panics
  whenever it runs, the entries before it do not, and none of these moves the table.
\<close>

definition stuck_at ::
  "build_cfg \<Rightarrow> 'k kernel \<Rightarrow> u64 \<Rightarrow> 'k cleanup_entry \<Rightarrow> 'k tables \<Rightarrow> 'k machine_scheme \<Rightarrow> bool" where
  "stuck_at cfg K a e tabs \<sigma> \<longleftrightarrow>
     cleanup_entries_this_cpu cfg K \<sigma> = Ret a \<and>
     (\<forall>\<tau>. snd (cleanup e \<tau>) \<noteq> None) \<and>
     (\<exists>pre post. tabs a = pre @ e # post \<and> (\<forall>e'\<in>set pre. never_panics e') \<and>
        (\<forall>e'\<in>insert e (set pre). \<forall>\<tau>. cleanup_entries_this_cpu cfg K (fst (cleanup e' \<tau>)) =
           cleanup_entries_this_cpu cfg K \<tau>))"

lemma fold_run_entry_table:
  "\<forall>e'\<in>set es. \<forall>\<tau>. cleanup_entries_this_cpu cfg K (fst (cleanup e' \<tau>)) =
     cleanup_entries_this_cpu cfg K \<tau> \<Longrightarrow>
   cleanup_entries_this_cpu cfg K (fold run_entry es \<sigma>) = cleanup_entries_this_cpu cfg K \<sigma>"
  by (induction es arbitrary: \<sigma>) (auto simp: run_entry_def)

text \<open>A run of the table from a stuck state panics, and the state it reaches is stuck.\<close>

lemma stuck_at_step:
  assumes "stuck_at cfg K a e tabs \<sigma>"
  shows "\<exists>es \<sigma>' q. cleanup_all (tabs a) \<sigma> = (es, \<sigma>', Some q) \<and> stuck_at cfg K a e (tabs(a := es)) \<sigma>'"
proof -
  from assms obtain pre post where t: "tabs a = pre @ e # post"
    and np: "\<forall>e'\<in>set pre. never_panics e'"
    and fix_t: "\<forall>e'\<in>insert e (set pre). \<forall>\<tau>. cleanup_entries_this_cpu cfg K (fst (cleanup e' \<tau>)) =
      cleanup_entries_this_cpu cfg K \<tau>"
    and res: "cleanup_entries_this_cpu cfg K \<sigma> = Ret a"
    and e: "\<forall>\<tau>. snd (cleanup e \<tau>) \<noteq> None"
    unfolding stuck_at_def by blast
  obtain \<sigma>' q where run: "cleanup e (fold run_entry pre \<sigma>) = (\<sigma>', Some q)"
    using e by (metis option.exhaust prod.collapse)
  have all: "cleanup_all (tabs a) \<sigma> = (replicate (length pre) entry_default @ e # post, \<sigma>', Some q)"
    using cleanup_all_prefix [OF np, of "e # post" \<sigma>] run by (simp add: t)
  have "cleanup_entries_this_cpu cfg K \<sigma>' = Ret a"
    using fold_run_entry_table [of pre cfg K \<sigma>] fix_t res run by (metis fst_conv insertCI)
  moreover have "\<forall>e'\<in>insert e (set (replicate (length pre) entry_default)).
      \<forall>\<tau>. cleanup_entries_this_cpu cfg K (fst (cleanup e' \<tau>)) = cleanup_entries_this_cpu cfg K \<tau>"
    using fix_t by (auto simp: cleanup_def entry_default_def)
  moreover have "\<forall>e'\<in>set (replicate (length pre) entry_default). never_panics e'"
    by auto
  ultimately have "stuck_at cfg K a e (tabs(a := replicate (length pre) entry_default @ e # post)) \<sigma>'"
    unfolding stuck_at_def using e by (metis fun_upd_same)
  with all show ?thesis by blast
qed

lemma panic_handler_not_stuck:
  assumes "panic_handler cfg K info_of p tabs \<sigma> = Some r"
  shows "\<not> stuck_at cfg K a e tabs \<sigma>"
proof (rule panic_handler.raw_induct [OF _ assms, where
      P = "\<lambda>cfg K info_of p tabs \<sigma> r. \<not> stuck_at cfg K a e tabs \<sigma>"])
  fix handler cfg K info_of p tabs \<sigma> r
  assume IH: "\<And>cfg K info_of p tabs \<sigma> r. handler cfg K info_of p tabs \<sigma> = Some r \<Longrightarrow>
      \<not> stuck_at cfg K a e tabs \<sigma>"
    and body: "(case cleanup_entries_this_cpu cfg K \<sigma> of
        Ret a \<Rightarrow> (case cleanup_all (tabs a) \<sigma> of
          (es, \<sigma>', None) \<Rightarrow> Some (format_msg (info_of p), tabs(a := es), \<sigma>')
        | (es, \<sigma>', Some q) \<Rightarrow> handler cfg K info_of q (tabs(a := es)) \<sigma>')
      | Panic q \<Rightarrow> handler cfg K info_of q tabs \<sigma>) = Some r"
  show "\<not> stuck_at cfg K a e tabs \<sigma>"
  proof
    assume st: "stuck_at cfg K a e tabs \<sigma>"
    then have "cleanup_entries_this_cpu cfg K \<sigma> = Ret a" by (simp add: stuck_at_def)
    moreover obtain es \<sigma>' q where "cleanup_all (tabs a) \<sigma> = (es, \<sigma>', Some q)"
      and "stuck_at cfg K a e (tabs(a := es)) \<sigma>'"
      using stuck_at_step [OF st] by blast
    ultimately show False using body IH by auto
  qed
qed

text \<open>
  C8: A cleanup function that panics whenever it runs keeps the handler from ever reaching
  the landing pad: the entry is only reset after its function returned, so every re-entry of
  the handler runs it again. (The entries before it do not panic, and no cleanup function
  moves the CPU's table.)
\<close>
theorem panicking_cleanup_never_lands:
  assumes "cleanup_entries_this_cpu cfg K \<sigma> = Ret a" and "tabs a = pre @ e # post"
    and "\<forall>e'\<in>set pre. never_panics e'"
    and "\<forall>\<tau>. snd (cleanup e \<tau>) \<noteq> None"
    and "\<forall>e'\<in>insert e (set pre). \<forall>\<tau>. cleanup_entries_this_cpu cfg K (fst (cleanup e' \<tau>)) =
           cleanup_entries_this_cpu cfg K \<tau>"
  shows "panic_handler cfg K info_of p tabs \<sigma> = None"
proof -
  have "stuck_at cfg K a e tabs \<sigma>" using assms unfolding stuck_at_def by blast
  then show ?thesis using panic_handler_not_stuck not_None_eq by metis
qed

theorem panicking_cleanup_never_lands_witness:
  "panic_handler release_x86 demo_kernel (\<lambda>p. \<lparr>message = None, payload = None\<rparr>) UnwrapOnNone
     (\<lambda>_. [entry_default, entry_new (\<lambda>a \<sigma>. (\<sigma>, Some UnwrapOnNone)) 7]) demo_machine = None"
proof (rule panicking_cleanup_never_lands [OF demo_table,
      where pre = "[entry_default]" and e = "entry_new (\<lambda>a \<sigma>. (\<sigma>, Some UnwrapOnNone)) 7" and post = "[]"])
  show "\<forall>e'\<in>insert (entry_new (\<lambda>a \<sigma>. (\<sigma>, Some UnwrapOnNone)) 7) (set [entry_default]).
    \<forall>\<tau>. cleanup_entries_this_cpu release_x86 demo_kernel (fst (cleanup e' \<tau>)) =
      cleanup_entries_this_cpu release_x86 demo_kernel \<tau>"
    by (auto simp: cleanup_def entry_new_def entry_default_def)
qed (simp_all add: cleanup_def entry_new_def)

section \<open>The message and the stack\<close>

text \<open>The text a panic shows: its message, or the payload, or the default.\<close>

fun shown_text :: "panic_info \<Rightarrow> u8 list" where
  "shown_text \<lparr>message = Some (Some s), payload = pl\<rparr> = take 127 s"
| "shown_text \<lparr>message = None, payload = Some s\<rparr> = take 127 s"
| "shown_text \<lparr>message = _, payload = _\<rparr> = str_bytes ''Rust program panicked\<newline>''"

lemma format_msg_eq:
  "format_msg info = shown_text info @ replicate (128 - length (shown_text info)) 0 \<and>
   length (shown_text info) \<le> 127"
proof (cases info)
  case (fields m pl)
  have t: "copy_truncated (replicate 128 0) s = take 127 s @ replicate (128 - length (take 127 s)) 0" for s
    by (rule nth_equalityI) (auto simp: copy_truncated_def Let_def nth_append nth_list_update min_def)
  have d: "copy_default (replicate 128 0) =
      str_bytes ''Rust program panicked\<newline>'' @ replicate (128 - length (str_bytes ''Rust program panicked\<newline>'')) 0"
    by (simp add: copy_default_def default_msg_def str_bytes_def flip: replicate_Suc)
  have l: "length (str_bytes ''Rust program panicked\<newline>'') \<le> 127"
    by (simp add: str_bytes_def)
  show ?thesis unfolding fields format_msg_def Let_def
    using t d l by (auto split: option.splits)
qed

lemma format_msg_length: "length (format_msg info) = 128"
  using format_msg_eq [of info] by simp

lemma format_msg_last: "last (format_msg info) = 0"
  using format_msg_eq [of info] by (simp add: last_append)

text \<open>
  The message handed to the landing pad is always 128 bytes: the panic's text, cut to 127
  bytes, then NUL bytes to the end; so it is NUL-terminated whatever the panic.
\<close>
theorem format_msg_spec:
  "format_msg info = shown_text info @ replicate (128 - length (shown_text info)) 0 \<and>
   length (shown_text info) \<le> 127"
  by (rule format_msg_eq)

text \<open>
  The stack check lets the program go on exactly when its stack pointer is above the
  limit of two pages below the top of the stack; then at most 8191 bytes are in use.
\<close>
theorem iu_check_stack_spec:
  assumes "0x2000 \<le> unat (this_cpu_read_u64 \<sigma> (sym_iu_stack_ptr K))"
  shows "(\<exists>v. iu_check_stack K \<sigma> rsp_val = Ret v) \<longleftrightarrow>
    unat (this_cpu_read_u64 \<sigma> (sym_iu_stack_ptr K)) < unat rsp_val + 0x2000"
proof -
  have "unat (this_cpu_read_u64 \<sigma> (sym_iu_stack_ptr K) - 0x2000) =
      unat (this_cpu_read_u64 \<sigma> (sym_iu_stack_ptr K)) - 0x2000"
    using assms by (subst unat_sub) (simp_all add: word_le_nat_alt)
  with assms show ?thesis by (auto simp: iu_check_stack_def Let_def word_less_nat_alt)
qed

theorem iu_check_stack_spec_witness:
  "(\<exists>v. iu_check_stack demo_kernel (demo_machine\<lparr>mem := (\<lambda>_. 1)\<rparr>) 0 = Ret v) \<longleftrightarrow> False"
proof -
  have b: "this_cpu_read_u64 (demo_machine\<lparr>mem := (\<lambda>_. 1)\<rparr>) 0x110 = 0x0101010101010101"
    by (simp add: this_cpu_read_u64_def load_le_def load_bytes_def upt_rec horner_sum_simps)
  show ?thesis
    using iu_check_stack_spec [of "demo_machine\<lparr>mem := (\<lambda>_. 1)\<rparr>" demo_kernel 0] b by simp
qed

end
