(* ===== verification/Task_Struct.thy ===== *)
theory Task_Struct
  imports Per_Cpu
begin

text \<open>
  \<open>task_struct.rs\<close>: the handle on the current task, its accessors, the copy of its command
  name into a caller's buffer, and the address of its saved user registers.
\<close>

record TaskStruct =
  task_kptr :: u64

definition TOP_OF_KERNEL_STACK_PADDING :: u64 where "TOP_OF_KERNEL_STACK_PADDING = 0"
definition PAGE_SHIFT :: nat where "PAGE_SHIFT = 12"
definition PAGE_SIZE :: u64 where "PAGE_SIZE = push_bit PAGE_SHIFT 1"
definition THREAD_SIZE_ORDER :: nat where "THREAD_SIZE_ORDER = 2"
definition THREAD_SIZE :: u64 where "THREAD_SIZE = push_bit THREAD_SIZE_ORDER PAGE_SIZE"

definition task_new :: "u64 \<Rightarrow> TaskStruct" where
  "task_new kp = \<lparr>task_kptr = kp\<rparr>"

definition get_current_task :: "'k kernel \<Rightarrow> 'k machine_scheme \<Rightarrow> TaskStruct option" where
  "get_current_task K \<sigma> =
     (let current = this_cpu_read_ptr \<sigma> (sym_current_task K) in
      if current = 0 then None else Some (task_new current))"

definition get_pid :: "'k machine_scheme \<Rightarrow> TaskStruct \<Rightarrow> i32" where
  "get_pid \<sigma> t = ts_pid (task_structs \<sigma> (task_kptr t))"

definition get_tgid :: "'k machine_scheme \<Rightarrow> TaskStruct \<Rightarrow> i32" where
  "get_tgid \<sigma> t = ts_tgid (task_structs \<sigma> (task_kptr t))"

text \<open>
  The buffer is \<open>[i8; N]\<close>, \<open>N\<close> its length; the result is the return code and the buffer.
  \<open>min(N, comm.len()) - 1\<close> underflows when the kernel's \<open>comm\<close> array is empty: a panic in a
  checked build, and else a slice end that is out of bounds.
\<close>

definition get_comm ::
  "build_cfg \<Rightarrow> 'k kernel \<Rightarrow> 'k machine_scheme \<Rightarrow> TaskStruct \<Rightarrow> i8 list \<Rightarrow> (i32 \<times> i8 list) res" where
  "get_comm cfg K \<sigma> t buf =
     (let N = length buf; comm = ts_comm (task_structs \<sigma> (task_kptr t)) in
      if N = 0 then Ret (- EINVAL K, buf)
      else if min N (length comm) = 0
      then Panic (if overflow_checks cfg then ArithOverflow else SliceOutOfBounds N (2 ^ 64 - 1))
      else let sz = min N (length comm) - 1 in
        if sz = 0 then Ret (- EINVAL K, buf)
        else Ret (0, (take sz comm @ drop sz buf)[sz := 0]))"

definition get_pt_regs :: "build_cfg \<Rightarrow> 'k machine_scheme \<Rightarrow> TaskStruct \<Rightarrow> u64 res" where
  "get_pt_regs cfg \<sigma> t =
     and_then (add_checked cfg (ts_stack (task_structs \<sigma> (task_kptr t))) THREAD_SIZE) (\<lambda>top.
     and_then (sub_checked cfg top TOP_OF_KERNEL_STACK_PADDING) (\<lambda>stack_top.
       sub_checked cfg stack_top (of_nat sizeof_pt_regs)))"

section \<open>Properties\<close>

lemma THREAD_SIZE_eq: "THREAD_SIZE = 0x4000"
  by (simp add: THREAD_SIZE_def PAGE_SIZE_def PAGE_SHIFT_def THREAD_SIZE_ORDER_def push_bit_eq_mult)

text \<open>
  C34: \<open>get_comm\<close> on a task whose \<open>comm\<close> has 16 bytes never panics. A buffer of fewer than two
  bytes is refused with \<open>-EINVAL\<close> and left alone. Any other buffer keeps its length and
  receives a NUL-terminated prefix of the name: its bytes before position
  \<open>min(N, 16) - 1\<close> are the name's, the byte there is 0, and the rest is untouched.
\<close>
theorem get_comm_spec:
  assumes "length (ts_comm (task_structs \<sigma> (task_kptr t))) = 16"
  shows "(length buf < 2 \<longrightarrow> get_comm cfg K \<sigma> t buf = Ret (- EINVAL K, buf)) \<and>
    (2 \<le> length buf \<longrightarrow> (\<exists>buf'. get_comm cfg K \<sigma> t buf = Ret (0, buf') \<and>
       length buf' = length buf \<and>
       (\<forall>i < length buf. buf' ! i =
          (if i < min (length buf) 16 - 1 then ts_comm (task_structs \<sigma> (task_kptr t)) ! i
           else if i = min (length buf) 16 - 1 then 0 else buf ! i))))"
proof (intro conjI impI)
  assume "length buf < 2"
  then show "get_comm cfg K \<sigma> t buf = Ret (- EINVAL K, buf)"
    using assms by (cases buf) (simp_all add: get_comm_def Let_def)
next
  assume len: "2 \<le> length buf"
  let ?comm = "ts_comm (task_structs \<sigma> (task_kptr t))"
  let ?sz = "min (length buf) 16 - 1"
  let ?buf' = "(take ?sz ?comm @ drop ?sz buf)[?sz := 0]"
  have "get_comm cfg K \<sigma> t buf = Ret (0, ?buf')"
    using len assms by (auto simp: get_comm_def Let_def min_def)
  moreover have "length ?buf' = length buf" using assms by simp
  moreover have "?buf' ! i = (if i < ?sz then ?comm ! i else if i = ?sz then 0 else buf ! i)"
    if "i < length buf" for i
  proof (cases "i = ?sz")
    case True
    with that assms show ?thesis by simp
  next
    case False
    have "length (take ?sz ?comm) = ?sz" using assms by simp
    then have "(take ?sz ?comm @ drop ?sz buf) ! i = (if i < ?sz then ?comm ! i else buf ! i)"
      using that by (auto simp: nth_append simp del: length_take)
    with False show ?thesis by simp
  qed
  ultimately show "\<exists>buf'. get_comm cfg K \<sigma> t buf = Ret (0, buf') \<and> length buf' = length buf \<and>
       (\<forall>i < length buf. buf' ! i =
          (if i < ?sz then ?comm ! i else if i = ?sz then 0 else buf ! i))"
    by blast
qed

theorem get_comm_spec_witness:
  "\<exists>buf'. get_comm dev_x86 demo_kernel
      (demo_machine\<lparr>task_structs := (\<lambda>_. \<lparr>ts_pid = 1, ts_tgid = 1, ts_comm = 115 # 104 # replicate 14 0,
         ts_stack = 0\<rparr>)\<rparr>) \<lparr>task_kptr = 8\<rparr> [1, 1, 1] = Ret (0, buf') \<and> buf' ! 0 = 115 \<and> buf' ! 2 = 0"
  using get_comm_spec [of "demo_machine\<lparr>task_structs := (\<lambda>_. \<lparr>ts_pid = 1, ts_tgid = 1,
      ts_comm = 115 # 104 # replicate 14 0, ts_stack = 0\<rparr>)\<rparr>" "\<lparr>task_kptr = 8\<rparr>" "[1, 1, 1]"
      dev_x86 demo_kernel]
  by auto

text \<open>
  When the task's stack does not wrap around the address space, \<open>get_pt_regs\<close> returns, in
  every build, the address whose \<open>pt_regs\<close> ends exactly at the top of the stack's
  \<open>THREAD_SIZE\<close> bytes and starts inside them.
\<close>
theorem get_pt_regs_top_of_stack:
  assumes "unat (ts_stack (task_structs \<sigma> (task_kptr t))) + unat THREAD_SIZE < 2 ^ 64"
  shows "\<exists>p. get_pt_regs cfg \<sigma> t = Ret p \<and>
    unat p + sizeof_pt_regs = unat (ts_stack (task_structs \<sigma> (task_kptr t))) + unat THREAD_SIZE \<and>
    unat (ts_stack (task_structs \<sigma> (task_kptr t))) \<le> unat p"
proof -
  let ?s = "ts_stack (task_structs \<sigma> (task_kptr t))"
  have top: "add_checked cfg ?s THREAD_SIZE = Ret (?s + THREAD_SIZE)"
    using assms by (intro add_checked_ok) simp
  have un: "unat (?s + THREAD_SIZE) = unat ?s + unat THREAD_SIZE"
    using assms by (simp add: unat_add_lem [THEN iffD1])
  have sz: "unat (of_nat sizeof_pt_regs :: u64) = 168"
    by (simp add: sizeof_pt_regs_def)
  have le: "of_nat sizeof_pt_regs \<le> ?s + THREAD_SIZE"
    unfolding word_le_nat_alt un sz by (simp add: THREAD_SIZE_eq)
  have "get_pt_regs cfg \<sigma> t = Ret (?s + THREAD_SIZE - of_nat sizeof_pt_regs)"
    using le by (simp add: get_pt_regs_def top sub_checked_ok TOP_OF_KERNEL_STACK_PADDING_def)
  moreover have "unat (?s + THREAD_SIZE - of_nat sizeof_pt_regs) = unat ?s + unat THREAD_SIZE - 168"
    using unat_sub [OF le] un sz by simp
  ultimately show ?thesis
    by (simp add: sizeof_pt_regs_def THREAD_SIZE_eq)
qed

theorem get_pt_regs_top_of_stack_witness:
  "\<exists>p. get_pt_regs dev_x86 demo_machine \<lparr>task_kptr = 8\<rparr> = Ret p \<and> unat p + 168 = 0x4000"
  using get_pt_regs_top_of_stack [of demo_machine "\<lparr>task_kptr = 8\<rparr>" dev_x86]
  by (auto simp: demo_machine_def THREAD_SIZE_eq sizeof_pt_regs_def)

end
