(* ===== verification/Prog_Type.thy ===== *)
theory Prog_Type
  imports Cleanup Task_Struct
begin

text \<open>
  \<open>prog_type.rs\<close> and the entry points of \<open>lib.rs\<close>. A user program is a function of its
  context and the machine; it may change the machine, and returns a \<open>Result\<close> or panics. What
  the five \<open>prog_run\<close>s share, converting the raw context, running the program, and a default
  verdict for an error, is the locale \<open>iu_prog\<close>; the entry with its panic handler is
  \<open>enter\<close>. The file also has the small state-and-panic monad programs are written in.
\<close>

section \<open>Programs\<close>

type_synonym ('k, 'a) run = "'k machine_scheme \<Rightarrow> 'a res \<times> 'k machine_scheme"

definition ret_m :: "'a \<Rightarrow> ('k, 'a) run" where
  "ret_m x \<sigma> = (Ret x, \<sigma>)"

definition bind_m :: "('k, 'a) run \<Rightarrow> ('a \<Rightarrow> ('k, 'b) run) \<Rightarrow> ('k, 'b) run" where
  "bind_m m f \<sigma> = (case m \<sigma> of (Ret x, \<sigma>') \<Rightarrow> f x \<sigma>' | (Panic p, \<sigma>') \<Rightarrow> (Panic p, \<sigma>'))"

text \<open>A call that cannot panic, a read of the state, and a computation that changes nothing.\<close>

definition lift_m :: "('k machine_scheme \<Rightarrow> 'a \<times> 'k machine_scheme) \<Rightarrow> ('k, 'a) run" where
  "lift_m f \<sigma> = (let (x, \<sigma>') = f \<sigma> in (Ret x, \<sigma>'))"

definition get_m :: "('k machine_scheme \<Rightarrow> 'a) \<Rightarrow> ('k, 'a) run" where
  "get_m f \<sigma> = (Ret (f \<sigma>), \<sigma>)"

definition modify_m :: "('k machine_scheme \<Rightarrow> 'k machine_scheme) \<Rightarrow> ('k, unit) run" where
  "modify_m f \<sigma> = (Ret (), f \<sigma>)"

definition res_m :: "'a res \<Rightarrow> ('k, 'a) run" where
  "res_m r \<sigma> = (r, \<sigma>)"

text \<open>The \<open>?\<close> operator on a \<open>Result\<close>.\<close>

definition try_m :: "('k, c_result) run \<Rightarrow> (i32 \<Rightarrow> ('k, c_result) run) \<Rightarrow> ('k, c_result) run" where
  "try_m m f = bind_m m (\<lambda>r. case r of Ok v \<Rightarrow> f v | Err e \<Rightarrow> ret_m (Err e))"

named_theorems run_simps \<open>unfolding of the program monad\<close>

lemma bind_ret_m [run_simps]: "bind_m (ret_m x) f = f x"
  by (rule ext) (simp add: bind_m_def ret_m_def)

lemma bind_lift_m [run_simps]: "bind_m (lift_m g) f \<sigma> = (case g \<sigma> of (x, \<sigma>') \<Rightarrow> f x \<sigma>')"
  by (simp add: bind_m_def lift_m_def split: prod.splits)

lemma bind_get_m [run_simps]: "bind_m (get_m h) f \<sigma> = f (h \<sigma>) \<sigma>"
  by (simp add: bind_m_def get_m_def)

lemma bind_modify_m [run_simps]: "bind_m (modify_m t) f \<sigma> = f () (t \<sigma>)"
  by (simp add: bind_m_def modify_m_def)

lemma bind_res_m [run_simps]:
  "bind_m (res_m (Ret x)) f = f x"
  "bind_m (res_m (Panic p)) f = res_m (Panic p)"
  by (rule ext, simp add: bind_m_def res_m_def)+

lemma bind_m_assoc: "bind_m (bind_m m f) g = bind_m m (\<lambda>x. bind_m (f x) g)"
  by (rule ext) (auto simp: bind_m_def split: prod.splits res.splits)

lemma bind_m_ret [simp]: "bind_m m ret_m = m"
  by (rule ext) (auto simp: bind_m_def ret_m_def split: prod.splits res.splits)

section \<open>Running a program\<close>

text \<open>\<open>unwrap_or_else(|_| dflt) as u32\<close> on the program's result.\<close>

definition verdict :: "u32 \<Rightarrow> ('k, c_result) run \<Rightarrow> ('k, u32) run" where
  "verdict dflt m = bind_m m (\<lambda>r. ret_m (unwrap_or_else r (\<lambda>_. dflt)))"

text \<open>
  The contract of \<open>prog_run\<close>: \<open>conv\<close> converts the raw context pointer, \<open>body\<close> is the program's
  function, \<open>dflt\<close> the verdict on an error.
\<close>

locale iu_prog =
  fixes conv :: "u64 \<Rightarrow> 'k machine_scheme \<Rightarrow> 'c res"
    and body :: "'p \<Rightarrow> 'c \<Rightarrow> ('k, c_result) run"
    and prog_run :: "'p \<Rightarrow> u64 \<Rightarrow> ('k, u32) run"
    and dflt :: u32
  assumes prog_run_eq:
    "prog_run p ctx \<sigma> = bind_m (get_m (conv ctx)) (\<lambda>c. bind_m (res_m c) (\<lambda>c. verdict dflt (body p c))) \<sigma>"
begin

lemma run_conv_panics: "conv ctx \<sigma> = Panic q \<Longrightarrow> prog_run p ctx \<sigma> = (Panic q, \<sigma>)"
  by (simp add: prog_run_eq run_simps) (simp add: res_m_def)

lemma run_ok:
  "conv ctx \<sigma> = Ret c \<Longrightarrow> body p c \<sigma> = (Ret (Ok v), \<sigma>') \<Longrightarrow> prog_run p ctx \<sigma> = (Ret v, \<sigma>')"
  by (simp add: prog_run_eq run_simps verdict_def) (simp add: bind_m_def ret_m_def)

lemma run_err:
  "conv ctx \<sigma> = Ret c \<Longrightarrow> body p c \<sigma> = (Ret (Err e), \<sigma>') \<Longrightarrow> prog_run p ctx \<sigma> = (Ret dflt, \<sigma>')"
  by (simp add: prog_run_eq run_simps verdict_def) (simp add: bind_m_def ret_m_def)

lemma run_panics:
  "conv ctx \<sigma> = Ret c \<Longrightarrow> body p c \<sigma> = (Panic q, \<sigma>') \<Longrightarrow> prog_run p ctx \<sigma> = (Panic q, \<sigma>')"
  by (simp add: prog_run_eq run_simps verdict_def) (simp add: bind_m_def ret_m_def)

lemma run_verdict:
  assumes "conv ctx \<sigma> = Ret c"
  shows "prog_run p ctx \<sigma> =
    (case body p c \<sigma> of
       (Ret r, \<sigma>') \<Rightarrow> (Ret (case r of Ok v \<Rightarrow> v | Err e \<Rightarrow> dflt), \<sigma>')
     | (Panic q, \<sigma>') \<Rightarrow> (Panic q, \<sigma>'))"
  using run_ok [OF assms] run_err [OF assms] run_panics [OF assms]
  by (auto split: prod.splits res.splits result.splits)

end

section \<open>The entry\<close>

text \<open>
  What the kernel sees of an invocation: the verdict, or control at the landing pad with a
  message. \<open>None\<close> is "never comes back".
\<close>

datatype outcome = Returned u32 | Landed "u8 list"

definition enter ::
  "build_cfg \<Rightarrow> 'k kernel \<Rightarrow> (panic \<Rightarrow> panic_info) \<Rightarrow> 'k tables \<Rightarrow> u32 res \<times> 'k machine_scheme
   \<Rightarrow> (outcome \<times> 'k tables \<times> 'k machine_scheme) option" where
  "enter cfg K info_of tabs r =
     (case r of
        (Ret v, \<sigma>) \<Rightarrow> Some (Returned v, tabs, \<sigma>)
      | (Panic p, \<sigma>) \<Rightarrow>
          (case panic_handler cfg K info_of p tabs \<sigma> of
             None \<Rightarrow> None
           | Some (msg, tabs', \<sigma>') \<Rightarrow> Some (Landed msg, tabs', \<sigma>')))"

text \<open>
  What an invocation should come to, given how the program ended: a result becomes a verdict
  and leaves the tables alone; a panic, when the CPU's cleanup functions do not panic, becomes
  control at the landing pad with a NUL-terminated message of 128 bytes, after every entry of
  the CPU's table has run once in order, with a clean table.
\<close>

definition entry_outcome ::
  "build_cfg \<Rightarrow> 'k kernel \<Rightarrow> 'k tables \<Rightarrow> u32 \<Rightarrow> c_result res \<times> 'k machine_scheme
   \<Rightarrow> (outcome \<times> 'k tables \<times> 'k machine_scheme) option \<Rightarrow> bool" where
  "entry_outcome cfg K tabs dflt r out \<longleftrightarrow>
     (case r of
        (Ret v, \<tau>) \<Rightarrow> out = Some (Returned (unwrap_or_else v (\<lambda>_. dflt)), tabs, \<tau>)
      | (Panic p, \<tau>) \<Rightarrow>
          \<forall>a. cleanup_entries_this_cpu cfg K \<tau> = Ret a \<and> (\<forall>e\<in>set (tabs a). never_panics e) \<longrightarrow>
            (\<exists>msg. out = Some (Landed msg, tabs(a := replicate (length (tabs a)) entry_default),
               fold run_entry (tabs a) \<tau>) \<and> length msg = 128 \<and> last msg = 0))"

text \<open>The outcome of an invocation, for every program type at once.\<close>

context iu_prog
begin

lemma enter_outcome:
  assumes "conv ctx \<sigma> = Ret c"
  shows "entry_outcome cfg K tabs dflt (body p c \<sigma>) (enter cfg K info_of tabs (prog_run p ctx \<sigma>))"
proof (cases "body p c \<sigma>")
  case (Pair x \<tau>)
  show ?thesis
  proof (cases x)
    case (Ret r)
    with run_verdict [OF assms(1), of p] Pair show ?thesis
      by (simp add: entry_outcome_def enter_def split: result.split)
  next
    case (Panic q)
    have "panic_handler cfg K info_of q tabs \<tau> =
        Some (format_msg (info_of q), tabs(a := replicate (length (tabs a)) entry_default), fold run_entry (tabs a) \<tau>)"
      if "cleanup_entries_this_cpu cfg K \<tau> = Ret a" and "\<forall>e\<in>set (tabs a). never_panics e" for a
      by (rule panic_handler_clean [where tabs = tabs, OF that(1) cleanup_all_ok [OF that(2)]])
    with Panic run_panics [OF assms(1), of p q \<tau>] Pair show ?thesis
      by (auto simp: entry_outcome_def enter_def format_msg_length format_msg_last)
  qed
qed

end

end
