(* ===== verification/Base_Helper.thy ===== *)
theory Base_Helper
  imports Per_Cpu
begin

text \<open>
  \<open>base_helper.rs\<close> without the map helpers, and \<open>random32.rs\<close>'s entry point: the wrappers of
  kernel functions every program object offers, the two string comparisons, and the reads of
  per-CPU and global kernel variables. A Rust \<open>&str\<close> is its list of \<open>char\<close>s where the code
  iterates over \<open>chars()\<close>, and its list of bytes where the code passes pointer and length.
\<close>

section \<open>Kernel variables\<close>

definition bpf_get_smp_processor_id :: "'k kernel \<Rightarrow> 'k machine_scheme \<Rightarrow> u32" where
  "bpf_get_smp_processor_id K \<sigma> = this_cpu_read_u32 \<sigma> (sym_cpu_number K)"

definition bpf_jiffies64 :: "'k kernel \<Rightarrow> 'k machine_scheme \<Rightarrow> u64" where
  "bpf_jiffies64 K \<sigma> = read_once_u64 \<sigma> (sym_jiffies K)"

text \<open>The kernel variable is an \<open>int\<close>; the code reads it with \<open>this_cpu_read::<u64>\<close>.\<close>

definition bpf_get_numa_node_id :: "'k kernel \<Rightarrow> 'k machine_scheme \<Rightarrow> i64" where
  "bpf_get_numa_node_id K \<sigma> = (let i = this_cpu_read_u64 \<sigma> (sym_numa_node K) in i)"

section \<open>Wrappers of kernel functions\<close>

definition bpf_trace_printk ::
  "'k kernel \<Rightarrow> u8 list \<Rightarrow> u64 \<Rightarrow> u64 \<Rightarrow> u64 \<Rightarrow> 'k machine_scheme \<Rightarrow> c_result \<times> 'k machine_scheme" where
  "bpf_trace_printk K fmt arg1 arg2 arg3 \<sigma> =
     (let (r, \<sigma>') = k_trace_printk K fmt (of_nat (length fmt)) arg1 arg2 arg3 \<sigma>
      in (to_result r, \<sigma>'))"

text \<open>The macro \<open>bpf_printk!\<close> fills missing arguments with 0 and drops the result.\<close>

definition bpf_printk :: "'k kernel \<Rightarrow> u8 list \<Rightarrow> u64 list \<Rightarrow> 'k machine_scheme \<Rightarrow> 'k machine_scheme" where
  "bpf_printk K fmt args \<sigma> =
     (case args of
        [] \<Rightarrow> snd (bpf_trace_printk K fmt 0 0 0 \<sigma>)
      | [a1] \<Rightarrow> snd (bpf_trace_printk K fmt a1 0 0 \<sigma>)
      | [a1, a2] \<Rightarrow> snd (bpf_trace_printk K fmt a1 a2 0 \<sigma>)
      | a1 # a2 # a3 # _ \<Rightarrow> snd (bpf_trace_printk K fmt a1 a2 a3 \<sigma>))"

text \<open>The destination is a value of type \<open>T\<close>, given as its bytes; its size is \<open>size_of::<T>()\<close>.\<close>

definition bpf_probe_read_kernel ::
  "'k kernel \<Rightarrow> u8 list \<Rightarrow> u64 \<Rightarrow> 'k machine_scheme \<Rightarrow> c_result \<times> u8 list \<times> 'k machine_scheme" where
  "bpf_probe_read_kernel K dst unsafe_ptr \<sigma> =
     (let (r, dst', \<sigma>') = k_probe_read_kernel K dst (of_nat (length dst)) unsafe_ptr \<sigma>
      in (to_result r, dst', \<sigma>'))"

definition bpf_ktime_get_ns_origin :: "'k kernel \<Rightarrow> 'k machine_scheme \<Rightarrow> u64 \<times> 'k machine_scheme" where
  "bpf_ktime_get_ns_origin K \<sigma> = k_ktime_get_mono_fast_ns K \<sigma>"

definition bpf_ktime_get_boot_ns_origin :: "'k kernel \<Rightarrow> 'k machine_scheme \<Rightarrow> u64 \<times> 'k machine_scheme" where
  "bpf_ktime_get_boot_ns_origin K \<sigma> = k_ktime_get_boot_fast_ns K \<sigma>"

definition bpf_user_rnd_u32 :: "'k kernel \<Rightarrow> 'k machine_scheme \<Rightarrow> u32 \<times> 'k machine_scheme" where
  "bpf_user_rnd_u32 K \<sigma> = k_get_random_u32 K \<sigma>"

definition bpf_get_prandom_u32 :: "'k kernel \<Rightarrow> 'k machine_scheme \<Rightarrow> u32 \<times> 'k machine_scheme" where
  "bpf_get_prandom_u32 K \<sigma> = bpf_user_rnd_u32 K \<sigma>"

definition bpf_snprintf ::
  "'k kernel \<Rightarrow> u8 list \<Rightarrow> u8 list \<Rightarrow> u64 list \<Rightarrow> 'k machine_scheme \<Rightarrow> c_result \<times> u8 list \<times> 'k machine_scheme" where
  "bpf_snprintf K str fmt dat \<sigma> =
     (let (r, str', \<sigma>') = k_snprintf K str (of_nat (length str)) fmt dat (of_nat (length dat)) \<sigma>
      in (to_result_i32 r, str', \<sigma>'))"

section \<open>String comparison\<close>

type_synonym rust_char = u32

fun bpf_strcmp :: "rust_char list \<Rightarrow> rust_char list \<Rightarrow> i32" where
  "bpf_strcmp (c1 # cs1) (c2 # cs2) =
     (if c1 = c2 then bpf_strcmp cs1 cs2 else if c1 < c2 then - 1 else 1)"
| "bpf_strcmp [] (c2 # cs2) = - 1"
| "bpf_strcmp (c1 # cs1) [] = 1"
| "bpf_strcmp [] [] = 0"

text \<open>\<open>idx\<close> is the loop counter, incremented before the characters are compared.\<close>

fun strncmp_loop :: "rust_char list \<Rightarrow> rust_char list \<Rightarrow> nat \<Rightarrow> nat \<Rightarrow> i32" where
  "strncmp_loop cs1 cs2 idx cnt =
     (if idx < cnt
      then (case (cs1, cs2) of
              (c1 # cs1', c2 # cs2') \<Rightarrow>
                (if c1 = c2 then strncmp_loop cs1' cs2' (idx + 1) cnt
                 else if c1 < c2 then - 1 else 1)
            | ([], c2 # cs2') \<Rightarrow> - 1
            | (c1 # cs1', []) \<Rightarrow> 1
            | ([], []) \<Rightarrow> 0)
      else 0)"

declare strncmp_loop.simps [simp del]

definition bpf_strncmp :: "rust_char list \<Rightarrow> rust_char list \<Rightarrow> nat \<Rightarrow> i32" where
  "bpf_strncmp s1 s2 cnt = strncmp_loop s1 s2 0 cnt"

section \<open>Properties\<close>

text \<open>
  \<open>bpf_strcmp\<close> decides the lexicographic order of the two strings by code point: it
  returns 0 exactly on equal strings, -1 when the first is smaller, 1 when it is greater.
\<close>
theorem bpf_strcmp_lexicographic:
  "bpf_strcmp s t = (if s = t then 0 else if ord_class.lexordp s t then - 1 else 1)"
  by (induction s t rule: bpf_strcmp.induct) auto

lemma strncmp_loop_eq:
  "idx \<le> cnt \<Longrightarrow>
   strncmp_loop cs1 cs2 idx cnt = bpf_strcmp (take (cnt - idx) cs1) (take (cnt - idx) cs2)"
proof (induction cs1 cs2 idx cnt rule: strncmp_loop.induct)
  case (1 cs1 cs2 idx cnt)
  show ?case
  proof (cases "idx < cnt")
    case True
    then obtain d where d: "cnt - idx = Suc d" "cnt - (idx + 1) = d"
      by (metis Suc_diff_Suc Suc_eq_plus1)
    with 1 True show ?thesis
      by (subst strncmp_loop.simps) (auto split: list.splits)
  next
    case False
    with 1 show ?thesis by (subst strncmp_loop.simps) simp
  qed
qed

text \<open>
  \<open>bpf_strncmp\<close> with count \<open>n\<close> is \<open>bpf_strcmp\<close> of the first \<open>n\<close> characters.
\<close>
theorem bpf_strncmp_prefix:
  "bpf_strncmp s t n = bpf_strcmp (take n s) (take n t)"
  using strncmp_loop_eq [of 0 n s t] by (simp add: bpf_strncmp_def)

text \<open>
  \<open>bpf_get_numa_node_id\<close> reads eight bytes of a four-byte variable: the low half of its
  result is the node, the high half the four bytes that follow the variable in the per-CPU
  area. It is the sign-extended node exactly when those bytes happen to be its sign.
\<close>
theorem bpf_get_numa_node_id_high_half:
  "ucast (bpf_get_numa_node_id K \<sigma>) = this_cpu_read_u32 \<sigma> (sym_numa_node K) \<and>
   ucast (drop_bit 32 (bpf_get_numa_node_id K \<sigma>)) = this_cpu_read_u32 \<sigma> (sym_numa_node K + 4) \<and>
   (bpf_get_numa_node_id K \<sigma> = scast (this_cpu_read_u32 \<sigma> (sym_numa_node K)) \<longleftrightarrow>
      this_cpu_read_u32 \<sigma> (sym_numa_node K + 4) =
        (if this_cpu_read_u32 \<sigma> (sym_numa_node K) <s 0 then - 1 else 0))"
proof -
  let ?x = "bpf_get_numa_node_id K \<sigma>"
  let ?lo = "this_cpu_read_u32 \<sigma> (sym_numa_node K)"
  let ?hi = "this_cpu_read_u32 \<sigma> (sym_numa_node K + 4)"
  have lo: "ucast ?x = ?lo" and hi: "ucast (drop_bit 32 ?x) = ?hi"
    by (simp_all add: bpf_get_numa_node_id_def this_cpu_read_u64_def this_cpu_read_u32_def
          load_le_low_half load_le_high_half add.assoc)
  have "?x = scast ?lo \<longleftrightarrow> ucast (drop_bit 32 ?x) = (ucast (drop_bit 32 (scast ?lo :: u64)) :: u32)"
    using word_halves_eq [of ?x "scast ?lo"] lo low_half_scast [of ?lo] by simp
  with lo hi show ?thesis by (simp add: high_half_scast)
qed

end
