(* ===== verification/Map_Helpers.thy ===== *)
theory Map_Helpers
  imports Base_Helper
begin

text \<open>
  \<open>map.rs\<close> and the map and ring-buffer helpers of \<open>base_helper.rs\<close>. A map static carries the
  metadata the loader reads and the pointer \<open>kptr\<close> the loader fills in; every helper first
  reads that pointer and refuses a map that is not loaded. The contract the five updating
  helpers share is the locale \<open>map_op\<close>.
\<close>

section \<open>The map static\<close>

record iu_map =
  map_type :: u32
  key_size :: u32
  val_size :: u32
  max_size :: u32
  map_flag :: u32
  kptr :: u64

text \<open>\<open>IUMap::<MT, K, V>::new(ms, mf)\<close>, with the sizes of \<open>K\<close> and \<open>V\<close>.\<close>

definition iu_map_new :: "u32 \<Rightarrow> nat \<Rightarrow> nat \<Rightarrow> u32 \<Rightarrow> u32 \<Rightarrow> iu_map" where
  "iu_map_new mt sizeof_K sizeof_V ms mf =
     \<lparr>map_type = mt, key_size = of_nat sizeof_K, val_size = of_nat sizeof_V,
      max_size = ms, map_flag = mf, kptr = 0\<rparr>"

text \<open>
  The static that \<open>MAP_DEF!\<close> declares, as a program finds it: the loader has stored the kernel's
  pointer, 0 while the map is not loaded.
\<close>

definition MAP_DEF :: "u32 \<Rightarrow> nat \<Rightarrow> nat \<Rightarrow> u32 \<Rightarrow> u32 \<Rightarrow> u64 \<Rightarrow> iu_map" where
  "MAP_DEF mt sizeof_K sizeof_V ms mf p = (iu_map_new mt sizeof_K sizeof_V ms mf)\<lparr>kptr := p\<rparr>"

definition IUArrayMap :: "'k kernel \<Rightarrow> nat \<Rightarrow> nat \<Rightarrow> u32 \<Rightarrow> u32 \<Rightarrow> iu_map" where
  "IUArrayMap K sizeof_K sizeof_V = iu_map_new (BPF_MAP_TYPE_ARRAY K) sizeof_K sizeof_V"

definition IUHashMap :: "'k kernel \<Rightarrow> nat \<Rightarrow> nat \<Rightarrow> u32 \<Rightarrow> u32 \<Rightarrow> iu_map" where
  "IUHashMap K sizeof_K sizeof_V = iu_map_new (BPF_MAP_TYPE_HASH K) sizeof_K sizeof_V"

definition IURingBuf :: "'k kernel \<Rightarrow> u32 \<Rightarrow> u32 \<Rightarrow> iu_map" where
  "IURingBuf K = iu_map_new (BPF_MAP_TYPE_RINGBUF K) 0 0"

definition IUStackMap :: "'k kernel \<Rightarrow> nat \<Rightarrow> nat \<Rightarrow> u32 \<Rightarrow> u32 \<Rightarrow> iu_map" where
  "IUStackMap K sizeof_K sizeof_V = iu_map_new (BPF_MAP_TYPE_STACK_TRACE K) sizeof_K sizeof_V"

section \<open>The helpers\<close>

definition bpf_map_lookup_elem ::
  "'k kernel \<Rightarrow> iu_map \<Rightarrow> u8 list \<Rightarrow> 'k machine_scheme \<Rightarrow> u64 option \<times> 'k machine_scheme" where
  "bpf_map_lookup_elem K mp key \<sigma> =
     (let map_kptr = kptr mp in
      if map_kptr = 0 then (None, \<sigma>)
      else let (val, \<sigma>') = k_map_lookup_elem K map_kptr key \<sigma> in
           if val = 0 then (None, \<sigma>') else (Some val, \<sigma>'))"

definition bpf_map_update_elem ::
  "'k kernel \<Rightarrow> iu_map \<Rightarrow> u8 list \<Rightarrow> u8 list \<Rightarrow> u64 \<Rightarrow> 'k machine_scheme
   \<Rightarrow> c_result \<times> 'k machine_scheme" where
  "bpf_map_update_elem K mp key val flags \<sigma> =
     (let map_kptr = kptr mp in
      if map_kptr = 0 then (Err (EINVAL K), \<sigma>)
      else let (r, \<sigma>') = k_map_update_elem K map_kptr key val flags \<sigma> in (to_result_i32 r, \<sigma>'))"

definition bpf_map_delete_elem ::
  "'k kernel \<Rightarrow> iu_map \<Rightarrow> u8 list \<Rightarrow> 'k machine_scheme \<Rightarrow> c_result \<times> 'k machine_scheme" where
  "bpf_map_delete_elem K mp key \<sigma> =
     (let map_kptr = kptr mp in
      if map_kptr = 0 then (Err (EINVAL K), \<sigma>)
      else let (r, \<sigma>') = k_map_delete_elem K map_kptr key \<sigma> in (to_result_i32 r, \<sigma>'))"

definition bpf_map_push_elem ::
  "'k kernel \<Rightarrow> iu_map \<Rightarrow> u8 list \<Rightarrow> u64 \<Rightarrow> 'k machine_scheme \<Rightarrow> c_result \<times> 'k machine_scheme" where
  "bpf_map_push_elem K mp val flags \<sigma> =
     (let map_kptr = kptr mp in
      if map_kptr = 0 then (Err (EINVAL K), \<sigma>)
      else let (r, \<sigma>') = k_map_push_elem K map_kptr val flags \<sigma> in (to_result_i32 r, \<sigma>'))"

text \<open>The kernel writes through the value pointer of \<open>pop\<close> and \<open>peek\<close>.\<close>

definition bpf_map_pop_elem ::
  "'k kernel \<Rightarrow> iu_map \<Rightarrow> u8 list \<Rightarrow> 'k machine_scheme \<Rightarrow> c_result \<times> u8 list \<times> 'k machine_scheme" where
  "bpf_map_pop_elem K mp val \<sigma> =
     (let map_kptr = kptr mp in
      if map_kptr = 0 then (Err (EINVAL K), val, \<sigma>)
      else let (r, out) = k_map_pop_elem K map_kptr val \<sigma> in (to_result_i32 r, out))"

definition bpf_map_peek_elem ::
  "'k kernel \<Rightarrow> iu_map \<Rightarrow> u8 list \<Rightarrow> 'k machine_scheme \<Rightarrow> c_result \<times> u8 list \<times> 'k machine_scheme" where
  "bpf_map_peek_elem K mp val \<sigma> =
     (let map_kptr = kptr mp in
      if map_kptr = 0 then (Err (EINVAL K), val, \<sigma>)
      else let (r, out) = k_map_peek_elem K map_kptr val \<sigma> in (to_result_i32 r, out))"

definition bpf_ringbuf_reserve ::
  "'k kernel \<Rightarrow> iu_map \<Rightarrow> u64 \<Rightarrow> u64 \<Rightarrow> 'k machine_scheme \<Rightarrow> slice option \<times> 'k machine_scheme" where
  "bpf_ringbuf_reserve K mp sz flags \<sigma> =
     (let map_kptr = kptr mp in
      if map_kptr = 0 then (None, \<sigma>)
      else let (dat, \<sigma>') = k_ringbuf_reserve K map_kptr sz flags \<sigma> in
           if dat = 0 then (None, \<sigma>') else (Some \<lparr>sl_ptr = dat, sl_len = unat sz\<rparr>, \<sigma>'))"

definition bpf_ringbuf_submit :: "'k kernel \<Rightarrow> slice \<Rightarrow> u64 \<Rightarrow> 'k machine_scheme \<Rightarrow> 'k machine_scheme" where
  "bpf_ringbuf_submit K dat flags \<sigma> = k_ringbuf_submit K (sl_ptr dat) flags \<sigma>"

section \<open>Errors\<close>

text \<open>
  The error of a result, and what it should be: \<open>EINVAL\<close> of a map that is not loaded, else the
  kernel's code when that is negative.
\<close>

definition error_of :: "c_result \<Rightarrow> int option" where
  "error_of r = (case r of Ok v \<Rightarrow> None | Err e \<Rightarrow> Some (sint e))"

definition map_error :: "'k kernel \<Rightarrow> iu_map \<Rightarrow> i64 \<Rightarrow> int option" where
  "map_error K mp c =
     (if kptr mp = 0 then Some (sint (EINVAL K)) else if sint c < 0 then Some (sint c) else None)"

section \<open>The contract of an updating helper\<close>

text \<open>
  \<open>op\<close> is the helper and \<open>stub\<close> the kernel function behind it, both applied to the helper's
  arguments; \<open>'t\<close> is what they change, the machine state with the caller's value buffer
  where there is one.
\<close>

locale map_op =
  fixes op :: "'k kernel \<Rightarrow> iu_map \<Rightarrow> 'a \<Rightarrow> 't \<Rightarrow> c_result \<times> 't"
    and stub :: "'k kernel \<Rightarrow> u64 \<Rightarrow> 'a \<Rightarrow> 't \<Rightarrow> i64 \<times> 't"
  assumes not_loaded: "kptr mp = 0 \<Longrightarrow> op K mp a t = (Err (EINVAL K), t)"
    and loaded: "kptr mp \<noteq> 0 \<Longrightarrow>
      op K mp a t = (to_result_i32 (fst (stub K (kptr mp) a t)), snd (stub K (kptr mp) a t))"
begin

lemma ok_nonneg:
  assumes "op K mp a t = (Ok v, t')"
  shows "kptr mp \<noteq> 0 \<and> 0 \<le> sint v"
proof (cases "kptr mp = 0")
  case True
  with assms show ?thesis by (simp add: not_loaded)
next
  case False
  with assms show ?thesis
    by (auto simp: loaded to_result_i32_def to_result_def word_sless_alt split: if_splits)
qed

lemma err_cases:
  assumes "op K mp a t = (Err e, t')"
  shows "kptr mp = 0 \<and> e = EINVAL K \<and> t' = t \<or> kptr mp \<noteq> 0 \<and> sint e < 0"
proof (cases "kptr mp = 0")
  case True
  with assms show ?thesis by (simp add: not_loaded)
next
  case False
  with assms show ?thesis
    by (auto simp: loaded to_result_i32_def to_result_def word_sless_alt split: if_splits)
qed

lemma faithful_code:
  assumes "kptr mp \<noteq> 0" and "fits_i32 (fst (stub K (kptr mp) a t))"
  shows "sint (result_code (fst (op K mp a t))) = sint (fst (stub K (kptr mp) a t))"
  using assms sint_ucast_i32 [OF assms(2)]
  by (simp add: loaded to_result_i32_def to_result_code)

lemma error_eq:
  assumes "fits_i32 (fst (stub K (kptr mp) a t))"
  shows "error_of (fst (op K mp a t)) = map_error K mp (fst (stub K (kptr mp) a t))"
  using assms sint_ucast_i32 [OF assms] not_loaded [of mp K a t] loaded [of mp K a t]
  by (cases "kptr mp = 0") (simp_all add: error_of_def map_error_def to_result_i32_def to_result_def word_sless_alt)

lemma error_without_call: "kptr mp = 0 \<Longrightarrow> snd (op K mp a t) = t"
  by (simp add: not_loaded)

lemma positive_error_iff_not_loaded:
  assumes "0 < sint (EINVAL K)"
  shows "(\<exists>e. fst (op K mp a t) = Err e \<and> 0 < sint e) \<longleftrightarrow> kptr mp = 0"
proof
  assume "\<exists>e. fst (op K mp a t) = Err e \<and> 0 < sint e"
  then obtain e where "op K mp a t = (Err e, snd (op K mp a t))" and "0 < sint e"
    by (metis prod.collapse)
  with err_cases [of K mp a t e] show "kptr mp = 0" by auto
next
  assume "kptr mp = 0"
  with assms show "\<exists>e. fst (op K mp a t) = Err e \<and> 0 < sint e" by (simp add: not_loaded)
qed

end

interpretation update_op: map_op
  "\<lambda>K mp (key, val, flags) \<sigma>. bpf_map_update_elem K mp key val flags \<sigma>"
  "\<lambda>K p (key, val, flags) \<sigma>. k_map_update_elem K p key val flags \<sigma>"
  by unfold_locales (auto simp: bpf_map_update_elem_def split: prod.splits)

interpretation delete_op: map_op bpf_map_delete_elem k_map_delete_elem
  by unfold_locales (auto simp: bpf_map_delete_elem_def split: prod.splits)

interpretation push_op: map_op
  "\<lambda>K mp (val, flags) \<sigma>. bpf_map_push_elem K mp val flags \<sigma>"
  "\<lambda>K p (val, flags) \<sigma>. k_map_push_elem K p val flags \<sigma>"
  by unfold_locales (auto simp: bpf_map_push_elem_def split: prod.splits)

interpretation pop_op: map_op
  "\<lambda>K mp (a::unit) (val, \<sigma>). bpf_map_pop_elem K mp val \<sigma>"
  "\<lambda>K p (a::unit) (val, \<sigma>). k_map_pop_elem K p val \<sigma>"
  by unfold_locales (auto simp: bpf_map_pop_elem_def split: prod.splits)

interpretation peek_op: map_op
  "\<lambda>K mp (a::unit) (val, \<sigma>). bpf_map_peek_elem K mp val \<sigma>"
  "\<lambda>K p (a::unit) (val, \<sigma>). k_map_peek_elem K p val \<sigma>"
  by unfold_locales (auto simp: bpf_map_peek_elem_def split: prod.splits)

section \<open>Properties\<close>

text \<open>
  \<open>bpf_map_lookup_elem\<close> never hands out a null reference and never calls the kernel on a
  map that is not loaded: it returns \<open>Some p\<close> exactly when the map is loaded and the kernel
  returned the non-null pointer \<open>p\<close>, and leaves the state alone when the map is not loaded.
\<close>
theorem bpf_map_lookup_elem_spec:
  "(fst (bpf_map_lookup_elem K mp key \<sigma>) = Some p \<longleftrightarrow>
      kptr mp \<noteq> 0 \<and> p \<noteq> 0 \<and> fst (k_map_lookup_elem K (kptr mp) key \<sigma>) = p) \<and>
   snd (bpf_map_lookup_elem K mp key \<sigma>) =
      (if kptr mp = 0 then \<sigma> else snd (k_map_lookup_elem K (kptr mp) key \<sigma>))"
  by (auto simp: bpf_map_lookup_elem_def Let_def split: prod.splits)

text \<open>
  The update, delete and push helpers on a loaded map hand the kernel's return code
  through: \<open>Ok\<close> of a non-negative code, \<open>Err\<close> of a negative one, with the kernel's state.
\<close>
theorem map_update_returns_kernel_code:
  assumes "kptr mp \<noteq> 0" and "fits_i32 (fst (k_map_update_elem K (kptr mp) key val flags \<sigma>))"
  shows "snd (bpf_map_update_elem K mp key val flags \<sigma>) =
           snd (k_map_update_elem K (kptr mp) key val flags \<sigma>) \<and>
    sint (result_code (fst (bpf_map_update_elem K mp key val flags \<sigma>))) =
      sint (fst (k_map_update_elem K (kptr mp) key val flags \<sigma>)) \<and>
    ((\<exists>v. fst (bpf_map_update_elem K mp key val flags \<sigma>) = Ok v) \<longleftrightarrow>
      0 \<le> sint (fst (k_map_update_elem K (kptr mp) key val flags \<sigma>)))"
  using update_op.faithful_code [of mp K "(key, val, flags)" \<sigma>] assms
    sint_ucast_i32 [OF assms(2)]
  by (auto simp: bpf_map_update_elem_def to_result_i32_def to_result_def word_sless_alt
        split: prod.splits)

theorem map_update_returns_kernel_code_witness:
  "\<not> (\<exists>v. fst (bpf_map_update_elem (demo_kernel\<lparr>k_map_update_elem := (\<lambda>_ _ _ _ \<sigma>. (- 7, \<sigma>))\<rparr>)
     ((iu_map_new 1 4 8 16 0)\<lparr>kptr := 1\<rparr>) [0] [0] 0 demo_machine) = Ok v)"
  using map_update_returns_kernel_code
    [of "(iu_map_new 1 4 8 16 0)\<lparr>kptr := 1\<rparr>"
        "demo_kernel\<lparr>k_map_update_elem := (\<lambda>_ _ _ _ \<sigma>. (- 7, \<sigma>))\<rparr>" "[0]" "[0]" 0 demo_machine]
  by (simp add: fits_i32_def)

text \<open>
  The error of a map that is not loaded is \<open>+EINVAL\<close>, while every error code of the
  kernel is negative: with a positive \<open>EINVAL\<close>, the five updating helpers return a positive
  error exactly when the map is not loaded.
\<close>
theorem map_helpers_positive_error:
  assumes "0 < sint (EINVAL K)"
  shows "((\<exists>e. fst (bpf_map_update_elem K mp key val flags \<sigma>) = Err e \<and> 0 < sint e) \<longleftrightarrow> kptr mp = 0) \<and>
    ((\<exists>e. fst (bpf_map_delete_elem K mp key \<sigma>) = Err e \<and> 0 < sint e) \<longleftrightarrow> kptr mp = 0) \<and>
    ((\<exists>e. fst (bpf_map_push_elem K mp val flags \<sigma>) = Err e \<and> 0 < sint e) \<longleftrightarrow> kptr mp = 0) \<and>
    ((\<exists>e. fst (bpf_map_pop_elem K mp val \<sigma>) = Err e \<and> 0 < sint e) \<longleftrightarrow> kptr mp = 0) \<and>
    ((\<exists>e. fst (bpf_map_peek_elem K mp val \<sigma>) = Err e \<and> 0 < sint e) \<longleftrightarrow> kptr mp = 0)"
  using update_op.positive_error_iff_not_loaded [OF assms, of mp "(key, val, flags)" \<sigma>]
    delete_op.positive_error_iff_not_loaded [OF assms, of mp key \<sigma>]
    push_op.positive_error_iff_not_loaded [OF assms, of mp "(val, flags)" \<sigma>]
    pop_op.positive_error_iff_not_loaded [OF assms, of mp "(val, \<sigma>)"]
    peek_op.positive_error_iff_not_loaded [OF assms, of mp "(val, \<sigma>)"]
  by simp

theorem map_helpers_positive_error_witness:
  "\<exists>e. fst (bpf_map_delete_elem demo_kernel (iu_map_new 1 4 8 16 0) [0] demo_machine) = Err e \<and>
       0 < sint e"
  using map_helpers_positive_error [of demo_kernel "iu_map_new 1 4 8 16 0" _ _ _ demo_machine]
  by (simp add: demo_kernel_def iu_map_new_def)

end
