(* ===== verification/Perf_Event.thy ===== *)
theory Perf_Event
  imports Prog_Type Map_Helpers
begin

text \<open>
  \<open>perf_event/perf_event_impl.rs\<close>: the context of a perf-event program, a copy of the
  registers and two fields of the sample with the kernel's pointer, and the two helpers that
  pass that pointer back.
\<close>

record bpf_perf_event_data =
  pe_regs :: pt_regs
  pe_sample_period :: u64
  pe_addr :: u64
  pe_kptr :: u64

record 'k perf_event =
  pe_rtti :: u64
  pe_prog :: "bpf_perf_event_data \<Rightarrow> ('k, c_result) run"
  pe_name :: string

definition perf_event_new ::
  "'k kernel \<Rightarrow> (bpf_perf_event_data \<Rightarrow> ('k, c_result) run) \<Rightarrow> string \<Rightarrow> 'k perf_event" where
  "perf_event_new K f nm =
     \<lparr>pe_rtti = ucast (BPF_PROG_TYPE_PERF_EVENT K), pe_prog = f, pe_name = nm\<rparr>"

definition pe_convert_ctx :: "u64 \<Rightarrow> 'k machine_scheme \<Rightarrow> bpf_perf_event_data" where
  "pe_convert_ctx ctx \<sigma> =
     (let k = perf_kerns \<sigma> ctx; dat = perf_samples \<sigma> (bpe_data k) in
      \<lparr>pe_regs = pt_regss \<sigma> (bpe_regs k), pe_sample_period = psd_period dat,
       pe_addr = psd_addr dat, pe_kptr = ctx\<rparr>)"

text \<open>The buffer is a \<open>bpf_perf_event_value\<close>, as its bytes.\<close>

definition bpf_perf_prog_read_value ::
  "'k kernel \<Rightarrow> bpf_perf_event_data \<Rightarrow> u8 list \<Rightarrow> 'k machine_scheme
   \<Rightarrow> c_result \<times> u8 list \<times> 'k machine_scheme" where
  "bpf_perf_prog_read_value K ctx buf \<sigma> =
     (let (r, out) = k_perf_prog_read_value K (pe_kptr ctx) buf (sizeof_perf_event_value K) \<sigma>
      in (to_result r, out))"

definition bpf_get_stackid_pe ::
  "'k kernel \<Rightarrow> bpf_perf_event_data \<Rightarrow> iu_map \<Rightarrow> u64 \<Rightarrow> 'k machine_scheme
   \<Rightarrow> c_result \<times> 'k machine_scheme" where
  "bpf_get_stackid_pe K ctx mp flags \<sigma> =
     (let map_kptr = kptr mp in
      if map_kptr = 0 then (Err (EINVAL K), \<sigma>)
      else let (r, \<sigma>') = k_get_stackid_pe K (pe_kptr ctx) map_kptr flags \<sigma> in (to_result r, \<sigma>'))"

definition pe_bpf_get_current_task :: "'k kernel \<Rightarrow> 'k machine_scheme \<Rightarrow> TaskStruct option" where
  "pe_bpf_get_current_task K \<sigma> = get_current_task K \<sigma>"

definition pe_prog_run :: "'k perf_event \<Rightarrow> u64 \<Rightarrow> ('k, u32) run" where
  "pe_prog_run p ctx = bind_m (get_m (pe_convert_ctx ctx)) (\<lambda>newctx. verdict 0 (pe_prog p newctx))"

interpretation pe_run: iu_prog "\<lambda>ctx \<sigma>. Ret (pe_convert_ctx ctx \<sigma>)" pe_prog pe_prog_run 0
  by unfold_locales (simp add: pe_prog_run_def run_simps)

text \<open>The errors of the stack-id helper are those of the map helpers.\<close>

lemma stackid_error:
  assumes "fits_i32 (fst (k_get_stackid_pe K (pe_kptr ctx) (kptr mp) flags \<sigma>))"
  shows "error_of (fst (bpf_get_stackid_pe K ctx mp flags \<sigma>)) =
    map_error K mp (fst (k_get_stackid_pe K (pe_kptr ctx) (kptr mp) flags \<sigma>))"
  using sint_ucast_i32 [OF assms]
  by (simp add: bpf_get_stackid_pe_def error_of_def map_error_def to_result_def word_sless_alt Let_def case_prod_unfold)

lemma stackid_without_call: "kptr mp = 0 \<Longrightarrow> snd (bpf_get_stackid_pe K ctx mp flags \<sigma>) = \<sigma>"
  by (simp add: bpf_get_stackid_pe_def)

section \<open>Properties\<close>

text \<open>
  The context of a perf-event program is a snapshot of the event: its registers, period and
  address are those the kernel's record points to, and the two helpers hand the kernel back
  the pointer \<open>prog_run\<close> was given. The stack-id helper refuses a map that is not loaded
  without calling the kernel; on a loaded one it returns the kernel's code when that fits.
\<close>
theorem perf_event_helpers:
  assumes "fits_i32 (fst (k_get_stackid_pe K ctx (kptr mp) flags \<tau>))"
  shows "pe_regs (pe_convert_ctx ctx \<sigma>) = pt_regss \<sigma> (bpe_regs (perf_kerns \<sigma> ctx)) \<and>
    pe_sample_period (pe_convert_ctx ctx \<sigma>) = psd_period (perf_samples \<sigma> (bpe_data (perf_kerns \<sigma> ctx))) \<and>
    pe_addr (pe_convert_ctx ctx \<sigma>) = psd_addr (perf_samples \<sigma> (bpe_data (perf_kerns \<sigma> ctx))) \<and>
    (kptr mp = 0 \<longrightarrow>
       bpf_get_stackid_pe K (pe_convert_ctx ctx \<sigma>) mp flags \<tau> = (Err (EINVAL K), \<tau>)) \<and>
    (kptr mp \<noteq> 0 \<longrightarrow>
       snd (bpf_get_stackid_pe K (pe_convert_ctx ctx \<sigma>) mp flags \<tau>) =
         snd (k_get_stackid_pe K ctx (kptr mp) flags \<tau>) \<and>
       sint (result_code (fst (bpf_get_stackid_pe K (pe_convert_ctx ctx \<sigma>) mp flags \<tau>))) =
         sint (fst (k_get_stackid_pe K ctx (kptr mp) flags \<tau>)))"
  using sint_ucast_i32 [OF assms]
  by (simp add: pe_convert_ctx_def bpf_get_stackid_pe_def case_prod_unfold to_result_code Let_def)

theorem perf_event_helpers_witness:
  "bpf_get_stackid_pe demo_kernel (pe_convert_ctx 8 demo_machine) (IUStackMap (demo_kernel :: unit kernel) 4 8 16 0) 0
     demo_machine = (Err 22, demo_machine)"
proof -
  have k: "kptr (IUStackMap (demo_kernel :: unit kernel) 4 8 16 0) = 0" by (simp add: IUStackMap_def iu_map_new_def)
  have "fits_i32 (fst (k_get_stackid_pe demo_kernel 8 (kptr (IUStackMap (demo_kernel :: unit kernel) 4 8 16 0)) 0 demo_machine))"
    by (simp add: demo_kernel_def fits_i32_def)
  from perf_event_helpers [OF this, of demo_machine] k show ?thesis by simp
qed

end
