(* ===== verification/Kprobe.thy ===== *)
theory Kprobe
  imports Prog_Type
begin

text \<open>
  \<open>kprobe/binding.rs\<close> and \<open>kprobe/kprobe_impl.rs\<close>: the register accessors, the program type,
  \<open>bpf_override_return\<close> and \<open>prog_run\<close>. The context of a kprobe is a reference to the saved
  registers, their address in the typed heap \<open>pt_regss\<close>.
\<close>

section \<open>Registers\<close>

text \<open>
  \<open>decl_reg_accessors!\<close> generates a method of each name that returns the field of that name.
\<close>

definition decl_reg_accessors :: "(string \<times> (pt_regs \<Rightarrow> u64)) list" where
  "decl_reg_accessors =
     [(''r15'', r15), (''r14'', r14), (''r13'', r13), (''r12'', r12), (''rbp'', rbp),
      (''rbx'', rbx), (''r11'', r11), (''r10'', r10), (''r9'', r9), (''r8'', r8), (''rax'', rax),
      (''rcx'', rcx), (''rdx'', rdx), (''rsi'', rsi), (''rdi'', rdi), (''orig_rax'', orig_rax),
      (''rip'', rip), (''cs'', cs), (''eflags'', eflags), (''rsp'', rsp), (''ss'', ss)]"

text \<open>The \<open>repr(C)\<close> layout of the struct: 21 words in order of declaration.\<close>

definition pt_regs_at :: "(u64 \<Rightarrow> u8) \<Rightarrow> u64 \<Rightarrow> pt_regs" where
  "pt_regs_at m a =
     \<lparr>r15 = load_le m a, r14 = load_le m (a + 8), r13 = load_le m (a + 16),
      r12 = load_le m (a + 24), rbp = load_le m (a + 32), rbx = load_le m (a + 40),
      r11 = load_le m (a + 48), r10 = load_le m (a + 56), r9 = load_le m (a + 64),
      r8 = load_le m (a + 72), rax = load_le m (a + 80), rcx = load_le m (a + 88),
      rdx = load_le m (a + 96), rsi = load_le m (a + 104), rdi = load_le m (a + 112),
      orig_rax = load_le m (a + 120), rip = load_le m (a + 128), cs = load_le m (a + 136),
      eflags = load_le m (a + 144), rsp = load_le m (a + 152), ss = load_le m (a + 160)\<rparr>"

section \<open>The program type\<close>

record 'k kprobe =
  kp_rtti :: u64
  kp_prog :: "u64 \<Rightarrow> ('k, c_result) run"
  kp_name :: string

definition kprobe_new :: "'k kernel \<Rightarrow> (u64 \<Rightarrow> ('k, c_result) run) \<Rightarrow> string \<Rightarrow> 'k kprobe" where
  "kprobe_new K f nm = \<lparr>kp_rtti = ucast (BPF_PROG_TYPE_KPROBE K), kp_prog = f, kp_name = nm\<rparr>"

definition kp_convert_ctx :: "u64 \<Rightarrow> u64" where
  "kp_convert_ctx ctx = ctx"

definition bpf_override_return ::
  "'k kernel \<Rightarrow> u64 \<Rightarrow> u64 \<Rightarrow> 'k machine_scheme \<Rightarrow> i32 \<times> 'k machine_scheme" where
  "bpf_override_return K regs rc \<sigma> =
     (0, \<sigma>\<lparr>pt_regss := (pt_regss \<sigma>)
            (regs := (pt_regss \<sigma> regs)\<lparr>rax := rc, rip := sym_just_return_func K\<rparr>)\<rparr>)"

definition kp_prog_run :: "'k kprobe \<Rightarrow> u64 \<Rightarrow> ('k, u32) run" where
  "kp_prog_run p ctx = (let newctx = kp_convert_ctx ctx in verdict 0 (kp_prog p newctx))"

interpretation kp_run: iu_prog "\<lambda>ctx \<sigma>. Ret (kp_convert_ctx ctx)" kp_prog kp_prog_run 0
  by unfold_locales (simp add: kp_prog_run_def Let_def run_simps)

section \<open>Properties\<close>

text \<open>
  The generated accessors read the 21 words of the saved registers in the order the struct
  lays them out, and cover it: the last one ends where \<open>size_of::<pt_regs>()\<close> says.
\<close>
theorem reg_accessors_layout:
  "map (\<lambda>(name, get). get (pt_regs_at m a)) decl_reg_accessors =
     map (\<lambda>i. load_le m (a + of_nat (8 * i))) [0..<sizeof_pt_regs div 8]"
  by (simp add: decl_reg_accessors_def pt_regs_at_def sizeof_pt_regs_def upt_rec)

text \<open>
  \<open>bpf_override_return\<close> makes the probed function return \<open>rc\<close> at once: it sets \<open>rax\<close> and
  \<open>rip\<close> of the given registers and nothing else: every other register of them, every other
  saved register set and the memory keep their values.
\<close>
theorem override_return_frame:
  "fst (bpf_override_return K regs rc \<sigma>) = 0 \<and>
   rax (pt_regss (snd (bpf_override_return K regs rc \<sigma>)) regs) = rc \<and>
   rip (pt_regss (snd (bpf_override_return K regs rc \<sigma>)) regs) = sym_just_return_func K \<and>
   (\<forall>(name, get) \<in> set decl_reg_accessors. name \<noteq> ''rax'' \<and> name \<noteq> ''rip'' \<longrightarrow>
      get (pt_regss (snd (bpf_override_return K regs rc \<sigma>)) regs) = get (pt_regss \<sigma> regs)) \<and>
   (\<forall>a. a \<noteq> regs \<longrightarrow> pt_regss (snd (bpf_override_return K regs rc \<sigma>)) a = pt_regss \<sigma> a) \<and>
   mem (snd (bpf_override_return K regs rc \<sigma>)) = mem \<sigma>"
  by (simp add: bpf_override_return_def decl_reg_accessors_def)

theorem override_return_frame_witness:
  "rdi (pt_regss (snd (bpf_override_return demo_kernel 8 5 demo_machine)) 8) = 0 \<and>
   rax (pt_regss (snd (bpf_override_return demo_kernel 8 5 demo_machine)) 8) = 5"
  using override_return_frame [of demo_kernel 8 5 demo_machine]
  by (simp add: decl_reg_accessors_def) (simp add: demo_machine_def)

end
