(* ===== verification/Perf_Memory.thy ===== *)
theory Perf_Memory
  imports Perf_Types Perf_Event Kprobe
begin

text \<open>
  The perf-event context read off the byte memory. The typed heaps of the machine give the
  kernel's structs by address; here they are tied to the bytes at the offsets the layouts of
  theory Perf_Types give, so the context conversion is a chain of loads.
\<close>

section \<open>Structs in memory\<close>

definition load_field :: "(u64 \<Rightarrow> u8) \<Rightarrow> cty \<Rightarrow> string \<Rightarrow> u64 \<Rightarrow> u64" where
  "load_field m t fld a = (case offset_of t fld of Some off \<Rightarrow> load_le m (a + of_nat off) | None \<Rightarrow> 0)"

definition perf_kern_at :: "(u64 \<Rightarrow> u8) \<Rightarrow> u64 \<Rightarrow> bpf_perf_event_data_kern" where
  "perf_kern_at m a =
     \<lparr>bpe_regs = load_field m bpf_perf_event_data_kern_ty ''regs'' a,
      bpe_data = load_field m bpf_perf_event_data_kern_ty ''data'' a,
      bpe_event = load_field m bpf_perf_event_data_kern_ty ''event'' a\<rparr>"

definition perf_sample_at :: "(u64 \<Rightarrow> u8) \<Rightarrow> u64 \<Rightarrow> perf_sample_data" where
  "perf_sample_at m a =
     \<lparr>psd_addr = load_field m perf_sample_data_ty ''addr'' a,
      psd_period = load_field m perf_sample_data_ty ''period'' a\<rparr>"

text \<open>The heaps of a machine are what its memory holds.\<close>

definition perf_views :: "'k machine_scheme \<Rightarrow> bool" where
  "perf_views \<sigma> \<longleftrightarrow>
     perf_kerns \<sigma> = perf_kern_at (mem \<sigma>) \<and> perf_samples \<sigma> = perf_sample_at (mem \<sigma>) \<and>
     pt_regss \<sigma> = pt_regs_at (mem \<sigma>)"

section \<open>Properties\<close>

text \<open>
  The two register structs of the crate, of kprobes and of perf events, have the same
  accessors: each finds its register at the same place.
\<close>
lemma reg_accessors_agree:
  "pe_reg_accessor nm m a = map_option (\<lambda>get. get (pt_regs_at m a)) (map_of decl_reg_accessors nm)"
  by (simp add: pe_reg_accessor_def decl_reg_accessors_def pt_regs_at_def layout_eval)

text \<open>
  On a machine whose kernel structs are what its memory holds, the context of a perf-event
  program is a chain of loads at the bindings' offsets: the event's period and address are
  the words at 24 and 0 behind the sample pointer, which is the second word at the context,
  and every register accessor of the context is the accessor applied behind the first word.
\<close>
theorem perf_context_loads:
  assumes "perf_views \<sigma>"
  shows "pe_sample_period (pe_convert_ctx ctx \<sigma>) = load_le (mem \<sigma>) (load_le (mem \<sigma>) (ctx + 8) + 24) \<and>
    pe_addr (pe_convert_ctx ctx \<sigma>) = load_le (mem \<sigma>) (load_le (mem \<sigma>) (ctx + 8)) \<and>
    (\<forall>(nm, get) \<in> set decl_reg_accessors.
       pe_reg_accessor nm (mem \<sigma>) (load_le (mem \<sigma>) ctx) = Some (get (pe_regs (pe_convert_ctx ctx \<sigma>))))"
proof -
  have o: "offset_of perf_sample_data_ty ''addr'' = Some 0"
    "offset_of perf_sample_data_ty ''period'' = Some 24"
    "offset_of bpf_perf_event_data_kern_ty ''regs'' = Some 0"
    "offset_of bpf_perf_event_data_kern_ty ''data'' = Some 8"
    by (simp_all add: layout_eval)
  have "distinct (map fst decl_reg_accessors)" by (simp add: decl_reg_accessors_def)
  then have r: "pe_reg_accessor nm m a = Some (get (pt_regs_at m a))"
    if "(nm, get) \<in> set decl_reg_accessors" for nm get m a
    using that by (simp add: reg_accessors_agree)
  from assms r show ?thesis
    by (auto simp: perf_views_def pe_convert_ctx_def perf_kern_at_def perf_sample_at_def
        load_field_def o)
qed

theorem perf_context_loads_witness:
  "pe_sample_period (pe_convert_ctx 0x1000 (demo_machine\<lparr>mem := (\<lambda>_. 1),
     perf_kerns := perf_kern_at (\<lambda>_. 1), perf_samples := perf_sample_at (\<lambda>_. 1),
     pt_regss := pt_regs_at (\<lambda>_. 1)\<rparr>)) = 0x0101010101010101"
proof -
  let ?\<sigma> = "demo_machine\<lparr>mem := (\<lambda>_. 1), perf_kerns := perf_kern_at (\<lambda>_. 1),
     perf_samples := perf_sample_at (\<lambda>_. 1), pt_regss := pt_regs_at (\<lambda>_. 1)\<rparr>"
  have "perf_views ?\<sigma>" by (simp add: perf_views_def)
  moreover have "load_le (\<lambda>_. 1) a = (0x0101010101010101 :: u64)" for a
    by (simp add: load_le_def load_bytes_def upt_rec horner_sum_simps)
  ultimately show ?thesis using perf_context_loads [of ?\<sigma> "0x1000"] by simp
qed

end
