(* ===== verification/Struct_Filter.thy ===== *)
theory Struct_Filter
  imports Utils
begin

text \<open>
  The procedural macros of \<open>struct_filter/src/lib.rs\<close>: the syntactic type check of
  \<open>#[derive(FieldTransmute)]\<close>, the code it generates (one trait-bound check per field), and
  the attribute macro \<open>entry_link\<close>. A struct is accepted when the macro generates code and
  the compiler accepts the generated trait bounds.
\<close>

section \<open>The macros\<close>

text \<open>The identifiers \<open>type_checking\<close> matches, in its order.\<close>

definition numeric_idents :: "string list" where
  "numeric_idents = [''u8'', ''i8'', ''i16'', ''u16'', ''i32'', ''u32'', ''i64'', ''u64'']"

definition type_checking :: "string list \<Rightarrow> bool res" where
  "type_checking segments =
     (if segments = [] then Panic UnwrapOnNone
      else Ret (last segments \<in> set numeric_idents))"

fun field_type_check :: "syn_type \<Rightarrow> (unit, string) result res" where
  "field_type_check (TPath p) =
     and_then (type_checking p) (\<lambda>ok.
       if \<not> ok then Ret (Err ''All fields must be numeric type'') else Ret (Ok ()))"
| "field_type_check (TArray elem) = field_type_check elem"
| "field_type_check (TReference elem) = field_type_check elem"
| "field_type_check TOther = Ret (Err ''All fields must be validate type'')"

datatype fields = Named "(string \<times> syn_type) list" | Unnamed "syn_type list" | Unit

datatype data = Struct fields | Enum | Union

text \<open>
  The macro looks at the name and the data of its input only; its \<open>impl\<close> has no generic
  parameters, so the model is for structs without any.
\<close>

record derive_input =
  di_ident :: string
  di_data :: data

text \<open>
  What the macro returns: a compile error, or an \<open>impl\<close> whose \<open>new\<close> opens with one
  \<open>direct_packet_access_ok::<T>()\<close> for each listed type.
\<close>

datatype expansion = CompileError string | Impl string "syn_type list"

fun check_fields :: "(string \<times> syn_type) list \<Rightarrow> string option res" where
  "check_fields [] = Ret None"
| "check_fields ((n, ty) # fs) =
     and_then (field_type_check ty) (\<lambda>r.
       case r of Err e \<Rightarrow> Ret (Some e) | Ok _ \<Rightarrow> check_fields fs)"

definition first_pass :: "data \<Rightarrow> string option res" where
  "first_pass d = (case d of Struct (Named fs) \<Rightarrow> check_fields fs | _ \<Rightarrow> Ret None)"

text \<open>The second loop unwraps every field's identifier; a tuple struct's fields have none.\<close>

definition fields_tokens :: "data \<Rightarrow> syn_type list res" where
  "fields_tokens d =
     (case d of
        Struct (Named fs) \<Rightarrow> Ret (map snd fs)
      | Struct (Unnamed (ty # tys)) \<Rightarrow> Panic UnwrapOnNone
      | _ \<Rightarrow> Ret [])"

definition ensure_numberic :: "derive_input \<Rightarrow> expansion res" where
  "ensure_numberic ast =
     and_then (first_pass (di_data ast)) (\<lambda>err.
       case err of Some e \<Rightarrow> Ret (CompileError e)
       | None \<Rightarrow> and_then (fields_tokens (di_data ast)) (\<lambda>tys. Ret (Impl (di_ident ast) tys)))"

text \<open>The derive and the generated code compile: no panic of the macro, no error, all bounds hold.\<close>

definition derive_accepted :: "(string list \<Rightarrow> string option) \<Rightarrow> derive_input \<Rightarrow> bool" where
  "derive_accepted resolve ast =
     (case ensure_numberic ast of
        Ret (Impl _ tys) \<Rightarrow> list_all (direct_packet_access_ok resolve) tys
      | _ \<Rightarrow> False)"

datatype attribute = LinkSection string | Used | OtherAttr string

record item_static =
  attrs :: "attribute list"
  item_name :: string

definition entry_link :: "string list \<Rightarrow> item_static \<Rightarrow> item_static" where
  "entry_link attr item =
     item\<lparr>attrs := (attrs item @ [LinkSection (concat attr)]) @ [Used]\<rparr>"

section \<open>What is accepted\<close>

text \<open>The types a packet may be read as: an integer type, or an array of one.\<close>

definition packet_type :: "(string list \<Rightarrow> string option) \<Rightarrow> syn_type \<Rightarrow> bool" where
  "packet_type resolve ty \<longleftrightarrow>
     (\<exists>p n. (ty = TPath p \<or> ty = TArray (TPath p)) \<and> resolve p = Some n \<and> n \<in> set numeric_idents)"

lemma scalar_names_eq: "set scalar_names = set numeric_idents"
  by (auto simp: scalar_names_def numeric_idents_def)

lemma direct_packet_access_ok_iff: "direct_packet_access_ok resolve ty \<longleftrightarrow> packet_type resolve ty"
  by (auto simp: direct_packet_access_ok_def direct_packet_access_ok_impl_def packet_type_def
        direct_packet_access_ok_impl_arr_def scalar_names_eq split: syn_type.splits option.splits)

text \<open>Paths are never empty, and a path that ends in a numeric identifier is what resolution keeps.\<close>

fun paths_nonempty :: "syn_type \<Rightarrow> bool" where
  "paths_nonempty (TPath p) = (p \<noteq> [])"
| "paths_nonempty (TArray t) = paths_nonempty t"
| "paths_nonempty (TReference t) = paths_nonempty t"
| "paths_nonempty TOther = True"

fun base_path :: "syn_type \<Rightarrow> string list option" where
  "base_path (TPath p) = Some p"
| "base_path (TArray t) = base_path t"
| "base_path (TReference t) = base_path t"
| "base_path TOther = None"

lemma field_type_check_iff:
  "paths_nonempty ty \<Longrightarrow>
   field_type_check ty = Ret (Ok ()) \<longleftrightarrow>
     (\<exists>p. base_path ty = Some p \<and> last p \<in> set numeric_idents)"
  by (induction ty rule: field_type_check.induct) (auto simp: type_checking_def)

lemma field_type_check_total:
  "paths_nonempty ty \<Longrightarrow> \<exists>r. field_type_check ty = Ret r"
  by (induction ty rule: field_type_check.induct) (auto simp: type_checking_def)

lemma check_fields_iff:
  "\<forall>(n, ty)\<in>set fs. paths_nonempty ty \<Longrightarrow>
   check_fields fs = Ret None \<longleftrightarrow> (\<forall>(n, ty)\<in>set fs. field_type_check ty = Ret (Ok ()))"
proof (induction fs rule: check_fields.induct)
  case 1
  then show ?case by simp
next
  case (2 n ty fs)
  then obtain r where r: "field_type_check ty = Ret r"
    using field_type_check_total by fastforce
  with 2 show ?case by (cases r) auto
qed

text \<open>
  C38: A struct with named fields is accepted by \<open>derive(FieldTransmute)\<close> exactly when every
  field's type ends (under arrays and references) in a numeric identifier and is an integer
  type or a one-dimensional array of one: the syntactic check lets references and nested
  arrays through, and the generated trait bounds reject them.
\<close>
theorem derive_struct_accepted_iff:
  assumes "\<forall>(n, ty)\<in>set fs. paths_nonempty ty"
  shows "derive_accepted resolve \<lparr>di_ident = s, di_data = Struct (Named fs)\<rparr> \<longleftrightarrow>
    (\<forall>(n, ty)\<in>set fs. packet_type resolve ty \<and>
       (\<exists>p. base_path ty = Some p \<and> last p \<in> set numeric_idents))"
proof (cases "check_fields fs = Ret None")
  case True
  then have "derive_accepted resolve \<lparr>di_ident = s, di_data = Struct (Named fs)\<rparr> \<longleftrightarrow>
      (\<forall>(n, ty)\<in>set fs. packet_type resolve ty)"
    by (auto simp: derive_accepted_def ensure_numberic_def first_pass_def fields_tokens_def
          list_all_iff direct_packet_access_ok_iff)
  with True check_fields_iff [OF assms] field_type_check_iff assms show ?thesis by fastforce
next
  case False
  then have "\<not> derive_accepted resolve \<lparr>di_ident = s, di_data = Struct (Named fs)\<rparr>"
    by (cases "check_fields fs")
       (auto simp: derive_accepted_def ensure_numberic_def first_pass_def split: option.splits)
  with False check_fields_iff [OF assms] field_type_check_iff assms show ?thesis by fastforce
qed

theorem derive_struct_accepted_iff_witness:
  "derive_accepted (\<lambda>p. if length p = 1 then Some (hd p) else None)
     \<lparr>di_ident = ''hdr'', di_data = Struct (Named [(''op'', TPath [''u8'']), (''key'', TArray (TPath [''u16'']))])\<rparr> \<and>
   \<not> derive_accepted (\<lambda>p. if length p = 1 then Some (hd p) else None)
     \<lparr>di_ident = ''hdr'', di_data = Struct (Named [(''r'', TReference (TPath [''u8'']))])\<rparr>"
  using derive_struct_accepted_iff
      [of "[(''op'', TPath [''u8'']), (''key'', TArray (TPath [''u16'']))]"
          "\<lambda>p. if length p = 1 then Some (hd p) else None" "''hdr''"]
    derive_struct_accepted_iff
      [of "[(''r'', TReference (TPath [''u8'']))]"
          "\<lambda>p. if length p = 1 then Some (hd p) else None" "''hdr''"]
  by (simp add: packet_type_def numeric_idents_def)

text \<open>
  Only structs are checked. A tuple struct with a field makes the macro panic, so it is
  rejected; but an enum or a union is accepted whatever its variants hold, and its generated
  \<open>new\<close> then casts arbitrary bytes to it.
\<close>
theorem derive_non_struct:
  "\<not> derive_accepted resolve \<lparr>di_ident = s, di_data = Struct (Unnamed (ty # tys))\<rparr> \<and>
   derive_accepted resolve \<lparr>di_ident = s, di_data = Enum\<rparr> \<and>
   derive_accepted resolve \<lparr>di_ident = s, di_data = Union\<rparr>"
  by (simp add: derive_accepted_def ensure_numberic_def first_pass_def fields_tokens_def)

end
