(* ===== verification/Random32.thy ===== *)
theory Random32
  imports Prelude
begin

text \<open>
  \<open>random32.rs\<close>: the four-component Tausworthe generator \<open>prandom_u32_state\<close>. Two properties
  matter: a step is linear over exclusive or, and it keeps the components above the bounds the
  kernel seeds them with (2, 8, 16, 128), so that no component ever degenerates to a fixed
  point.
\<close>

unbundle bit_operations_syntax

record rnd_state =
  s1 :: u32
  s2 :: u32
  s3 :: u32
  s4 :: u32

definition TAUSWORTHE :: "u32 \<Rightarrow> nat \<Rightarrow> nat \<Rightarrow> u32 \<Rightarrow> nat \<Rightarrow> u32" where
  "TAUSWORTHE s a b c d = push_bit d (s AND c) XOR drop_bit b (push_bit a s XOR s)"

definition prandom_u32_state :: "rnd_state \<Rightarrow> u32 \<times> rnd_state" where
  "prandom_u32_state state =
     (let state = state\<lparr>s1 := TAUSWORTHE (s1 state) 6 13 4294967294 18\<rparr>;
          state = state\<lparr>s2 := TAUSWORTHE (s2 state) 2 27 4294967288 2\<rparr>;
          state = state\<lparr>s3 := TAUSWORTHE (s3 state) 13 21 4294967280 7\<rparr>;
          state = state\<lparr>s4 := TAUSWORTHE (s4 state) 3 12 4294967168 13\<rparr>
      in (s1 state XOR s2 state XOR s3 state XOR s4 state, state))"

section \<open>Linearity\<close>

lemma TAUSWORTHE_xor:
  "TAUSWORTHE (s XOR t) a b c d = TAUSWORTHE s a b c d XOR TAUSWORTHE t a b c d"
  by (rule bit_word_eqI)
     (auto simp: TAUSWORTHE_def bit_xor_iff bit_and_iff bit_push_bit_iff bit_drop_bit_eq)

definition rnd_xor :: "rnd_state \<Rightarrow> rnd_state \<Rightarrow> rnd_state" where
  "rnd_xor s t = \<lparr>s1 = s1 s XOR s1 t, s2 = s2 s XOR s2 t, s3 = s3 s XOR s3 t, s4 = s4 s XOR s4 t\<rparr>"

text \<open>
  A step of the generator is linear over exclusive or: the output and the next state of
  the exclusive or of two states are the exclusive ors of theirs.
\<close>
theorem prandom_linear:
  "prandom_u32_state (rnd_xor s t) =
     (fst (prandom_u32_state s) XOR fst (prandom_u32_state t),
      rnd_xor (snd (prandom_u32_state s)) (snd (prandom_u32_state t)))"
  by (simp add: prandom_u32_state_def rnd_xor_def TAUSWORTHE_xor Let_def ac_simps)

section \<open>Seed bounds\<close>

lemma unat_2p_u32: "k < 32 \<Longrightarrow> unat (2 ^ k :: u32) = 2 ^ k"
proof -
  assume "k < 32"
  then have "(2::nat) ^ k < 2 ^ 32" by (intro power_strict_increasing) auto
  then have "unat (of_nat (2 ^ k) :: u32) = 2 ^ k"
    by (simp only: unat_of_nat) simp
  then show ?thesis by simp
qed

lemma less_exp_iff_bits:
  assumes k: "k < 32"
  shows "(s :: u32) < 2 ^ k \<longleftrightarrow> (\<forall>j<32. k \<le> j \<longrightarrow> \<not> bit s j)"
proof -
  have "s < 2 ^ k \<longleftrightarrow> unat s < 2 ^ k"
    unfolding word_less_nat_alt unat_2p_u32 [OF k] ..
  also have "\<dots> \<longleftrightarrow> take_bit k (unat s) = unat s"
    by (rule take_bit_nat_eq_self_iff [symmetric])
  also have "\<dots> \<longleftrightarrow> unat (take_bit k s) = unat s"
    by (simp only: unsigned_take_bit_eq)
  also have "\<dots> \<longleftrightarrow> take_bit k s = s"
    by (metis word_unat_eq_iff)
  also have "\<dots> \<longleftrightarrow> (\<forall>j<32. k \<le> j \<longrightarrow> \<not> bit s j)"
    by (auto simp: bit_eq_iff bit_take_bit_iff)
  finally show ?thesis .
qed

text \<open>
  One component: the mask clears the low \<open>k\<close> bits, and \<open>d + k + b = 32\<close> makes the two shifted
  parts meet without overlap. If the new value had no bit from \<open>k\<close> up, neither had the old
  one: its bits \<open>k\<close> to \<open>k + b - 1\<close> move up unchanged, and each higher bit must equal the one
  \<open>a\<close> positions below it.
\<close>

lemma TAUSWORTHE_bit_high:
  assumes "d + k + b = 32" and "k \<le> j" and "j < k + b"
  shows "bit (TAUSWORTHE s a b (NOT (mask k)) d) (j + d) \<longleftrightarrow> bit s j"
proof -
  have "\<not> bit s (b + (j + d))"
    using assms bit_imp_le_length [of s "b + (j + d)"] by auto
  with assms show ?thesis
    by (auto simp: TAUSWORTHE_def bit_xor_iff bit_and_iff bit_push_bit_iff bit_drop_bit_eq
          bit_not_iff bit_mask_iff)
qed

lemma TAUSWORTHE_bit_low:
  assumes "d + k + b = 32" and "a \<le> b" and "j < d + k"
  shows "bit (TAUSWORTHE s a b (NOT (mask k)) d) j \<longleftrightarrow> bit s (j + b - a) \<noteq> bit s (j + b)"
  using assms
  by (auto simp: TAUSWORTHE_def bit_xor_iff bit_and_iff bit_push_bit_iff bit_drop_bit_eq
        bit_not_iff bit_mask_iff add.commute)

lemma TAUSWORTHE_lower_bound:
  assumes dkb: "d + k + b = 32" and ab: "0 < a" "a \<le> b" and s: "2 ^ k \<le> s" and k: "k < 32"
  shows "2 ^ k \<le> TAUSWORTHE s a b (NOT (mask k)) d"
proof (rule ccontr)
  let ?t = "TAUSWORTHE s a b (NOT (mask k)) d"
  assume "\<not> 2 ^ k \<le> ?t"
  then have t: "\<not> bit ?t j" if "k \<le> j" "j < 32" for j
    using that less_exp_iff_bits [OF k, of ?t] by (auto simp: not_le)
  have "\<not> bit s j" if "k \<le> j" "j < 32" for j
    using that
  proof (induction j rule: less_induct)
    case (less j)
    show ?case
    proof (cases "j < k + b")
      case True
      with less.prems t [of "j + d"] dkb TAUSWORTHE_bit_high [OF dkb] show ?thesis by auto
    next
      case False
      then have "bit ?t (j - b) \<longleftrightarrow> bit s (j - a) \<noteq> bit s j"
        using TAUSWORTHE_bit_low [OF dkb ab(2), of "j - b" s] less.prems dkb by auto
      moreover have "\<not> bit ?t (j - b)" using False less.prems by (intro t) auto
      moreover have "\<not> bit s (j - a)" using False less.prems ab by (intro less.IH) auto
      ultimately show ?thesis by simp
    qed
  qed
  then have "s < 2 ^ k" using less_exp_iff_bits [OF k] by auto
  with s show False by simp
qed

definition seeded :: "rnd_state \<Rightarrow> bool" where
  "seeded s \<longleftrightarrow> 2 \<le> s1 s \<and> 8 \<le> s2 s \<and> 16 \<le> s3 s \<and> 128 \<le> s4 s"

text \<open>
  C37: A step keeps every component at or above its seed bound, so the generator never reaches
  a state with a degenerate component from a properly seeded one.
\<close>
theorem prandom_keeps_seeded:
  assumes "seeded s"
  shows "seeded (snd (prandom_u32_state s))"
proof -
  have masks: "(4294967294 :: u32) = NOT (mask 1)" "(4294967288 :: u32) = NOT (mask 3)"
    "(4294967280 :: u32) = NOT (mask 4)" "(4294967168 :: u32) = NOT (mask 7)"
    by (simp_all add: mask_eq_exp_minus_1)
  have "2 \<le> TAUSWORTHE (s1 s) 6 13 4294967294 18"
    using TAUSWORTHE_lower_bound [of 18 1 13 6 "s1 s"] assms unfolding masks by (simp add: seeded_def)
  moreover have "8 \<le> TAUSWORTHE (s2 s) 2 27 4294967288 2"
    using TAUSWORTHE_lower_bound [of 2 3 27 2 "s2 s"] assms unfolding masks by (simp add: seeded_def)
  moreover have "16 \<le> TAUSWORTHE (s3 s) 13 21 4294967280 7"
    using TAUSWORTHE_lower_bound [of 7 4 21 13 "s3 s"] assms unfolding masks by (simp add: seeded_def)
  moreover have "128 \<le> TAUSWORTHE (s4 s) 3 12 4294967168 13"
    using TAUSWORTHE_lower_bound [of 13 7 12 3 "s4 s"] assms unfolding masks by (simp add: seeded_def)
  ultimately show ?thesis
    by (simp add: prandom_u32_state_def Let_def seeded_def)
qed

theorem prandom_keeps_seeded_witness:
  "seeded (snd (prandom_u32_state \<lparr>s1 = 2, s2 = 8, s3 = 16, s4 = 128\<rparr>))"
  by (rule prandom_keeps_seeded) (simp add: seeded_def)

end
