(* ===== verification/Helper_Methods.thy ===== *)
theory Helper_Methods
  imports Map_Helpers
begin

text \<open>
  The macro \<open>base_helper_defs!\<close> of \<open>base_helper.rs\<close>: the methods it puts into every program
  type, one field per method, each forwarding to the function of the same name. A program
  reaches the kernel through these methods only. What a method call asks of the kernel is
  written down apart from the code (\<open>request\<close>), and so is what it makes of the answer
  (\<open>conclude\<close>); a program's calls are then shown to be those requests, served in order.
\<close>

record 'k base_helpers =
  m_get_smp_processor_id :: "'k machine_scheme \<Rightarrow> u32"
  m_trace_printk :: "u8 list \<Rightarrow> u64 \<Rightarrow> u64 \<Rightarrow> u64 \<Rightarrow> 'k machine_scheme \<Rightarrow> c_result \<times> 'k machine_scheme"
  m_map_lookup_elem :: "iu_map \<Rightarrow> u8 list \<Rightarrow> 'k machine_scheme \<Rightarrow> u64 option \<times> 'k machine_scheme"
  m_map_update_elem :: "iu_map \<Rightarrow> u8 list \<Rightarrow> u8 list \<Rightarrow> u64 \<Rightarrow> 'k machine_scheme \<Rightarrow> c_result \<times> 'k machine_scheme"
  m_map_delete_elem :: "iu_map \<Rightarrow> u8 list \<Rightarrow> 'k machine_scheme \<Rightarrow> c_result \<times> 'k machine_scheme"
  m_map_push_elem :: "iu_map \<Rightarrow> u8 list \<Rightarrow> u64 \<Rightarrow> 'k machine_scheme \<Rightarrow> c_result \<times> 'k machine_scheme"
  m_map_pop_elem :: "iu_map \<Rightarrow> u8 list \<Rightarrow> 'k machine_scheme \<Rightarrow> c_result \<times> u8 list \<times> 'k machine_scheme"
  m_map_peek_elem :: "iu_map \<Rightarrow> u8 list \<Rightarrow> 'k machine_scheme \<Rightarrow> c_result \<times> u8 list \<times> 'k machine_scheme"
  m_probe_read_kernel :: "u8 list \<Rightarrow> u64 \<Rightarrow> 'k machine_scheme \<Rightarrow> c_result \<times> u8 list \<times> 'k machine_scheme"
  m_get_numa_node_id :: "'k machine_scheme \<Rightarrow> i64"
  m_ktime_get_ns_origin :: "'k machine_scheme \<Rightarrow> u64 \<times> 'k machine_scheme"
  m_ktime_get_boot_ns_origin :: "'k machine_scheme \<Rightarrow> u64 \<times> 'k machine_scheme"
  m_get_prandom_u32 :: "'k machine_scheme \<Rightarrow> u32 \<times> 'k machine_scheme"
  m_snprintf :: "u8 list \<Rightarrow> u8 list \<Rightarrow> u64 list \<Rightarrow> 'k machine_scheme \<Rightarrow> c_result \<times> u8 list \<times> 'k machine_scheme"
  m_ringbuf_reserve :: "iu_map \<Rightarrow> u64 \<Rightarrow> u64 \<Rightarrow> 'k machine_scheme \<Rightarrow> slice option \<times> 'k machine_scheme"
  m_ringbuf_submit :: "slice \<Rightarrow> u64 \<Rightarrow> 'k machine_scheme \<Rightarrow> 'k machine_scheme"

definition base_helper_defs :: "'k kernel \<Rightarrow> 'k base_helpers" where
  "base_helper_defs K = \<lparr>
     m_get_smp_processor_id = bpf_get_smp_processor_id K,
     m_trace_printk = bpf_trace_printk K,
     m_map_lookup_elem = bpf_map_lookup_elem K,
     m_map_update_elem = bpf_map_update_elem K,
     m_map_delete_elem = bpf_map_delete_elem K,
     m_map_push_elem = bpf_map_push_elem K,
     m_map_pop_elem = bpf_map_pop_elem K,
     m_map_peek_elem = bpf_map_peek_elem K,
     m_probe_read_kernel = bpf_probe_read_kernel K,
     m_get_numa_node_id = bpf_get_numa_node_id K,
     m_ktime_get_ns_origin = bpf_ktime_get_ns_origin K,
     m_ktime_get_boot_ns_origin = bpf_ktime_get_boot_ns_origin K,
     m_get_prandom_u32 = bpf_get_prandom_u32 K,
     m_snprintf = bpf_snprintf K,
     m_ringbuf_reserve = bpf_ringbuf_reserve K,
     m_ringbuf_submit = bpf_ringbuf_submit K\<rparr>"

lemmas method_defs = bpf_get_smp_processor_id_def bpf_trace_printk_def bpf_map_lookup_elem_def
  bpf_map_update_elem_def bpf_map_delete_elem_def bpf_map_push_elem_def bpf_map_pop_elem_def
  bpf_map_peek_elem_def bpf_probe_read_kernel_def bpf_get_numa_node_id_def
  bpf_ktime_get_ns_origin_def bpf_ktime_get_boot_ns_origin_def bpf_get_prandom_u32_def
  bpf_user_rnd_u32_def bpf_snprintf_def bpf_ringbuf_reserve_def bpf_ringbuf_submit_def

section \<open>Calls of the kernel\<close>

text \<open>
  The functions of the kernel with the arguments they are called with (pointers, lengths and
  all), and the two reads of kernel variables; and what comes back, before any conversion.
\<close>

datatype stub_call =
    K_trace_printk "u8 list" u32 u64 u64 u64
  | K_map_lookup u64 "u8 list"
  | K_map_update u64 "u8 list" "u8 list" u64
  | K_map_delete u64 "u8 list"
  | K_map_push u64 "u8 list" u64
  | K_map_pop u64 "u8 list"
  | K_map_peek u64 "u8 list"
  | K_probe_read "u8 list" u32 u64
  | K_ktime_mono
  | K_ktime_boot
  | K_random_u32
  | K_snprintf "u8 list" u32 "u8 list" "u64 list" u32
  | K_ringbuf_reserve u64 u64 u64
  | K_ringbuf_submit u64 u64
  | K_percpu_u32 u64
  | K_percpu_u64 u64

datatype raw = Raw u64 | Raw32 u32 | Raw_buf i64 "u8 list" | Nothing

fun stub :: "'k kernel \<Rightarrow> stub_call \<Rightarrow> 'k machine_scheme \<Rightarrow> raw \<times> 'k machine_scheme" where
  "stub K (K_trace_printk fmt n a b c) \<sigma> = (let (r, \<tau>) = k_trace_printk K fmt n a b c \<sigma> in (Raw r, \<tau>))"
| "stub K (K_map_lookup p key) \<sigma> = (let (r, \<tau>) = k_map_lookup_elem K p key \<sigma> in (Raw r, \<tau>))"
| "stub K (K_map_update p key val flags) \<sigma> =
     (let (r, \<tau>) = k_map_update_elem K p key val flags \<sigma> in (Raw r, \<tau>))"
| "stub K (K_map_delete p key) \<sigma> = (let (r, \<tau>) = k_map_delete_elem K p key \<sigma> in (Raw r, \<tau>))"
| "stub K (K_map_push p val flags) \<sigma> = (let (r, \<tau>) = k_map_push_elem K p val flags \<sigma> in (Raw r, \<tau>))"
| "stub K (K_map_pop p val) \<sigma> = (let (r, out, \<tau>) = k_map_pop_elem K p val \<sigma> in (Raw_buf r out, \<tau>))"
| "stub K (K_map_peek p val) \<sigma> = (let (r, out, \<tau>) = k_map_peek_elem K p val \<sigma> in (Raw_buf r out, \<tau>))"
| "stub K (K_probe_read dst n src) \<sigma> =
     (let (r, out, \<tau>) = k_probe_read_kernel K dst n src \<sigma> in (Raw_buf r out, \<tau>))"
| "stub K K_ktime_mono \<sigma> = (let (r, \<tau>) = k_ktime_get_mono_fast_ns K \<sigma> in (Raw r, \<tau>))"
| "stub K K_ktime_boot \<sigma> = (let (r, \<tau>) = k_ktime_get_boot_fast_ns K \<sigma> in (Raw r, \<tau>))"
| "stub K K_random_u32 \<sigma> = (let (r, \<tau>) = k_get_random_u32 K \<sigma> in (Raw32 r, \<tau>))"
| "stub K (K_snprintf str n fmt dat cnt) \<sigma> =
     (let (r, out, \<tau>) = k_snprintf K str n fmt dat cnt \<sigma> in (Raw_buf r out, \<tau>))"
| "stub K (K_ringbuf_reserve p sz flags) \<sigma> =
     (let (r, \<tau>) = k_ringbuf_reserve K p sz flags \<sigma> in (Raw r, \<tau>))"
| "stub K (K_ringbuf_submit a flags) \<sigma> = (Nothing, k_ringbuf_submit K a flags \<sigma>)"
| "stub K (K_percpu_u32 a) \<sigma> = (Raw32 (this_cpu_read_u32 \<sigma> a), \<sigma>)"
| "stub K (K_percpu_u64 a) \<sigma> = (Raw (this_cpu_read_u64 \<sigma> a), \<sigma>)"

section \<open>Calls of the methods\<close>

datatype helper_call =
    Get_smp_processor_id
  | Trace_printk "u8 list" u64 u64 u64
  | Map_lookup iu_map "u8 list"
  | Map_update iu_map "u8 list" "u8 list" u64
  | Map_delete iu_map "u8 list"
  | Map_push iu_map "u8 list" u64
  | Map_pop iu_map "u8 list"
  | Map_peek iu_map "u8 list"
  | Probe_read "u8 list" u64
  | Get_numa_node_id
  | Ktime_mono
  | Ktime_boot
  | Random_u32
  | Snprintf "u8 list" "u8 list" "u64 list"
  | Ringbuf_reserve iu_map u64 u64
  | Ringbuf_submit slice u64

datatype reply = Result c_result | Result_buf c_result "u8 list" | Reference "u64 option"
  | Slice "slice option" | Num u64 | Num32 u32 | No_reply

fun invoke :: "'k base_helpers \<Rightarrow> helper_call \<Rightarrow> 'k machine_scheme \<Rightarrow> reply \<times> 'k machine_scheme" where
  "invoke H Get_smp_processor_id \<sigma> = (Num32 (m_get_smp_processor_id H \<sigma>), \<sigma>)"
| "invoke H (Trace_printk fmt a b c) \<sigma> = (let (r, \<tau>) = m_trace_printk H fmt a b c \<sigma> in (Result r, \<tau>))"
| "invoke H (Map_lookup mp key) \<sigma> = (let (r, \<tau>) = m_map_lookup_elem H mp key \<sigma> in (Reference r, \<tau>))"
| "invoke H (Map_update mp key val flags) \<sigma> =
     (let (r, \<tau>) = m_map_update_elem H mp key val flags \<sigma> in (Result r, \<tau>))"
| "invoke H (Map_delete mp key) \<sigma> = (let (r, \<tau>) = m_map_delete_elem H mp key \<sigma> in (Result r, \<tau>))"
| "invoke H (Map_push mp val flags) \<sigma> = (let (r, \<tau>) = m_map_push_elem H mp val flags \<sigma> in (Result r, \<tau>))"
| "invoke H (Map_pop mp val) \<sigma> = (let (r, out, \<tau>) = m_map_pop_elem H mp val \<sigma> in (Result_buf r out, \<tau>))"
| "invoke H (Map_peek mp val) \<sigma> = (let (r, out, \<tau>) = m_map_peek_elem H mp val \<sigma> in (Result_buf r out, \<tau>))"
| "invoke H (Probe_read dst src) \<sigma> =
     (let (r, out, \<tau>) = m_probe_read_kernel H dst src \<sigma> in (Result_buf r out, \<tau>))"
| "invoke H Get_numa_node_id \<sigma> = (Num (m_get_numa_node_id H \<sigma>), \<sigma>)"
| "invoke H Ktime_mono \<sigma> = (let (r, \<tau>) = m_ktime_get_ns_origin H \<sigma> in (Num r, \<tau>))"
| "invoke H Ktime_boot \<sigma> = (let (r, \<tau>) = m_ktime_get_boot_ns_origin H \<sigma> in (Num r, \<tau>))"
| "invoke H Random_u32 \<sigma> = (let (r, \<tau>) = m_get_prandom_u32 H \<sigma> in (Num32 r, \<tau>))"
| "invoke H (Snprintf str fmt dat) \<sigma> =
     (let (r, out, \<tau>) = m_snprintf H str fmt dat \<sigma> in (Result_buf r out, \<tau>))"
| "invoke H (Ringbuf_reserve mp sz flags) \<sigma> =
     (let (r, \<tau>) = m_ringbuf_reserve H mp sz flags \<sigma> in (Slice r, \<tau>))"
| "invoke H (Ringbuf_submit s flags) \<sigma> = (No_reply, m_ringbuf_submit H s flags \<sigma>)"

fun run_methods :: "'k base_helpers \<Rightarrow> helper_call list \<Rightarrow> 'k machine_scheme \<Rightarrow> reply list \<times> 'k machine_scheme" where
  "run_methods H [] \<sigma> = ([], \<sigma>)"
| "run_methods H (m # ms) \<sigma> =
     (let (r, \<tau>) = invoke H m \<sigma>; (rs, \<rho>) = run_methods H ms \<tau> in (r # rs, \<rho>))"

section \<open>What a method promises\<close>

text \<open>
  The call of the kernel a method call stands for, if any: none on a map that is not loaded;
  lengths are those of the buffers; a slice is its pointer.
\<close>

definition on_loaded :: "iu_map \<Rightarrow> (u64 \<Rightarrow> stub_call) \<Rightarrow> stub_call option" where
  "on_loaded mp c = (if kptr mp = 0 then None else Some (c (kptr mp)))"

fun request :: "'k kernel \<Rightarrow> helper_call \<Rightarrow> stub_call option" where
  "request K Get_smp_processor_id = Some (K_percpu_u32 (sym_cpu_number K))"
| "request K (Trace_printk fmt a b c) = Some (K_trace_printk fmt (of_nat (length fmt)) a b c)"
| "request K (Map_lookup mp key) = on_loaded mp (\<lambda>p. K_map_lookup p key)"
| "request K (Map_update mp key val flags) = on_loaded mp (\<lambda>p. K_map_update p key val flags)"
| "request K (Map_delete mp key) = on_loaded mp (\<lambda>p. K_map_delete p key)"
| "request K (Map_push mp val flags) = on_loaded mp (\<lambda>p. K_map_push p val flags)"
| "request K (Map_pop mp val) = on_loaded mp (\<lambda>p. K_map_pop p val)"
| "request K (Map_peek mp val) = on_loaded mp (\<lambda>p. K_map_peek p val)"
| "request K (Probe_read dst src) = Some (K_probe_read dst (of_nat (length dst)) src)"
| "request K Get_numa_node_id = Some (K_percpu_u64 (sym_numa_node K))"
| "request K Ktime_mono = Some K_ktime_mono"
| "request K Ktime_boot = Some K_ktime_boot"
| "request K Random_u32 = Some K_random_u32"
| "request K (Snprintf str fmt dat) =
     Some (K_snprintf str (of_nat (length str)) fmt dat (of_nat (length dat)))"
| "request K (Ringbuf_reserve mp sz flags) = on_loaded mp (\<lambda>p. K_ringbuf_reserve p sz flags)"
| "request K (Ringbuf_submit s flags) = Some (K_ringbuf_submit (sl_ptr s) flags)"

text \<open>
  A code is an error when negative, by its sign as a \<open>long\<close> (\<open>from_long\<close>) or as the \<open>int\<close> in its
  low half (\<open>from_int\<close>); the value kept is the low half.
\<close>

definition from_long :: "i64 \<Rightarrow> c_result" where
  "from_long r = (if bit r 63 then Err (ucast r) else Ok (ucast r))"

definition from_int :: "i64 \<Rightarrow> c_result" where
  "from_int r = (if bit r 31 then Err (ucast r) else Ok (ucast r))"

text \<open>What the method makes of the answer: \<open>None\<close> when the kernel was not called.\<close>

definition result_of :: "'k kernel \<Rightarrow> raw option \<Rightarrow> reply" where
  "result_of K ans = Result (case ans of Some (Raw r) \<Rightarrow> from_int r | _ \<Rightarrow> Err (EINVAL K))"

definition buf_result_of :: "'k kernel \<Rightarrow> u8 list \<Rightarrow> raw option \<Rightarrow> reply" where
  "buf_result_of K buf ans =
     (case ans of Some (Raw_buf r out) \<Rightarrow> Result_buf (from_int r) out | _ \<Rightarrow> Result_buf (Err (EINVAL K)) buf)"

fun word_of :: "raw option \<Rightarrow> u64" where
  "word_of (Some (Raw r)) = r"
| "word_of _ = 0"

fun half_of :: "raw option \<Rightarrow> u32" where
  "half_of (Some (Raw32 r)) = r"
| "half_of _ = 0"

fun conclude :: "'k kernel \<Rightarrow> helper_call \<Rightarrow> raw option \<Rightarrow> reply" where
  "conclude K Get_smp_processor_id ans = Num32 (half_of ans)"
| "conclude K (Trace_printk fmt a b c) ans = Result (from_long (word_of ans))"
| "conclude K (Map_lookup mp key) ans = Reference (if word_of ans = 0 then None else Some (word_of ans))"
| "conclude K (Map_update mp key val flags) ans = result_of K ans"
| "conclude K (Map_delete mp key) ans = result_of K ans"
| "conclude K (Map_push mp val flags) ans = result_of K ans"
| "conclude K (Map_pop mp val) ans = buf_result_of K val ans"
| "conclude K (Map_peek mp val) ans = buf_result_of K val ans"
| "conclude K (Probe_read dst src) ans =
     (case ans of Some (Raw_buf r out) \<Rightarrow> Result_buf (from_long r) out | _ \<Rightarrow> No_reply)"
| "conclude K Get_numa_node_id ans = Num (word_of ans)"
| "conclude K Ktime_mono ans = Num (word_of ans)"
| "conclude K Ktime_boot ans = Num (word_of ans)"
| "conclude K Random_u32 ans = Num32 (half_of ans)"
| "conclude K (Snprintf str fmt dat) ans = buf_result_of K str ans"
| "conclude K (Ringbuf_reserve mp sz flags) ans =
     Slice (if word_of ans = 0 then None else Some \<lparr>sl_ptr = word_of ans, sl_len = unat sz\<rparr>)"
| "conclude K (Ringbuf_submit s flags) ans = No_reply"

lemmas conclude_defs = result_of_def buf_result_of_def

text \<open>The kernel serves a list of calls.\<close>

fun serve :: "'k kernel \<Rightarrow> stub_call option list \<Rightarrow> 'k machine_scheme \<Rightarrow> raw option list \<times> 'k machine_scheme" where
  "serve K [] \<sigma> = ([], \<sigma>)"
| "serve K (None # reqs) \<sigma> = (let (rs, \<tau>) = serve K reqs \<sigma> in (None # rs, \<tau>))"
| "serve K (Some c # reqs) \<sigma> = (let (r, \<tau>) = stub K c \<sigma>; (rs, \<rho>) = serve K reqs \<tau> in (Some r # rs, \<rho>))"

section \<open>Lemmas\<close>

lemma from_long_eq: "to_result r = from_long r"
  by (simp add: to_result_def from_long_def word_sless_alt flip: bit_last_iff)

lemma from_int_eq: "to_result_i32 r = from_int r"
  by (simp add: to_result_i32_def to_result_def from_int_def word_sless_alt bit_ucast_iff flip: bit_last_iff)

lemma invoke_eq:
  "invoke (base_helper_defs K) m \<sigma> =
     (case request K m of
        None \<Rightarrow> (conclude K m None, \<sigma>)
      | Some c \<Rightarrow> (let (r, \<tau>) = stub K c \<sigma> in (conclude K m (Some r), \<tau>)))"
  by (cases m) (simp_all add: base_helper_defs_def method_defs on_loaded_def conclude_defs from_long_eq from_int_eq
    Let_def case_prod_unfold)

section \<open>Properties\<close>

text \<open>
  C22: A program that reaches the kernel through the helper methods makes exactly the kernel
  calls its method calls stand for, in its order, each with the arguments it gave (the map's
  kernel pointer, the buffers and their lengths), and none for a map that is not loaded; the
  replies it sees are made of the kernel's answers alone, and so is the machine it leaves.
\<close>
theorem helper_methods_forward:
  "run_methods (base_helper_defs K) ms \<sigma> =
     (let (answers, \<tau>) = serve K (map (request K) ms) \<sigma> in (map2 (conclude K) ms answers, \<tau>))"
  by (induction ms arbitrary: \<sigma>) (simp_all add: invoke_eq Let_def split: prod.split option.split)

end
