(* ===== verification/Typed_Map.thy ===== *)
theory Typed_Map
  imports Map_Helpers
begin

text \<open>
  A map as the program sees it: a dictionary from keys to values, where a lookup gives a
  reference into the kernel's memory that the program reads and writes. The kernel keeps an
  element in a slot; what it promises of its slots is the contract \<open>map_env\<close>. The file proves
  that the helpers with that contract are a dictionary, and what the references allow beyond
  it: two of them to one value, and one kept after its element is gone.
\<close>

section \<open>The kernel's slots\<close>

type_synonym 'k slots = "'k machine_scheme \<Rightarrow> u8 list \<Rightarrow> u64 option"

abbreviation vsize :: "iu_map \<Rightarrow> nat" where
  "vsize mp \<equiv> unat (val_size mp)"

abbreviation ksize :: "iu_map \<Rightarrow> nat" where
  "ksize mp \<equiv> unat (key_size mp)"

text \<open>No slot is at the null address, and the values in two slots share no byte.\<close>

definition slots_ok :: "iu_map \<Rightarrow> 'k slots \<Rightarrow> 'k machine_scheme \<Rightarrow> bool" where
  "slots_ok mp slots \<sigma> \<longleftrightarrow>
     (\<forall>key a. slots \<sigma> key = Some a \<longrightarrow> a \<noteq> 0 \<and>
        (\<forall>key' b. slots \<sigma> key' = Some b \<and> key' \<noteq> key \<longrightarrow>
           (\<forall>i<vsize mp. vsize mp \<le> unat (b + of_nat i - a))))"

definition same_values :: "iu_map \<Rightarrow> 'k slots \<Rightarrow> u8 list set \<Rightarrow> 'k machine_scheme \<Rightarrow> 'k machine_scheme \<Rightarrow> bool" where
  "same_values mp slots keys \<sigma> \<tau> \<longleftrightarrow>
     (\<forall>key a. key \<in> keys \<and> slots \<sigma> key = Some a \<longrightarrow>
        load_bytes (mem \<tau>) a (vsize mp) = load_bytes (mem \<sigma>) a (vsize mp))"

text \<open>
  The contract, for keys and values of the sizes the map declares: a lookup returns the slot
  and changes none; an update that returns 0 leaves the key in some slot with the value, one
  that fails changes nothing; a deletion frees the slot of a key that has one; and the
  program's writes to a value do not move slots. Error codes are negative and fit an \<open>i32\<close>.
\<close>

definition lookup_env :: "'k kernel \<Rightarrow> iu_map \<Rightarrow> 'k slots \<Rightarrow> bool" where
  "lookup_env K mp slots \<longleftrightarrow>
     (\<forall>key \<sigma>. length key = ksize mp \<longrightarrow>
        (case k_map_lookup_elem K (kptr mp) key \<sigma> of (a, \<tau>) \<Rightarrow>
           a = (case slots \<sigma> key of Some a \<Rightarrow> a | None \<Rightarrow> 0) \<and>
           slots \<tau> = slots \<sigma> \<and> same_values mp slots UNIV \<sigma> \<tau>))"

definition update_env :: "'k kernel \<Rightarrow> iu_map \<Rightarrow> 'k slots \<Rightarrow> bool" where
  "update_env K mp slots \<longleftrightarrow>
     (\<forall>key val flags \<sigma>. length key = ksize mp \<and> length val = vsize mp \<longrightarrow>
        (case k_map_update_elem K (kptr mp) key val flags \<sigma> of (r, \<tau>) \<Rightarrow>
           (slots_ok mp slots \<sigma> \<longrightarrow> slots_ok mp slots \<tau>) \<and>
           (if r = 0 then (\<exists>a. slots \<tau> = (slots \<sigma>)(key \<mapsto> a) \<and> load_bytes (mem \<tau>) a (vsize mp) = val) \<and>
              same_values mp slots (- {key}) \<sigma> \<tau>
            else fits_i32 r \<and> sint r < 0 \<and> slots \<tau> = slots \<sigma> \<and> same_values mp slots UNIV \<sigma> \<tau>)))"

definition delete_env :: "'k kernel \<Rightarrow> iu_map \<Rightarrow> 'k slots \<Rightarrow> bool" where
  "delete_env K mp slots \<longleftrightarrow>
     (\<forall>key \<sigma>. length key = ksize mp \<longrightarrow>
        (case k_map_delete_elem K (kptr mp) key \<sigma> of (r, \<tau>) \<Rightarrow>
           slots \<tau> = (slots \<sigma>)(key := None) \<and> same_values mp slots (- {key}) \<sigma> \<tau> \<and>
           (if slots \<sigma> key \<noteq> None then r = 0 else fits_i32 r \<and> sint r < 0)))"

definition store_env :: "iu_map \<Rightarrow> 'k slots \<Rightarrow> bool" where
  "store_env mp slots \<longleftrightarrow>
     (\<forall>\<sigma> key a bs. slots \<sigma> key = Some a \<and> length bs = vsize mp \<longrightarrow>
        slots (\<sigma>\<lparr>mem := store_bytes (mem \<sigma>) a bs\<rparr>) = slots \<sigma>)"

definition map_env :: "'k kernel \<Rightarrow> iu_map \<Rightarrow> 'k slots \<Rightarrow> bool" where
  "map_env K mp slots \<longleftrightarrow>
     lookup_env K mp slots \<and> update_env K mp slots \<and> delete_env K mp slots \<and> store_env mp slots"

text \<open>What the map holds.\<close>

definition dict :: "iu_map \<Rightarrow> 'k slots \<Rightarrow> 'k machine_scheme \<Rightarrow> u8 list \<Rightarrow> u8 list option" where
  "dict mp slots \<sigma> key = map_option (\<lambda>a. load_bytes (mem \<sigma>) a (vsize mp)) (slots \<sigma> key)"

section \<open>Programs on a map, and on a dictionary\<close>

text \<open>
  \<open>Write key v\<close> is \<open>if let Some(r) = bpf_map_lookup_elem(&MAP, &key) { *r = v; }\<close>, \<open>Get\<close> reads
  through the reference.
\<close>

datatype map_cmd =
    Get "u8 list"
  | Put "u8 list" "u8 list" u64
  | Del "u8 list"
  | Write "u8 list" "u8 list"

datatype map_obs = Got "u8 list option" | Done c_result | Wrote bool

fun run_cmd :: "'k kernel \<Rightarrow> iu_map \<Rightarrow> map_cmd \<Rightarrow> 'k machine_scheme \<Rightarrow> map_obs \<times> 'k machine_scheme" where
  "run_cmd K mp (Get key) \<sigma> =
     (let (r, \<tau>) = bpf_map_lookup_elem K mp key \<sigma>
      in (Got (map_option (\<lambda>a. load_bytes (mem \<tau>) a (vsize mp)) r), \<tau>))"
| "run_cmd K mp (Put key val flags) \<sigma> =
     (let (r, \<tau>) = bpf_map_update_elem K mp key val flags \<sigma> in (Done r, \<tau>))"
| "run_cmd K mp (Del key) \<sigma> = (let (r, \<tau>) = bpf_map_delete_elem K mp key \<sigma> in (Done r, \<tau>))"
| "run_cmd K mp (Write key val) \<sigma> =
     (let (r, \<tau>) = bpf_map_lookup_elem K mp key \<sigma> in
      case r of None \<Rightarrow> (Wrote False, \<tau>)
      | Some a \<Rightarrow> (Wrote True, \<tau>\<lparr>mem := store_bytes (mem \<tau>) a val\<rparr>))"

fun run_cmds :: "'k kernel \<Rightarrow> iu_map \<Rightarrow> map_cmd list \<Rightarrow> 'k machine_scheme \<Rightarrow> map_obs list \<times> 'k machine_scheme" where
  "run_cmds K mp [] \<sigma> = ([], \<sigma>)"
| "run_cmds K mp (c # cmds) \<sigma> =
     (let (ob, \<tau>) = run_cmd K mp c \<sigma>; (obs, \<rho>) = run_cmds K mp cmds \<tau> in (ob # obs, \<rho>))"

text \<open>Keys and values of types \<open>K\<close> and \<open>V\<close> have their sizes.\<close>

fun typed_cmd :: "nat \<Rightarrow> nat \<Rightarrow> map_cmd \<Rightarrow> bool" where
  "typed_cmd ks vs (Get key) = (length key = ks)"
| "typed_cmd ks vs (Put key val flags) = (length key = ks \<and> length val = vs)"
| "typed_cmd ks vs (Del key) = (length key = ks)"
| "typed_cmd ks vs (Write key val) = (length key = ks \<and> length val = vs)"

text \<open>The dictionary: an update may fail, everything else is determined.\<close>

inductive dict_step ::
  "(u8 list \<Rightarrow> u8 list option) \<Rightarrow> map_cmd \<Rightarrow> map_obs \<Rightarrow> (u8 list \<Rightarrow> u8 list option) \<Rightarrow> bool" where
  get: "dict_step d (Get key) (Got (d key)) d"
| put: "dict_step d (Put key val flags) (Done (Ok 0)) (d(key \<mapsto> val))"
| put_fails: "dict_step d (Put key val flags) (Done (Err e)) d"
| del: "d key \<noteq> None \<Longrightarrow> dict_step d (Del key) (Done (Ok 0)) (d(key := None))"
| del_absent: "d key = None \<Longrightarrow> dict_step d (Del key) (Done (Err e)) d"
| wrote: "d key \<noteq> None \<Longrightarrow> dict_step d (Write key val) (Wrote True) (d(key \<mapsto> val))"
| not_wrote: "d key = None \<Longrightarrow> dict_step d (Write key val) (Wrote False) d"

fun dict_steps ::
  "(u8 list \<Rightarrow> u8 list option) \<Rightarrow> map_cmd list \<Rightarrow> map_obs list \<Rightarrow> (u8 list \<Rightarrow> u8 list option) \<Rightarrow> bool" where
  "dict_steps d [] obs d' = (obs = [] \<and> d' = d)"
| "dict_steps d (c # cmds) [] d' = False"
| "dict_steps d (c # cmds) (ob # obs) d' = (\<exists>e. dict_step d c ob e \<and> dict_steps e cmds obs d')"

section \<open>Lemmas\<close>

lemma vsize_small: "vsize mp < 2 ^ 32"
  using unsigned_less [of "val_size mp", where ?'a = nat] by simp

lemma load_stored:
  "length bs = n \<Longrightarrow> n < 2 ^ 32 \<Longrightarrow> load_bytes (store_bytes m a bs) a n = bs"
  using load_store_same [of bs m a] by simp

lemma dict_same:
  assumes "slots \<tau> = slots \<sigma>" and "same_values mp slots UNIV \<sigma> \<tau>"
  shows "dict mp slots \<tau> = dict mp slots \<sigma>" and "slots_ok mp slots \<tau> = slots_ok mp slots \<sigma>"
proof -
  show "dict mp slots \<tau> = dict mp slots \<sigma>"
  proof
    fix k
    show "dict mp slots \<tau> k = dict mp slots \<sigma> k"
      using assms by (cases "slots \<sigma> k") (simp_all add: dict_def same_values_def)
  qed
  show "slots_ok mp slots \<tau> = slots_ok mp slots \<sigma>"
    using assms(1) by (simp add: slots_ok_def)
qed

lemma dict_put:
  assumes "slots \<tau> = (slots \<sigma>)(key \<mapsto> a)" and "load_bytes (mem \<tau>) a (vsize mp) = val"
    and "same_values mp slots (- {key}) \<sigma> \<tau>"
  shows "dict mp slots \<tau> = (dict mp slots \<sigma>)(key \<mapsto> val)"
proof
  fix k
  show "dict mp slots \<tau> k = ((dict mp slots \<sigma>)(key \<mapsto> val)) k"
    using assms by (cases "slots \<sigma> k") (auto simp: dict_def same_values_def)
qed

lemma dict_del:
  assumes "slots \<tau> = (slots \<sigma>)(key := None)" and "same_values mp slots (- {key}) \<sigma> \<tau>"
  shows "dict mp slots \<tau> = (dict mp slots \<sigma>)(key := None)"
    and "slots_ok mp slots \<sigma> \<Longrightarrow> slots_ok mp slots \<tau>"
proof -
  show "dict mp slots \<tau> = (dict mp slots \<sigma>)(key := None)"
  proof
    fix k
    show "dict mp slots \<tau> k = ((dict mp slots \<sigma>)(key := None)) k"
      using assms by (cases "slots \<sigma> k") (auto simp: dict_def same_values_def)
  qed
  show "slots_ok mp slots \<sigma> \<Longrightarrow> slots_ok mp slots \<tau>"
    using assms(1) by (simp add: slots_ok_def)
qed

text \<open>A write through the reference to a key's value.\<close>

lemma dict_store:
  assumes "store_env mp slots" and "slots_ok mp slots \<sigma>" and a: "slots \<sigma> key = Some a"
    and len: "length bs = vsize mp"
  shows "dict mp slots (\<sigma>\<lparr>mem := store_bytes (mem \<sigma>) a bs\<rparr>) = (dict mp slots \<sigma>)(key \<mapsto> bs)"
    and "slots_ok mp slots (\<sigma>\<lparr>mem := store_bytes (mem \<sigma>) a bs\<rparr>)"
proof -
  let ?\<tau> = "\<sigma>\<lparr>mem := store_bytes (mem \<sigma>) a bs\<rparr>"
  have sl: "slots ?\<tau> = slots \<sigma>" using assms unfolding store_env_def by blast
  have own: "load_bytes (store_bytes (mem \<sigma>) a bs) a (vsize mp) = bs"
    using load_store_same [of bs "mem \<sigma>" a] len vsize_small [of mp] by simp
  have other: "load_bytes (store_bytes (mem \<sigma>) a bs) b (vsize mp) = load_bytes (mem \<sigma>) b (vsize mp)"
    if "slots \<sigma> k = Some b" and "k \<noteq> key" for k b
    using assms(2) a len that unfolding load_bytes_eq_iff slots_ok_def
    by (metis store_bytes_outside)
  show "dict mp slots ?\<tau> = (dict mp slots \<sigma>)(key \<mapsto> bs)"
  proof
    fix k
    show "dict mp slots ?\<tau> k = ((dict mp slots \<sigma>)(key \<mapsto> bs)) k"
      using sl own other a by (cases "slots \<sigma> k") (auto simp: dict_def)
  qed
  show "slots_ok mp slots ?\<tau>" using assms(2) sl by (simp add: slots_ok_def)
qed

text \<open>The contract at one call.\<close>

lemma lookup_envD:
  assumes "lookup_env K mp slots" and "length key = ksize mp"
    and "k_map_lookup_elem K (kptr mp) key \<sigma> = (a, \<tau>)"
  shows "a = (case slots \<sigma> key of Some a \<Rightarrow> a | None \<Rightarrow> 0) \<and> slots \<tau> = slots \<sigma> \<and>
    same_values mp slots UNIV \<sigma> \<tau>"
  using assms(1) [unfolded lookup_env_def, rule_format, of key \<sigma>] assms(2,3) by simp

lemma update_envD:
  assumes "update_env K mp slots" and "length key = ksize mp \<and> length val = vsize mp"
    and "k_map_update_elem K (kptr mp) key val flags \<sigma> = (r, \<tau>)"
  shows "(slots_ok mp slots \<sigma> \<longrightarrow> slots_ok mp slots \<tau>) \<and>
    (if r = 0 then (\<exists>a. slots \<tau> = (slots \<sigma>)(key \<mapsto> a) \<and> load_bytes (mem \<tau>) a (vsize mp) = val) \<and>
       same_values mp slots (- {key}) \<sigma> \<tau>
     else fits_i32 r \<and> sint r < 0 \<and> slots \<tau> = slots \<sigma> \<and> same_values mp slots UNIV \<sigma> \<tau>)"
  using assms(1) [unfolded update_env_def, rule_format, of key val \<sigma> flags] assms(2,3) by simp

lemma delete_envD:
  assumes "delete_env K mp slots" and "length key = ksize mp"
    and "k_map_delete_elem K (kptr mp) key \<sigma> = (r, \<tau>)"
  shows "slots \<tau> = (slots \<sigma>)(key := None) \<and> same_values mp slots (- {key}) \<sigma> \<tau> \<and>
    (if slots \<sigma> key \<noteq> None then r = 0 else fits_i32 r \<and> sint r < 0)"
  using assms(1) [unfolded delete_env_def, rule_format, of key \<sigma>] assms(2,3) by simp

text \<open>The lookup helper: the reference it gives is the slot of the key.\<close>

lemma lookup_slot:
  assumes "lookup_env K mp slots" and "slots_ok mp slots \<sigma>" and "kptr mp \<noteq> 0"
    and "length key = ksize mp" and r: "bpf_map_lookup_elem K mp key \<sigma> = (r, \<tau>)"
  shows "r = slots \<sigma> key \<and> slots \<tau> = slots \<sigma> \<and> dict mp slots \<tau> = dict mp slots \<sigma> \<and> slots_ok mp slots \<tau>"
proof -
  obtain a where k: "k_map_lookup_elem K (kptr mp) key \<sigma> = (a, \<tau>)" and "r = (if a = 0 then None else Some a)"
    using r assms(3) by (auto simp: bpf_map_lookup_elem_def Let_def split: prod.splits if_splits)
  moreover have "a = (case slots \<sigma> key of Some a \<Rightarrow> a | None \<Rightarrow> 0)" and sl: "slots \<tau> = slots \<sigma>"
    and sv: "same_values mp slots UNIV \<sigma> \<tau>"
    using lookup_envD [OF assms(1,4) k] by blast+
  ultimately have "r = slots \<sigma> key" using assms(2) by (auto simp: slots_ok_def split: option.split)
  with sl sv dict_same [OF sl sv] assms(2) show ?thesis by simp
qed

lemma code_ok: "to_result_i32 0 = Ok 0"
  by (simp add: to_result_i32_def to_result_def)

lemma code_err:
  assumes "fits_i32 r" and "sint r < 0"
  shows "\<exists>e. to_result_i32 r = Err e"
  using assms sint_ucast_i32 [OF assms(1)] by (simp add: to_result_i32_def to_result_def word_sless_alt)

text \<open>An update and a deletion, through the helpers.\<close>

lemma put_refines:
  assumes "update_env K mp slots" and "slots_ok mp slots \<sigma>" and "kptr mp \<noteq> 0"
    and "length key = ksize mp \<and> length val = vsize mp"
    and run: "bpf_map_update_elem K mp key val flags \<sigma> = (res, \<tau>)"
  shows "slots_ok mp slots \<tau> \<and>
    (res = Ok 0 \<and> dict mp slots \<tau> = (dict mp slots \<sigma>)(key \<mapsto> val) \<or>
     (\<exists>e. res = Err e) \<and> dict mp slots \<tau> = dict mp slots \<sigma>)"
proof -
  obtain r where r: "k_map_update_elem K (kptr mp) key val flags \<sigma> = (r, \<tau>)" and res: "res = to_result_i32 r"
    using run assms(3) by (auto simp: bpf_map_update_elem_def Let_def split: prod.splits)
  note u = update_envD [OF assms(1,4) r]
  show ?thesis
  proof (cases "r = 0")
    case True
    with u dict_put [of slots \<tau> \<sigma> key] have "dict mp slots \<tau> = (dict mp slots \<sigma>)(key \<mapsto> val)" by auto
    with u assms(2) res True show ?thesis by (simp add: code_ok)
  next
    case False
    with u dict_same(1) [of slots \<tau> \<sigma> mp] code_err [of r] assms(2) res show ?thesis by auto
  qed
qed

lemma del_refines:
  assumes "delete_env K mp slots" and "slots_ok mp slots \<sigma>" and "kptr mp \<noteq> 0"
    and "length key = ksize mp" and run: "bpf_map_delete_elem K mp key \<sigma> = (res, \<tau>)"
  shows "slots_ok mp slots \<tau> \<and> dict mp slots \<tau> = (dict mp slots \<sigma>)(key := None) \<and>
    (if dict mp slots \<sigma> key = None then \<exists>e. res = Err e else res = Ok 0)"
proof -
  obtain r where r: "k_map_delete_elem K (kptr mp) key \<sigma> = (r, \<tau>)" and res: "res = to_result_i32 r"
    using run assms(3) by (auto simp: bpf_map_delete_elem_def Let_def split: prod.splits)
  from delete_envD [OF assms(1,4) r]
  have sl: "slots \<tau> = (slots \<sigma>)(key := None)" and sv: "same_values mp slots (- {key}) \<sigma> \<tau>"
    and c: "if slots \<sigma> key \<noteq> None then r = 0 else fits_i32 r \<and> sint r < 0" by blast+
  have "if dict mp slots \<sigma> key = None then \<exists>e. res = Err e else res = Ok 0"
    using c code_err [of r] res by (cases "slots \<sigma> key") (simp_all add: dict_def code_ok)
  with dict_del [OF sl sv] assms(2) show ?thesis by simp
qed

lemma write_refines:
  assumes env: "map_env K mp slots" and ok: "slots_ok mp slots \<sigma>" and "kptr mp \<noteq> 0"
    and len: "length key = ksize mp" "length val = vsize mp"
    and run: "run_cmd K mp (Write key val) \<sigma> = (ob, \<tau>)"
  shows "dict_step (dict mp slots \<sigma>) (Write key val) ob (dict mp slots \<tau>) \<and> slots_ok mp slots \<tau>"
proof -
  obtain r \<rho> where r: "bpf_map_lookup_elem K mp key \<sigma> = (r, \<rho>)"
    and w: "(ob, \<tau>) = (case r of None \<Rightarrow> (Wrote False, \<rho>)
      | Some a \<Rightarrow> (Wrote True, \<rho>\<lparr>mem := store_bytes (mem \<rho>) a val\<rparr>))"
    using run by (auto simp: Let_def split: prod.splits)
  have l: "r = slots \<sigma> key \<and> slots \<rho> = slots \<sigma> \<and> dict mp slots \<rho> = dict mp slots \<sigma> \<and> slots_ok mp slots \<rho>"
    using env len(1) assms(3) ok r by (intro lookup_slot) (auto simp: map_env_def)
  show ?thesis
  proof (cases "slots \<sigma> key")
    case None
    then have "dict mp slots \<sigma> key = None" by (simp add: dict_def)
    with None l w show ?thesis by (auto intro: dict_step.not_wrote)
  next
    case (Some a)
    then have "dict mp slots \<sigma> key \<noteq> None" by (simp add: dict_def)
    moreover have "store_env mp slots" using env by (simp add: map_env_def)
    ultimately show ?thesis
      using Some l w len(2) dict_store [of mp slots \<rho> key a val] by (auto intro: dict_step.wrote)
  qed
qed

lemma run_cmd_refines:
  assumes env: "map_env K mp slots" and ok: "slots_ok mp slots \<sigma>" and "kptr mp \<noteq> 0"
    and typed: "typed_cmd (ksize mp) (vsize mp) c" and run: "run_cmd K mp c \<sigma> = (ob, \<tau>)"
  shows "dict_step (dict mp slots \<sigma>) c ob (dict mp slots \<tau>) \<and> slots_ok mp slots \<tau>"
proof (cases c)
  case (Get key)
  obtain r where r: "bpf_map_lookup_elem K mp key \<sigma> = (r, \<tau>)"
    and ob: "ob = Got (map_option (\<lambda>a. load_bytes (mem \<tau>) a (vsize mp)) r)"
    using run Get by (auto simp: Let_def split: prod.splits)
  have l: "r = slots \<sigma> key \<and> slots \<tau> = slots \<sigma> \<and> dict mp slots \<tau> = dict mp slots \<sigma> \<and> slots_ok mp slots \<tau>"
    using env typed Get assms(3) ok r by (intro lookup_slot) (auto simp: map_env_def)
  then have "ob = Got (dict mp slots \<sigma> key)" unfolding ob by (metis dict_def)
  with l Get show ?thesis by (simp add: dict_step.get)
next
  case (Put key val flags)
  obtain r where r: "bpf_map_update_elem K mp key val flags \<sigma> = (r, \<tau>)" and ob: "ob = Done r"
    using run Put by (auto simp: Let_def split: prod.splits)
  have "update_env K mp slots" and "length key = ksize mp \<and> length val = vsize mp"
    using env typed Put by (simp_all add: map_env_def)
  from put_refines [OF this(1) ok assms(3) this(2) r] Put ob show ?thesis
    by (auto intro: dict_step.put dict_step.put_fails)
next
  case (Del key)
  obtain r where r: "bpf_map_delete_elem K mp key \<sigma> = (r, \<tau>)" and ob: "ob = Done r"
    using run Del by (auto simp: Let_def split: prod.splits)
  have "delete_env K mp slots" and "length key = ksize mp"
    using env typed Del by (simp_all add: map_env_def)
  from del_refines [OF this(1) ok assms(3) this(2) r] Del ob show ?thesis
    by (auto intro: dict_step.del dict_step.del_absent simp: fun_upd_idem split: if_splits)
next
  case (Write key val)
  from write_refines [OF env ok assms(3) _ _ run [unfolded Write]] typed Write show ?thesis by simp
qed

lemma run_cmds_refines:
  assumes "map_env K mp slots" and "slots_ok mp slots \<sigma>" and "kptr mp \<noteq> 0"
    and "\<forall>c\<in>set cmds. typed_cmd (ksize mp) (vsize mp) c" and "run_cmds K mp cmds \<sigma> = (obs, \<tau>)"
  shows "dict_steps (dict mp slots \<sigma>) cmds obs (dict mp slots \<tau>) \<and> slots_ok mp slots \<tau>"
  using assms(2,4,5)
proof (induction cmds arbitrary: \<sigma> obs)
  case (Cons c cmds)
  then obtain ob \<rho> obs' where "run_cmd K mp c \<sigma> = (ob, \<rho>)" "run_cmds K mp cmds \<rho> = (obs', \<tau>)" "obs = ob # obs'"
    by (auto simp: Let_def split: prod.splits)
  moreover from this run_cmd_refines [OF assms(1) Cons.prems(1) assms(3)] Cons.prems(2)
  have "dict_step (dict mp slots \<sigma>) c ob (dict mp slots \<rho>)" "slots_ok mp slots \<rho>" by auto
  ultimately show ?case using Cons.IH [of \<rho> obs'] Cons.prems(2) by auto
qed simp

text \<open>Which commands may take a key out of its slot; all others leave it there.\<close>

fun replaces :: "u8 list \<Rightarrow> map_cmd \<Rightarrow> bool" where
  "replaces key (Get k) = False"
| "replaces key (Put k val flags) = (k = key)"
| "replaces key (Del k) = (k = key)"
| "replaces key (Write k val) = False"

lemma run_cmd_keeps_slot:
  assumes env: "map_env K mp slots" and ok: "slots_ok mp slots \<sigma>" and k: "kptr mp \<noteq> 0"
    and typed: "typed_cmd (ksize mp) (vsize mp) c" and "\<not> replaces key c"
    and run: "run_cmd K mp c \<sigma> = (ob, \<tau>)"
  shows "slots \<tau> key = slots \<sigma> key"
proof (cases c)
  case (Get k')
  then obtain r where "bpf_map_lookup_elem K mp k' \<sigma> = (r, \<tau>)" using run by (auto simp: Let_def split: prod.splits)
  with lookup_slot [of K mp slots \<sigma> k' r \<tau>] env ok k typed Get show ?thesis by (simp add: map_env_def)
next
  case (Put k' val flags)
  then obtain r where "k_map_update_elem K (kptr mp) k' val flags \<sigma> = (r, \<tau>)"
    using run k by (auto simp: Let_def bpf_map_update_elem_def split: prod.splits)
  with update_envD [of K mp slots k' val flags \<sigma> r \<tau>] env typed Put assms(5) show ?thesis
    by (auto simp: map_env_def split: if_splits)
next
  case (Del k')
  then obtain r where "k_map_delete_elem K (kptr mp) k' \<sigma> = (r, \<tau>)"
    using run k by (auto simp: Let_def bpf_map_delete_elem_def split: prod.splits)
  with delete_envD [of K mp slots k' \<sigma> r \<tau>] env typed Del assms(5) show ?thesis by (simp add: map_env_def)
next
  case (Write k' val)
  then obtain r \<rho> where r: "bpf_map_lookup_elem K mp k' \<sigma> = (r, \<rho>)"
    and t: "\<tau> = (case r of None \<Rightarrow> \<rho> | Some a \<Rightarrow> \<rho>\<lparr>mem := store_bytes (mem \<rho>) a val\<rparr>)"
    using run by (auto simp: Let_def split: prod.splits option.splits)
  from lookup_slot [of K mp slots \<sigma> k' r \<rho>] env ok k typed Write r
  have s: "r = slots \<rho> k'" "slots \<rho> = slots \<sigma>" by (simp_all add: map_env_def)
  have "slots (\<rho>\<lparr>mem := store_bytes (mem \<rho>) a val\<rparr>) = slots \<rho>" if "r = Some a" for a
    using env typed Write s(1) that unfolding map_env_def store_env_def by simp
  with s(2) t show ?thesis by (cases r) simp_all
qed

lemma run_cmds_keeps_slot:
  assumes "map_env K mp slots" and "slots_ok mp slots \<sigma>" and "kptr mp \<noteq> 0"
    and "\<forall>c\<in>set cmds. typed_cmd (ksize mp) (vsize mp) c" and "\<forall>c\<in>set cmds. \<not> replaces key c"
    and "run_cmds K mp cmds \<sigma> = (obs, \<tau>)" and "slots \<sigma> key = Some r"
  shows "slots \<tau> key = Some r"
  using assms(2,4-7)
proof (induction cmds arbitrary: \<sigma> obs)
  case (Cons c cmds)
  then obtain ob \<rho> obs' where c: "run_cmd K mp c \<sigma> = (ob, \<rho>)" "run_cmds K mp cmds \<rho> = (obs', \<tau>)"
    by (auto simp: Let_def split: prod.splits)
  with run_cmd_refines [OF assms(1) Cons.prems(1) assms(3) _ c(1)]
    run_cmd_keeps_slot [OF assms(1) Cons.prems(1) assms(3) _ _ c(1)] Cons.prems Cons.IH [of \<rho> obs']
  show ?case by simp
qed simp

section \<open>A kernel with the contract\<close>

text \<open>
  A map of capacity one: the kernel's state is the key in the slot at \<open>0x5000\<close>, if any. A
  second key is refused with \<open>-E2BIG\<close>, a missing one with \<open>-ENOENT\<close>.
\<close>

type_synonym slot_machine = "u8 list option machine_scheme"

definition slot_slots :: "u8 list option slots" where
  "slot_slots \<sigma> key = (if machine.more \<sigma> = Some key then Some 0x5000 else None)"

definition slot_kernel :: "u8 list option kernel" where
  "slot_kernel = demo_kernel\<lparr>
     k_map_lookup_elem := (\<lambda>p key \<sigma>. (if machine.more \<sigma> = Some key then 0x5000 else 0, \<sigma>)),
     k_map_update_elem := (\<lambda>p key val flags \<sigma>.
       if machine.more \<sigma> = None \<or> machine.more \<sigma> = Some key
       then (0, machine.more_update (\<lambda>_. Some key) (\<sigma>\<lparr>mem := store_bytes (mem \<sigma>) 0x5000 val\<rparr>))
       else (- 7, \<sigma>)),
     k_map_delete_elem := (\<lambda>p key \<sigma>.
       if machine.more \<sigma> = Some key then (0, machine.more_update (\<lambda>_. None) \<sigma>) else (- 2, \<sigma>))\<rparr>"

definition slot_machine_init :: slot_machine where
  "slot_machine_init = machine.extend demo_machine None"

lemma slot_more [simp]:
  "machine.more (machine.more_update f \<sigma>) = f (machine.more \<sigma>)"
  "mem (machine.more_update f \<sigma>) = mem \<sigma>"
  by (cases \<sigma>, simp)+

lemma slot_init_more [simp]: "machine.more slot_machine_init = None"
  by (simp add: slot_machine_init_def machine.extend_def)

lemma slot_env: "map_env slot_kernel mp slot_slots"
proof -
  have "lookup_env slot_kernel mp slot_slots"
    by (simp add: lookup_env_def slot_kernel_def slot_slots_def same_values_def)
  moreover have "update_env slot_kernel mp slot_slots"
    using vsize_small [of mp]
    by (auto simp: update_env_def slot_kernel_def slot_slots_def same_values_def slots_ok_def
        fun_eq_iff fits_i32_def load_stored split: if_splits)
  moreover have "delete_env slot_kernel mp slot_slots"
    by (auto simp: delete_env_def slot_kernel_def slot_slots_def same_values_def fun_eq_iff fits_i32_def)
  moreover have "store_env mp slot_slots"
    by (auto simp: store_env_def slot_slots_def fun_eq_iff)
  ultimately show ?thesis by (simp add: map_env_def)
qed

lemma slot_init_ok: "slots_ok mp slot_slots slot_machine_init"
  by (simp add: slots_ok_def slot_slots_def)

section \<open>Properties\<close>

text \<open>
  C15: A loaded map static of key type \<open>K\<close> and value type \<open>V\<close> is a dictionary: on a kernel that
  keeps its slots as promised, every sequence of lookups, updates, deletions and writes
  through looked-up references, with keys and values of those types, observes what a
  dictionary shows and leaves the dictionary it leaves; a write through a reference changes
  its key's value and no other, and slots stay apart.
\<close>
theorem typed_map_refines_dictionary:
  assumes "mp = MAP_DEF mt sizeof_K sizeof_V ms mf p" and "p \<noteq> 0"
    and "sizeof_K < 2 ^ 32" and "sizeof_V < 2 ^ 32"
    and "map_env K mp slots" and "slots_ok mp slots \<sigma>"
    and "\<forall>c\<in>set cmds. typed_cmd sizeof_K sizeof_V c"
    and "run_cmds K mp cmds \<sigma> = (obs, \<tau>)"
  shows "dict_steps (dict mp slots \<sigma>) cmds obs (dict mp slots \<tau>) \<and> slots_ok mp slots \<tau>"
proof -
  have "ksize mp = sizeof_K" "vsize mp = sizeof_V" "kptr mp \<noteq> 0"
    using assms(1-4) by (simp_all add: MAP_DEF_def iu_map_new_def unsigned_of_nat take_bit_nat_eq_self)
  then show ?thesis using run_cmds_refines [OF assms(5,6) _ _ assms(8)] assms(7) by simp
qed

theorem typed_map_refines_dictionary_witness:
  "\<exists>obs \<tau>. run_cmds slot_kernel (MAP_DEF 1 1 2 1 0 1)
       [Put [1] [2, 3] 0, Write [1] [4, 5], Put [9] [6, 7] 0, Get [1]] slot_machine_init = (obs, \<tau>) \<and>
     dict_steps (dict (MAP_DEF 1 1 2 1 0 1) slot_slots slot_machine_init)
       [Put [1] [2, 3] 0, Write [1] [4, 5], Put [9] [6, 7] 0, Get [1]] obs
       (dict (MAP_DEF 1 1 2 1 0 1) slot_slots \<tau>)"
proof -
  let ?mp = "MAP_DEF 1 1 2 1 0 1"
  let ?cmds = "[Put [1] [2, 3] 0, Write [1] [4, 5], Put [9] [6, 7] 0, Get [1]]"
  obtain obs \<tau> where r: "run_cmds slot_kernel ?mp ?cmds slot_machine_init = (obs, \<tau>)" by fastforce
  have "dict_steps (dict ?mp slot_slots slot_machine_init) ?cmds obs (dict ?mp slot_slots \<tau>)"
    using typed_map_refines_dictionary [OF refl _ _ _ slot_env slot_init_ok _ r] by simp
  with r show ?thesis by blast
qed

text \<open>
  The references are not exclusive: looking up one key twice gives the same address both
  times, so what is written through the first \<open>&mut V\<close> is what the second one reads.
\<close>
theorem map_references_alias:
  assumes "map_env K mp slots" and "slots_ok mp slots \<sigma>" and "length key = ksize mp"
    and "bpf_map_lookup_elem K mp key \<sigma> = (Some r1, \<tau>)" and "bpf_map_lookup_elem K mp key \<tau> = (r2, \<rho>)"
    and "length bs = vsize mp"
  shows "r2 = Some r1 \<and> load_bytes (mem (\<rho>\<lparr>mem := store_bytes (mem \<rho>) r1 bs\<rparr>)) (the r2) (vsize mp) = bs"
proof -
  have k: "kptr mp \<noteq> 0" using assms(4) by (auto simp: bpf_map_lookup_elem_def split: if_splits)
  have env: "lookup_env K mp slots" using assms(1) by (simp add: map_env_def)
  from lookup_slot [OF env assms(2) k assms(3,4)]
  have l: "slots \<sigma> key = Some r1" "slots \<tau> = slots \<sigma>" "slots_ok mp slots \<tau>" by auto
  from lookup_slot [OF env l(3) k assms(3,5)] l have "r2 = Some r1" by simp
  then show ?thesis using load_store_same [of bs "mem \<rho>" r1] assms(6) vsize_small [of mp] by simp
qed

theorem map_references_alias_witness:
  "\<exists>\<sigma> \<rho>. bpf_map_lookup_elem slot_kernel ((iu_map_new 1 1 1 1 0)\<lparr>kptr := 1\<rparr>) [1] \<sigma> = (Some 0x5000, \<rho>) \<and>
     load_bytes (mem (\<rho>\<lparr>mem := store_bytes (mem \<rho>) 0x5000 [7]\<rparr>)) 0x5000 1 = [7]"
proof -
  let ?mp = "(iu_map_new 1 1 1 1 0)\<lparr>kptr := 1\<rparr>"
  let ?\<sigma> = "machine.more_update (\<lambda>_. Some [1]) slot_machine_init"
  have l: "bpf_map_lookup_elem slot_kernel ?mp [1] ?\<sigma> = (Some 0x5000, ?\<sigma>)"
    by (simp add: bpf_map_lookup_elem_def slot_kernel_def Let_def)
  have "slots_ok ?mp slot_slots ?\<sigma>" by (simp add: slots_ok_def slot_slots_def)
  from map_references_alias [OF slot_env this _ l l, of "[7]"]
  have "load_bytes (mem (?\<sigma>\<lparr>mem := store_bytes (mem ?\<sigma>) 0x5000 [7]\<rparr>)) 0x5000 1 = [7]"
    by (simp add: iu_map_new_def)
  with l show ?thesis by blast
qed

text \<open>
  C16: How long a reference from the lookup helper is good, and what it is afterwards. While the
  program runs map calls that neither update nor delete the key, the reference is the key's
  value: it reads what the map holds, and a write through it changes that value and no other.
  Nothing ends it when the key is updated or deleted: once the kernel has given its slot to
  another key, a write through the old reference overwrites that key's value.
\<close>
theorem kept_reference:
  assumes "mp = MAP_DEF mt sizeof_K sizeof_V ms mf p" and "sizeof_K < 2 ^ 32" and "sizeof_V < 2 ^ 32"
    and "map_env K mp slots" and "slots_ok mp slots \<sigma>"
    and "length key = sizeof_K" and "bpf_map_lookup_elem K mp key \<sigma> = (Some r, \<tau>)"
    and "\<forall>c\<in>set cmds. typed_cmd sizeof_K sizeof_V c" and "run_cmds K mp cmds \<tau> = (obs, \<rho>)"
    and "length bs = sizeof_V"
  shows "((\<forall>c\<in>set cmds. \<not> replaces key c) \<longrightarrow>
      dict mp slots \<rho> key = Some (load_bytes (mem \<rho>) r sizeof_V) \<and>
      dict mp slots (\<rho>\<lparr>mem := store_bytes (mem \<rho>) r bs\<rparr>) = (dict mp slots \<rho>)(key \<mapsto> bs)) \<and>
    (\<forall>key' \<rho>'. length key' = sizeof_K \<and> bpf_map_lookup_elem K mp key' \<rho> = (Some r, \<rho>') \<longrightarrow>
      dict mp slots (\<rho>'\<lparr>mem := store_bytes (mem \<rho>') r bs\<rparr>) = (dict mp slots \<rho>)(key' \<mapsto> bs))"
proof -
  have sz: "ksize mp = sizeof_K" "vsize mp = sizeof_V"
    using assms(1-3) by (simp_all add: MAP_DEF_def iu_map_new_def unsigned_of_nat take_bit_nat_eq_self)
  have k: "kptr mp \<noteq> 0" using assms(7) by (auto simp: bpf_map_lookup_elem_def split: if_splits)
  have env: "lookup_env K mp slots" "store_env mp slots" using assms(4) by (simp_all add: map_env_def)
  from lookup_slot [OF env(1) assms(5) k _ assms(7)] assms(6)
  have l: "slots \<tau> key = Some r" "slots_ok mp slots \<tau>" by (simp_all add: sz)
  have typed: "\<forall>c\<in>set cmds. typed_cmd (ksize mp) (vsize mp) c" using assms(8) by (simp add: sz)
  from run_cmds_refines [OF assms(4) l(2) k typed assms(9)] have ok: "slots_ok mp slots \<rho>" by blast
  have bs: "length bs = vsize mp" using assms(10) by (simp add: sz)
  have "dict mp slots \<rho> key = Some (load_bytes (mem \<rho>) r sizeof_V) \<and>
      dict mp slots (\<rho>\<lparr>mem := store_bytes (mem \<rho>) r bs\<rparr>) = (dict mp slots \<rho>)(key \<mapsto> bs)"
    if "\<forall>c\<in>set cmds. \<not> replaces key c"
  proof -
    from run_cmds_keeps_slot [OF assms(4) l(2) k typed that assms(9) l(1)] have "slots \<rho> key = Some r" .
    with dict_store(1) [OF env(2) ok _ bs] show ?thesis by (simp add: dict_def sz)
  qed
  moreover have "dict mp slots (\<rho>'\<lparr>mem := store_bytes (mem \<rho>') r bs\<rparr>) = (dict mp slots \<rho>)(key' \<mapsto> bs)"
    if "length key' = sizeof_K" "bpf_map_lookup_elem K mp key' \<rho> = (Some r, \<rho>')" for key' \<rho>'
  proof -
    from lookup_slot [OF env(1) ok k _ that(2)] that(1)
    have "slots \<rho>' key' = Some r" "dict mp slots \<rho>' = dict mp slots \<rho>" "slots_ok mp slots \<rho>'"
      by (simp_all add: sz)
    with dict_store(1) [OF env(2) _ _ bs] show ?thesis by metis
  qed
  ultimately show ?thesis by blast
qed

text \<open>
  In the map of capacity one, key 1 is looked up and deleted and key 2 takes its slot: the
  reference to key 1's value then writes that of key 2.
\<close>
theorem kept_reference_witness:
  "\<exists>(\<sigma> :: slot_machine) obs \<rho>. bpf_map_lookup_elem slot_kernel (MAP_DEF 1 1 1 1 0 1) [1] \<sigma> = (Some 0x5000, \<sigma>) \<and>
     run_cmds slot_kernel (MAP_DEF 1 1 1 1 0 1) [Del [1], Put [2] [5] 0] \<sigma> = (obs, \<rho>) \<and>
     dict (MAP_DEF 1 1 1 1 0 1) slot_slots \<rho> = [[2] \<mapsto> [5]] \<and>
     dict (MAP_DEF 1 1 1 1 0 1) slot_slots (\<rho>\<lparr>mem := store_bytes (mem \<rho>) 0x5000 [7]\<rparr>) = [[2] \<mapsto> [7]]"
proof -
  let ?mp = "MAP_DEF 1 1 1 1 0 1"
  let ?\<sigma> = "machine.more_update (\<lambda>_. Some [1]) slot_machine_init"
  let ?cmds = "[Del [1], Put [2] [5] 0]"
  let ?\<rho>1 = "machine.more_update (\<lambda>_. None) ?\<sigma>"
  let ?\<rho> = "machine.more_update (\<lambda>_. Some [2]) (?\<rho>1\<lparr>mem := store_bytes (mem ?\<rho>1) 0x5000 [5]\<rparr>)"
  have ok: "slots_ok ?mp slot_slots ?\<sigma>" by (simp add: slots_ok_def slot_slots_def)
  have look: "bpf_map_lookup_elem slot_kernel ?mp [1] ?\<sigma> = (Some 0x5000, ?\<sigma>)"
    and again: "bpf_map_lookup_elem slot_kernel ?mp [2] ?\<rho> = (Some 0x5000, ?\<rho>)"
    by (simp_all add: bpf_map_lookup_elem_def slot_kernel_def Let_def MAP_DEF_def)
  have run: "run_cmds slot_kernel ?mp ?cmds ?\<sigma> = ([Done (Ok 0), Done (Ok 0)], ?\<rho>)"
    by (simp add: bpf_map_delete_elem_def bpf_map_update_elem_def slot_kernel_def Let_def code_ok MAP_DEF_def)
  have d: "dict ?mp slot_slots ?\<rho> = [[2] \<mapsto> [5]]"
    by (simp add: dict_def slot_slots_def fun_eq_iff load_stored MAP_DEF_def iu_map_new_def)
  have "\<forall>key' \<rho>'. length key' = 1 \<and> bpf_map_lookup_elem slot_kernel ?mp key' ?\<rho> = (Some 0x5000, \<rho>') \<longrightarrow>
      dict ?mp slot_slots (\<rho>'\<lparr>mem := store_bytes (mem \<rho>') 0x5000 [7]\<rparr>) = (dict ?mp slot_slots ?\<rho>)(key' \<mapsto> [7])"
    using kept_reference [OF refl _ _ slot_env ok _ look _ run, of "[7]"] by simp
  with again have "dict ?mp slot_slots (?\<rho>\<lparr>mem := store_bytes (mem ?\<rho>) 0x5000 [7]\<rparr>) =
      (dict ?mp slot_slots ?\<rho>)([2] \<mapsto> [7])" by (metis length_Cons list.size(3) One_nat_def)
  then have "dict ?mp slot_slots (?\<rho>\<lparr>mem := store_bytes (mem ?\<rho>) 0x5000 [7]\<rparr>) = [[2] \<mapsto> [7]]"
    by (simp only: d fun_upd_upd)
  with look run d show ?thesis by blast
qed

end
