(* ===== verification/Ring_Buffer.thy ===== *)
theory Ring_Buffer
  imports Typed_Map
begin

text \<open>
  The ring buffer helpers of \<open>base_helper.rs\<close> as a program sees them: reserve a record, fill the
  slice, submit it. The kernel's side is a list of records in the order of their
  reservation; what it promises is the contract \<open>ring_env\<close>, and the user-space consumer reads
  the records up to the first that is not submitted. The helpers implement a queue; what the
  types of the helpers leave open, a slice that is written after it was submitted, is shown on
  that queue (a record that is never submitted, in theory \<open>Ring_Sessions\<close>). A run here is one in which the consumer gives
  no space back, so a record's address is not used again; sizes are below the largest a slice
  may have, which the kernel's limit on records is far below.
\<close>

section \<open>The kernel's records\<close>

record ring_rec =
  rr_addr :: u64
  rr_len :: nat
  rr_done :: bool

type_synonym 'k ring = "'k machine_scheme \<Rightarrow> ring_rec list"

definition rec_slice :: "ring_rec \<Rightarrow> slice" where
  "rec_slice r = \<lparr>sl_ptr = rr_addr r, sl_len = rr_len r\<rparr>"

definition rec_bytes :: "'k machine_scheme \<Rightarrow> ring_rec \<Rightarrow> u8 list" where
  "rec_bytes \<sigma> r = load_bytes (mem \<sigma>) (rr_addr r) (rr_len r)"

text \<open>No byte of \<open>b\<close> is a byte of \<open>a\<close>.\<close>

definition apart :: "ring_rec \<Rightarrow> ring_rec \<Rightarrow> bool" where
  "apart a b \<longleftrightarrow> (\<forall>i<rr_len b. rr_len a \<le> unat (rr_addr b + of_nat i - rr_addr a))"

text \<open>Records have their own addresses and bytes, and a length a slice can have.\<close>

definition recs_ok :: "ring_rec list \<Rightarrow> bool" where
  "recs_ok rs \<longleftrightarrow> distinct (map rr_addr rs) \<and> (\<forall>r\<in>set rs. rr_addr r \<noteq> 0 \<and> rr_len r < 2 ^ 63) \<and>
     (\<forall>i<length rs. \<forall>j<length rs. i \<noteq> j \<longrightarrow> apart (rs ! i) (rs ! j))"

definition same_recs :: "'k ring \<Rightarrow> 'k machine_scheme \<Rightarrow> 'k machine_scheme \<Rightarrow> bool" where
  "same_recs ring \<sigma> \<tau> \<longleftrightarrow> (\<forall>r\<in>set (ring \<sigma>). rec_bytes \<tau> r = rec_bytes \<sigma> r)"

text \<open>
  The contract: a reservation gives no address or that of a new record at the end; a
  submission marks the record at the address it is given, which must be one that is not
  submitted yet; both leave the bytes of the records alone; and the program's writes into a
  record do not change the list.
\<close>

definition reserve_env :: "'k kernel \<Rightarrow> u64 \<Rightarrow> 'k ring \<Rightarrow> bool" where
  "reserve_env K p ring \<longleftrightarrow>
     (\<forall>sz flags \<sigma>. recs_ok (ring \<sigma>) \<longrightarrow>
        (case k_ringbuf_reserve K p sz flags \<sigma> of (a, \<tau>) \<Rightarrow>
           recs_ok (ring \<tau>) \<and> same_recs ring \<sigma> \<tau> \<and>
           ring \<tau> = (if a = 0 then ring \<sigma>
             else ring \<sigma> @ [\<lparr>rr_addr = a, rr_len = unat sz, rr_done = False\<rparr>])))"

definition submit_env :: "'k kernel \<Rightarrow> 'k ring \<Rightarrow> bool" where
  "submit_env K ring \<longleftrightarrow>
     (\<forall>h flags \<sigma>. recs_ok (ring \<sigma>) \<and> h < length (ring \<sigma>) \<and> \<not> rr_done (ring \<sigma> ! h) \<longrightarrow>
        (let \<tau> = k_ringbuf_submit K (rr_addr (ring \<sigma> ! h)) flags \<sigma> in
           same_recs ring \<sigma> \<tau> \<and> ring \<tau> = (ring \<sigma>)[h := (ring \<sigma> ! h)\<lparr>rr_done := True\<rparr>]))"

definition fill_env :: "'k ring \<Rightarrow> bool" where
  "fill_env ring \<longleftrightarrow>
     (\<forall>h bs \<sigma>. recs_ok (ring \<sigma>) \<and> h < length (ring \<sigma>) \<and> length bs = rr_len (ring \<sigma> ! h) \<longrightarrow>
        ring (\<sigma>\<lparr>mem := store_bytes (mem \<sigma>) (rr_addr (ring \<sigma> ! h)) bs\<rparr>) = ring \<sigma>)"

definition ring_env :: "'k kernel \<Rightarrow> u64 \<Rightarrow> 'k ring \<Rightarrow> bool" where
  "ring_env K p ring \<longleftrightarrow> reserve_env K p ring \<and> submit_env K ring \<and> fill_env ring"

text \<open>What the consumer can read: the records up to the first one that is not submitted.\<close>

definition consumer :: "'k ring \<Rightarrow> 'k machine_scheme \<Rightarrow> u8 list list" where
  "consumer ring \<sigma> = map (rec_bytes \<sigma>) (takeWhile rr_done (ring \<sigma>))"

section \<open>Programs\<close>

text \<open>
  The program keeps the slices it was given, in order, with a note of those it submitted; it
  submits each at most once. Nothing in the types keeps it from writing a slice again later.
\<close>

datatype ring_cmd = Reserve u64 | Fill nat "u8 list" | Submit nat

inductive prog_step ::
  "'k kernel \<Rightarrow> iu_map \<Rightarrow> ring_cmd \<Rightarrow> (slice \<times> bool) list \<times> 'k machine_scheme
   \<Rightarrow> (slice \<times> bool) list \<times> 'k machine_scheme \<Rightarrow> bool"
  for K :: "'k kernel" and mp :: iu_map where
  reserved: "bpf_ringbuf_reserve K mp sz flags \<sigma> = (Some s, \<tau>) \<Longrightarrow>
    prog_step K mp (Reserve sz) (hs, \<sigma>) (hs @ [(s, False)], \<tau>)"
| refused: "bpf_ringbuf_reserve K mp sz flags \<sigma> = (None, \<tau>) \<Longrightarrow>
    prog_step K mp (Reserve sz) (hs, \<sigma>) (hs, \<tau>)"
| filled: "h < length hs \<Longrightarrow> length bs = sl_len (fst (hs ! h)) \<Longrightarrow>
    prog_step K mp (Fill h bs) (hs, \<sigma>) (hs, \<sigma>\<lparr>mem := store_bytes (mem \<sigma>) (sl_ptr (fst (hs ! h))) bs\<rparr>)"
| submitted: "h < length hs \<Longrightarrow> \<not> snd (hs ! h) \<Longrightarrow>
    prog_step K mp (Submit h) (hs, \<sigma>)
      (hs[h := (fst (hs ! h), True)], bpf_ringbuf_submit K (fst (hs ! h)) flags \<sigma>)"

text \<open>The queue: the contents of the records and whether they are submitted.\<close>

type_synonym queue = "(u8 list \<times> bool) list"

inductive queue_step :: "ring_cmd \<Rightarrow> queue \<Rightarrow> queue \<Rightarrow> bool" where
  append: "length bs = unat sz \<Longrightarrow> queue_step (Reserve sz) q (q @ [(bs, False)])"
| full: "queue_step (Reserve sz) q q"
| overwrite: "h < length q \<Longrightarrow> length bs = length (fst (q ! h)) \<Longrightarrow>
    queue_step (Fill h bs) q (q[h := (bs, snd (q ! h))])"
| finish: "h < length q \<Longrightarrow> \<not> snd (q ! h) \<Longrightarrow> queue_step (Submit h) q (q[h := (fst (q ! h), True)])"

text \<open>The kernel's records are the program's slices, and their contents the queue.\<close>

definition ring_view :: "'k ring \<Rightarrow> 'k machine_scheme \<Rightarrow> queue" where
  "ring_view ring \<sigma> = map (\<lambda>r. (rec_bytes \<sigma> r, rr_done r)) (ring \<sigma>)"

definition ring_inv :: "'k ring \<Rightarrow> (slice \<times> bool) list \<times> 'k machine_scheme \<Rightarrow> bool" where
  "ring_inv ring = (\<lambda>(hs, \<sigma>). recs_ok (ring \<sigma>) \<and> hs = map (\<lambda>r. (rec_slice r, rr_done r)) (ring \<sigma>))"

section \<open>Lemmas\<close>

lemma load_stored_63:
  "length bs = n \<Longrightarrow> n < 2 ^ 63 \<Longrightarrow> load_bytes (store_bytes m a bs) a n = bs"
  using load_store_same [of bs m a] by simp

text \<open>A write into one record leaves the others.\<close>

lemma rec_bytes_store:
  assumes "recs_ok (ring \<sigma>)" and "h < length (ring \<sigma>)" and "length bs = rr_len (ring \<sigma> ! h)"
    and "j < length (ring \<sigma>)"
  shows "rec_bytes (\<sigma>\<lparr>mem := store_bytes (mem \<sigma>) (rr_addr (ring \<sigma> ! h)) bs\<rparr>) (ring \<sigma> ! j) =
    (if j = h then bs else rec_bytes \<sigma> (ring \<sigma> ! j))"
proof (cases "j = h")
  case True
  have "rr_len (ring \<sigma> ! h) < 2 ^ 63" using assms(1,2) by (simp add: recs_ok_def)
  with True assms(3) show ?thesis by (simp add: rec_bytes_def load_stored_63)
next
  case False
  then have "apart (ring \<sigma> ! h) (ring \<sigma> ! j)" using assms by (simp add: recs_ok_def)
  with False assms(3) show ?thesis
    by (auto simp: rec_bytes_def load_bytes_eq_iff apart_def intro!: store_bytes_outside)
qed

text \<open>The state and the queue after each kernel call.\<close>

lemma reserve_envD:
  assumes "reserve_env K p ring" and "recs_ok (ring \<sigma>)" and "k_ringbuf_reserve K p sz flags \<sigma> = (a, \<tau>)"
  shows "recs_ok (ring \<tau>) \<and> same_recs ring \<sigma> \<tau> \<and>
    ring \<tau> = (if a = 0 then ring \<sigma> else ring \<sigma> @ [\<lparr>rr_addr = a, rr_len = unat sz, rr_done = False\<rparr>])"
  using assms(1) [unfolded reserve_env_def, rule_format, OF assms(2), of sz flags] unfolding assms(3) prod.case .

lemma submit_envD:
  assumes "submit_env K ring" and "recs_ok (ring \<sigma>)" and "h < length (ring \<sigma>)" and "\<not> rr_done (ring \<sigma> ! h)"
    and "\<tau> = k_ringbuf_submit K (rr_addr (ring \<sigma> ! h)) flags \<sigma>"
  shows "same_recs ring \<sigma> \<tau> \<and> ring \<tau> = (ring \<sigma>)[h := (ring \<sigma> ! h)\<lparr>rr_done := True\<rparr>]"
  using assms(1) [unfolded submit_env_def, rule_format, of \<sigma> h flags] assms(2-5) by (simp add: Let_def)

lemma recs_ok_done: "recs_ok rs \<Longrightarrow> h < length rs \<Longrightarrow> recs_ok (rs[h := (rs ! h)\<lparr>rr_done := b\<rparr>])"
proof -
  assume ok: "recs_ok rs" and h: "h < length rs"
  let ?rs = "rs[h := (rs ! h)\<lparr>rr_done := b\<rparr>]"
  have same: "rr_addr (?rs ! i) = rr_addr (rs ! i)" "rr_len (?rs ! i) = rr_len (rs ! i)" if "i < length rs" for i
    using that h by (auto simp: nth_list_update)
  have "map rr_addr ?rs = map rr_addr rs"
    by (rule nth_equalityI) (simp_all add: same)
  moreover have "apart (?rs ! i) (?rs ! j) \<longleftrightarrow> apart (rs ! i) (rs ! j)" if "i < length rs" "j < length rs" for i j
    using same that by (simp add: apart_def)
  moreover have "rr_addr r \<noteq> 0 \<and> rr_len r < 2 ^ 63" if "r \<in> set ?rs" for r
  proof -
    have "r = (rs ! h)\<lparr>rr_done := b\<rparr> \<or> r \<in> set rs"
      using set_update_subset_insert [of rs h "(rs ! h)\<lparr>rr_done := b\<rparr>"] that by blast
    moreover have "rs ! h \<in> set rs" using h by simp
    ultimately show ?thesis using ok unfolding recs_ok_def by fastforce
  qed
  ultimately show ?thesis using ok by (simp add: recs_ok_def)
qed

text \<open>One lemma per step of the program.\<close>

lemma reserved_refines:
  assumes env: "ring_env K (kptr mp) ring" and call: "bpf_ringbuf_reserve K mp sz flags \<sigma> = (Some s, \<tau>)"
    and inv: "ring_inv ring (hs, \<sigma>)"
  shows "ring_inv ring (hs @ [(s, False)], \<tau>) \<and> queue_step (Reserve sz) (ring_view ring \<sigma>) (ring_view ring \<tau>)"
proof -
  from call obtain a where k: "k_ringbuf_reserve K (kptr mp) sz flags \<sigma> = (a, \<tau>)" and a: "a \<noteq> 0"
    and s: "s = \<lparr>sl_ptr = a, sl_len = unat sz\<rparr>"
    by (auto simp: bpf_ringbuf_reserve_def Let_def split: if_splits prod.splits)
  have ok: "recs_ok (ring \<sigma>)" using inv by (simp add: ring_inv_def)
  let ?r = "\<lparr>rr_addr = a, rr_len = unat sz, rr_done = False\<rparr>"
  have u: "recs_ok (ring \<tau>)" "same_recs ring \<sigma> \<tau>" "ring \<tau> = ring \<sigma> @ [?r]"
    using reserve_envD [where ring = ring, OF _ ok k] env a by (auto simp: ring_env_def)
  have "ring_view ring \<tau> = ring_view ring \<sigma> @ [(rec_bytes \<tau> ?r, False)]"
    using u(2) by (simp add: ring_view_def u(3) same_recs_def)
  moreover have "length (rec_bytes \<tau> ?r) = unat sz" by (simp add: rec_bytes_def)
  ultimately show ?thesis
    using inv u(1) by (auto simp: ring_inv_def u(3) s rec_slice_def intro: queue_step.append)
qed

lemma refused_refines:
  assumes env: "ring_env K (kptr mp) ring" and call: "bpf_ringbuf_reserve K mp sz flags \<sigma> = (None, \<tau>)"
    and inv: "ring_inv ring (hs, \<sigma>)"
  shows "ring_inv ring (hs, \<tau>) \<and> queue_step (Reserve sz) (ring_view ring \<sigma>) (ring_view ring \<tau>)"
proof -
  have ok: "recs_ok (ring \<sigma>)" using inv by (simp add: ring_inv_def)
  have "ring \<tau> = ring \<sigma> \<and> same_recs ring \<sigma> \<tau>"
  proof (cases "kptr mp = 0")
    case True
    with call show ?thesis by (simp add: bpf_ringbuf_reserve_def same_recs_def)
  next
    case False
    with call have k: "k_ringbuf_reserve K (kptr mp) sz flags \<sigma> = (0, \<tau>)"
      by (auto simp: bpf_ringbuf_reserve_def Let_def split: if_splits prod.splits)
    then show ?thesis using reserve_envD [where ring = ring, OF _ ok k] env by (auto simp: ring_env_def)
  qed
  moreover from this have "ring_view ring \<tau> = ring_view ring \<sigma>" by (simp add: ring_view_def same_recs_def)
  ultimately show ?thesis using inv by (simp add: ring_inv_def queue_step.full)
qed

lemma filled_refines:
  assumes env: "ring_env K (kptr mp) ring" and inv: "ring_inv ring (hs, \<sigma>)"
    and h: "h < length hs" and len: "length bs = sl_len (fst (hs ! h))"
    and t: "\<tau> = \<sigma>\<lparr>mem := store_bytes (mem \<sigma>) (sl_ptr (fst (hs ! h))) bs\<rparr>"
  shows "ring_inv ring (hs, \<tau>) \<and> queue_step (Fill h bs) (ring_view ring \<sigma>) (ring_view ring \<tau>)"
proof -
  have ok: "recs_ok (ring \<sigma>)" and hs: "hs = map (\<lambda>r. (rec_slice r, rr_done r)) (ring \<sigma>)"
    using inv by (simp_all add: ring_inv_def)
  have h: "h < length (ring \<sigma>)" and len: "length bs = rr_len (ring \<sigma> ! h)"
    and t: "\<tau> = \<sigma>\<lparr>mem := store_bytes (mem \<sigma>) (rr_addr (ring \<sigma> ! h)) bs\<rparr>"
    using h len t by (simp_all add: hs rec_slice_def)
  have same: "ring \<tau> = ring \<sigma>" using env ok h len unfolding t ring_env_def fill_env_def by blast
  have bytes: "rec_bytes \<tau> (ring \<sigma> ! j) = (if j = h then bs else rec_bytes \<sigma> (ring \<sigma> ! j))"
    if "j < length (ring \<sigma>)" for j
    unfolding t using ok h len that by (rule rec_bytes_store)
  have "ring_view ring \<tau> = (ring_view ring \<sigma>)[h := (bs, snd (ring_view ring \<sigma> ! h))]"
    by (rule nth_equalityI) (use bytes h in \<open>auto simp: ring_view_def same nth_list_update\<close>)
  moreover have "queue_step (Fill h bs) (ring_view ring \<sigma>) ((ring_view ring \<sigma>)[h := (bs, snd (ring_view ring \<sigma> ! h))])"
    by (rule queue_step.overwrite) (use h len in \<open>simp_all add: ring_view_def rec_bytes_def\<close>)
  ultimately show ?thesis using ok hs by (simp add: ring_inv_def same)
qed

lemma submitted_refines:
  assumes env: "ring_env K (kptr mp) ring" and inv: "ring_inv ring (hs, \<sigma>)"
    and h: "h < length hs" and nd: "\<not> snd (hs ! h)" and t: "\<tau> = bpf_ringbuf_submit K (fst (hs ! h)) flags \<sigma>"
  shows "ring_inv ring (hs[h := (fst (hs ! h), True)], \<tau>) \<and>
    queue_step (Submit h) (ring_view ring \<sigma>) (ring_view ring \<tau>)"
proof -
  have ok: "recs_ok (ring \<sigma>)" and hs: "hs = map (\<lambda>r. (rec_slice r, rr_done r)) (ring \<sigma>)"
    using inv by (simp_all add: ring_inv_def)
  have h: "h < length (ring \<sigma>)" and nd: "\<not> rr_done (ring \<sigma> ! h)" using h nd by (simp_all add: hs)
  have \<tau>: "\<tau> = k_ringbuf_submit K (rr_addr (ring \<sigma> ! h)) flags \<sigma>"
    using h by (simp add: t hs rec_slice_def bpf_ringbuf_submit_def)
  have u: "same_recs ring \<sigma> \<tau>" "ring \<tau> = (ring \<sigma>)[h := (ring \<sigma> ! h)\<lparr>rr_done := True\<rparr>]"
    using submit_envD [where ring = ring, OF _ ok h nd \<tau>] env by (auto simp: ring_env_def)
  have bytes: "rec_bytes \<tau> (ring \<sigma> ! i) = rec_bytes \<sigma> (ring \<sigma> ! i)" if "i < length (ring \<sigma>)" for i
    using u(1) that by (simp add: same_recs_def)
  have "rec_bytes \<tau> (r\<lparr>rr_done := True\<rparr>) = rec_bytes \<tau> r" for r by (simp add: rec_bytes_def)
  then have "ring_view ring \<tau> = (ring_view ring \<sigma>)[h := (fst (ring_view ring \<sigma> ! h), True)]"
    by (intro nth_equalityI) (use bytes h in \<open>auto simp: ring_view_def u(2) nth_list_update\<close>)
  moreover have "queue_step (Submit h) (ring_view ring \<sigma>)
      ((ring_view ring \<sigma>)[h := (fst (ring_view ring \<sigma> ! h), True)])"
    by (rule queue_step.finish) (use h nd in \<open>simp_all add: ring_view_def\<close>)
  moreover have "hs[h := (fst (hs ! h), True)] = map (\<lambda>r. (rec_slice r, rr_done r)) (ring \<tau>)"
    by (rule nth_equalityI) (use h in \<open>auto simp: hs u(2) nth_list_update rec_slice_def\<close>)
  ultimately show ?thesis using recs_ok_done [OF ok h, of True] by (simp add: ring_inv_def u(2))
qed

lemma prog_step_refines:
  assumes env: "ring_env K (kptr mp) ring" and step: "prog_step K mp c s t" and inv: "ring_inv ring s"
  shows "ring_inv ring t \<and> queue_step c (ring_view ring (snd s)) (ring_view ring (snd t))"
  using step inv
proof (induction rule: prog_step.induct)
  case reserved
  then show ?case using reserved_refines [OF env] by simp
next
  case refused
  then show ?case using refused_refines [OF env] by simp
next
  case filled
  then show ?case using filled_refines [OF env _ _ _ refl] by simp
next
  case submitted
  then show ?case using submitted_refines [OF env _ _ _ refl] by simp
qed

lemma prog_steps_refine:
  assumes env: "ring_env K (kptr mp) ring" and run: "runs (prog_step K mp) cmds s t" and inv: "ring_inv ring s"
  shows "ring_inv ring t \<and> runs queue_step cmds (ring_view ring (snd s)) (ring_view ring (snd t))"
  using run inv
proof (induction rule: runs_snoc_induct)
  case Nil
  then show ?case by (simp add: runs.halt)
next
  case (Snoc cmds t c u)
  with prog_step_refines [OF env Snoc.hyps(2)] Snoc.IH Snoc.prems show ?case by (auto intro: runs_snoc)
qed

lemma consumer_view: "consumer ring \<sigma> = map fst (takeWhile snd (ring_view ring \<sigma>))"
proof -
  have "takeWhile snd (map (\<lambda>r. (rec_bytes \<sigma> r, rr_done r)) rs) = map (\<lambda>r. (rec_bytes \<sigma> r, rr_done r)) (takeWhile rr_done rs)"
    for rs by (induction rs) auto
  then show ?thesis by (simp add: consumer_def ring_view_def)
qed

text \<open>A submitted record stays so, and holds what was written into it last.\<close>

definition last_fill :: "nat \<Rightarrow> ring_cmd list \<Rightarrow> u8 list option" where
  "last_fill h cmds = fold (\<lambda>c l. case c of Fill i bs \<Rightarrow> if i = h then Some bs else l | _ \<Rightarrow> l) cmds None"

lemma last_fill_snoc:
  "last_fill h (cmds @ [c]) = (case c of Fill i bs \<Rightarrow> if i = h then Some bs else last_fill h cmds | _ \<Rightarrow> last_fill h cmds)"
  by (cases c) (simp_all add: last_fill_def)

lemma queue_steps_submitted:
  "runs queue_step cmds q q' \<Longrightarrow> Submit h \<in> set cmds \<Longrightarrow> h < length q' \<and> snd (q' ! h)"
proof (induction rule: runs_snoc_induct)
  case (Snoc cmds t c u)
  then have "c = Submit h \<or> h < length t \<and> snd (t ! h)" by auto
  with Snoc.hyps(2) show ?case
    by (auto elim!: queue_step.cases simp: nth_append nth_list_update)
qed simp

lemma queue_steps_last_fill:
  "runs queue_step cmds q q' \<Longrightarrow> last_fill h cmds = Some bs \<Longrightarrow> h < length q' \<and> fst (q' ! h) = bs"
proof (induction arbitrary: bs rule: runs_snoc_induct)
  case Nil
  then show ?case by (simp add: last_fill_def)
next
  case (Snoc cmds t c u)
  then have "c = Fill h bs \<or> h < length t \<and> fst (t ! h) = bs \<and> (\<forall>bs'. c \<noteq> Fill h bs')"
    by (auto simp: last_fill_snoc split: ring_cmd.splits if_splits)
  with Snoc.hyps(2) show ?case
    by (auto elim!: queue_step.cases simp: nth_append nth_list_update)
qed

lemma takeWhile_goes:
  "h < length xs \<Longrightarrow> \<forall>i\<le>h. P (xs ! i) \<Longrightarrow> h < length (takeWhile P xs) \<and> takeWhile P xs ! h = xs ! h"
  by (metis length_takeWhile_le nth_length_takeWhile not_le order_le_less takeWhile_nth)

section \<open>A kernel with two small records\<close>

text \<open>It has room for two records of at most eight bytes.\<close>

definition two_recs_reserve :: "u64 \<Rightarrow> ring_rec list \<Rightarrow> u64" where
  "two_recs_reserve sz rs =
     (if 8 < sz then 0 else if rs = [] then 0x5000
      else if map rr_addr rs = [0x5000] \<and> rr_len (hd rs) \<le> 8 then 0x6000 else 0)"

definition ring_kernel :: "ring_rec list kernel" where
  "ring_kernel = demo_kernel\<lparr>
     k_ringbuf_reserve := (\<lambda>p sz flags \<sigma>.
       let a = two_recs_reserve sz (machine.more \<sigma>) in
       (a, if a = 0 then \<sigma> else
          machine.more_update (\<lambda>rs. rs @ [\<lparr>rr_addr = a, rr_len = unat sz, rr_done = False\<rparr>]) \<sigma>)),
     k_ringbuf_submit := (\<lambda>a flags \<sigma>.
       machine.more_update (map (\<lambda>r. if rr_addr r = a then r\<lparr>rr_done := True\<rparr> else r)) \<sigma>)\<rparr>"

definition ring_machine_init :: "ring_rec list machine_scheme" where
  "ring_machine_init = machine.extend demo_machine []"

lemma ring_more [simp]:
  "machine.more (machine.more_update f \<sigma>) = f (machine.more \<sigma>)"
  "mem (machine.more_update f \<sigma>) = mem \<sigma>"
  "machine.more (\<sigma>\<lparr>mem := m\<rparr>) = machine.more \<sigma>"
  "machine.more ring_machine_init = []"
  by (cases \<sigma>, simp)+ (simp add: ring_machine_init_def machine.extend_def)

lemma two_recs_apart:
  assumes "i < 8"
  shows "8 \<le> unat (0x6000 + of_nat i - 0x5000 :: u64)" and "8 \<le> unat (0x5000 + of_nat i - 0x6000 :: u64)"
proof -
  have "i \<in> {0, 1, 2, 3, 4, 5, 6, 7}" using assms by auto
  then show "8 \<le> unat (0x6000 + of_nat i - 0x5000 :: u64)" "8 \<le> unat (0x5000 + of_nat i - 0x6000 :: u64)"
    by auto
qed

lemma two_apart:
  assumes "rr_len a \<le> 8" and "rr_len b \<le> 8"
    and "rr_addr a = 0x6000 \<and> rr_addr b = 0x5000 \<or> rr_addr a = 0x5000 \<and> rr_addr b = 0x6000"
  shows "apart a b"
  unfolding apart_def
proof (intro allI impI)
  fix i assume "i < rr_len b"
  with assms(2) have "i < 8" by simp
  with assms(3) have "8 \<le> unat (rr_addr b + of_nat i - rr_addr a)" using two_recs_apart by auto
  with assms(1) show "rr_len a \<le> unat (rr_addr b + of_nat i - rr_addr a)" by (rule le_trans)
qed

lemma ring_kernel_reserve: "reserve_env ring_kernel p machine.more"
proof -
  have "recs_ok (rs @ [\<lparr>rr_addr = a, rr_len = unat sz, rr_done = False\<rparr>])"
    if a: "two_recs_reserve sz rs = a" "a \<noteq> 0" for sz rs a
  proof -
    have sz: "unat sz \<le> 8"
      using a by (auto simp: two_recs_reserve_def word_le_nat_alt not_less split: if_splits)
    consider "rs = []" "a = 0x5000" | r where "rs = [r]" "rr_addr r = 0x5000" "rr_len r \<le> 8" "a = 0x6000"
      using a by (auto simp: two_recs_reserve_def split: if_splits)
    then show ?thesis
    proof cases
      case 1
      with sz show ?thesis by (simp add: recs_ok_def)
    next
      case 2
      have "apart \<lparr>rr_addr = 0x6000, rr_len = unat sz, rr_done = False\<rparr> r"
        "apart r \<lparr>rr_addr = 0x6000, rr_len = unat sz, rr_done = False\<rparr>"
        using 2 sz by (simp_all add: two_apart)
      with 2 sz show ?thesis by (auto simp: recs_ok_def less_Suc_eq)
    qed
  qed
  then show ?thesis
    by (auto simp: reserve_env_def ring_kernel_def Let_def same_recs_def rec_bytes_def)
qed

lemma ring_kernel_submit: "submit_env ring_kernel machine.more"
proof -
  have "map (\<lambda>r. if rr_addr r = rr_addr (rs ! h) then r\<lparr>rr_done := True\<rparr> else r) rs =
      rs[h := (rs ! h)\<lparr>rr_done := True\<rparr>]" if "recs_ok rs" "h < length rs" for rs h
  proof (rule nth_equalityI)
    fix i
    assume "i < length (map (\<lambda>r. if rr_addr r = rr_addr (rs ! h) then r\<lparr>rr_done := True\<rparr> else r) rs)"
    moreover from this that have "rr_addr (rs ! i) = rr_addr (rs ! h) \<longleftrightarrow> i = h"
      by (auto simp: recs_ok_def distinct_conv_nth)
    ultimately show "map (\<lambda>r. if rr_addr r = rr_addr (rs ! h) then r\<lparr>rr_done := True\<rparr> else r) rs ! i =
        rs[h := (rs ! h)\<lparr>rr_done := True\<rparr>] ! i"
      by (simp add: nth_list_update)
  qed simp
  then show ?thesis by (simp add: submit_env_def ring_kernel_def Let_def same_recs_def rec_bytes_def)
qed

lemma ring_kernel_env: "ring_env ring_kernel p machine.more"
  by (simp add: ring_env_def ring_kernel_reserve ring_kernel_submit fill_env_def)

text \<open>A run on it: a record is written, submitted, and written again.\<close>

abbreviation ring_ex :: iu_map where "ring_ex \<equiv> (IURingBuf ring_kernel 4096 0)\<lparr>kptr := 8\<rparr>"

lemma ring_kernel_reserves:
  "two_recs_reserve sz (machine.more \<sigma>) = a \<Longrightarrow> a \<noteq> 0 \<Longrightarrow>
   prog_step ring_kernel ring_ex (Reserve sz) (hs, \<sigma>) (hs @ [(\<lparr>sl_ptr = a, sl_len = unat sz\<rparr>, False)],
     machine.more_update (\<lambda>rs. rs @ [\<lparr>rr_addr = a, rr_len = unat sz, rr_done = False\<rparr>]) \<sigma>)"
  by (rule prog_step.reserved [where flags = 0]) (simp add: bpf_ringbuf_reserve_def ring_kernel_def)

lemma rewrite_run:
  "\<exists>hs \<tau>. runs (prog_step ring_kernel ring_ex)
     [Reserve 2, Reserve 1, Fill 0 [1, 2], Submit 0, Fill 0 [3, 4]] ([], ring_machine_init) (hs, \<tau>) \<and> length hs = 2"
proof -
  let ?a = "\<lparr>sl_ptr = 0x5000, sl_len = 2\<rparr>" and ?b = "\<lparr>sl_ptr = 0x6000, sl_len = 1\<rparr>"
  obtain \<sigma>1 where s1: "prog_step ring_kernel ring_ex (Reserve 2) ([], ring_machine_init) ([(?a, False)], \<sigma>1)"
    and m1: "machine.more \<sigma>1 = [\<lparr>rr_addr = 0x5000, rr_len = 2, rr_done = False\<rparr>]"
    using ring_kernel_reserves [where sz = 2 and \<sigma> = ring_machine_init and a = "0x5000" and hs = "[]"]
    by (auto simp: two_recs_reserve_def)
  obtain \<sigma>2 where s2:
    "prog_step ring_kernel ring_ex (Reserve 1) ([(?a, False)], \<sigma>1) ([(?a, False), (?b, False)], \<sigma>2)"
    using ring_kernel_reserves [where sz = 1 and \<sigma> = \<sigma>1 and a = "0x6000" and hs = "[(?a, False)]"]
    by (auto simp: two_recs_reserve_def m1)
  obtain \<sigma>3 where s3: "prog_step ring_kernel ring_ex (Fill 0 [1, 2]) ([(?a, False), (?b, False)], \<sigma>2)
      ([(?a, False), (?b, False)], \<sigma>3)"
    using prog_step.filled [where h = 0 and hs = "[(?a, False), (?b, False)]" and bs = "[1, 2]"] by force
  obtain \<sigma>4 where s4: "prog_step ring_kernel ring_ex (Submit 0) ([(?a, False), (?b, False)], \<sigma>3)
      ([(?a, True), (?b, False)], \<sigma>4)"
    using prog_step.submitted [where h = 0 and hs = "[(?a, False), (?b, False)]"] by force
  obtain \<sigma>5 where s5: "prog_step ring_kernel ring_ex (Fill 0 [3, 4]) ([(?a, True), (?b, False)], \<sigma>4)
      ([(?a, True), (?b, False)], \<sigma>5)"
    using prog_step.filled [where h = 0 and hs = "[(?a, True), (?b, False)]" and bs = "[3, 4]"] by force
  have "runs (prog_step ring_kernel ring_ex)
      [Reserve 2, Reserve 1, Fill 0 [1, 2], Submit 0, Fill 0 [3, 4]] ([], ring_machine_init)
      ([(?a, True), (?b, False)], \<sigma>5)"
    by (rule runs.step, rule s1, rule runs.step, rule s2, rule runs.step, rule s3, rule runs.step, rule s4,
        rule runs.step, rule s5, rule runs.halt)
  then show ?thesis by force
qed

section \<open>Properties\<close>

lemma ring_run:
  assumes "ring_env K (kptr mp) ring" and "ring \<sigma> = []" and "runs (prog_step K mp) cmds ([], \<sigma>) (hs, \<tau>)"
  shows "runs queue_step cmds [] (ring_view ring \<tau>)" and "hs = map (\<lambda>r. (rec_slice r, rr_done r)) (ring \<tau>)"
    and "recs_ok (ring \<tau>)"
proof -
  have "ring_inv ring ([], \<sigma>)" using assms(2) by (simp add: ring_inv_def recs_ok_def)
  with prog_steps_refine [where ring = ring, OF assms(1,3)] assms(2)
  show "runs queue_step cmds [] (ring_view ring \<tau>)" "hs = map (\<lambda>r. (rec_slice r, rr_done r)) (ring \<tau>)"
    "recs_ok (ring \<tau>)" by (auto simp: ring_inv_def ring_view_def)
qed

text \<open>
  C17: The ring buffer helpers are a queue: on a kernel that keeps its records as promised,
  every run of reservations, writes and submissions of a program that starts with an empty
  buffer is a run of the queue of record contents, the slices the program holds are the
  records, with no byte in two of them, and the consumer reads the queue up to the
  first record that is not submitted.
\<close>
theorem ring_refines_queue:
  assumes "ring_env K (kptr mp) ring" and "ring \<sigma> = []"
    and "runs (prog_step K mp) cmds ([], \<sigma>) (hs, \<tau>)"
  shows "runs queue_step cmds [] (ring_view ring \<tau>) \<and>
    hs = map (\<lambda>r. (rec_slice r, rr_done r)) (ring \<tau>) \<and> recs_ok (ring \<tau>) \<and>
    consumer ring \<tau> = map fst (takeWhile snd (ring_view ring \<tau>))"
  using ring_run [OF assms] by (simp add: consumer_view)

text \<open>The run above is one of the queue, with a record of two bytes and one of one.\<close>
theorem ring_refines_queue_witness:
  "\<exists>\<tau>. runs queue_step [Reserve 2, Reserve 1, Fill 0 [1, 2], Submit 0, Fill 0 [3, 4]] []
     (ring_view machine.more \<tau>) \<and> length (ring_view machine.more \<tau>) = 2"
proof -
  from rewrite_run obtain hs \<tau> where r: "runs (prog_step ring_kernel ring_ex)
     [Reserve 2, Reserve 1, Fill 0 [1, 2], Submit 0, Fill 0 [3, 4]] ([], ring_machine_init) (hs, \<tau>)" "length hs = 2" by blast
  from ring_refines_queue [where ring = machine.more, OF ring_kernel_env _ r(1)] r(2)
  show ?thesis by (auto simp: ring_view_def)
qed

text \<open>
  C19: What the consumer reads in a record is what the program wrote into the slice last,
  even where that write came after the submission: once the records up to \<open>h\<close> are submitted,
  record \<open>h\<close> is there and holds the bytes of its last write, since the slice outlives
  \<open>bpf_ringbuf_submit\<close>, which only borrows it.
\<close>
theorem consumer_reads_last_write:
  assumes "ring_env K (kptr mp) ring" and "ring \<sigma> = []"
    and "runs (prog_step K mp) cmds ([], \<sigma>) (hs, \<tau>)"
    and "\<forall>i\<le>h. Submit i \<in> set cmds" and "last_fill h cmds = Some bs"
  shows "h < length (consumer ring \<tau>) \<and> consumer ring \<tau> ! h = bs"
proof -
  note run = ring_run [OF assms(1-3)]
  have h: "h < length (ring_view ring \<tau>)" "fst (ring_view ring \<tau> ! h) = bs"
    using queue_steps_last_fill [OF run(1) assms(5)] by auto
  have "\<forall>i\<le>h. snd (ring_view ring \<tau> ! i)"
    using queue_steps_submitted [OF run(1)] assms(4) by blast
  from takeWhile_goes [OF h(1) this] h(2) show ?thesis by (simp add: consumer_view)
qed

text \<open>The first record is submitted with one content and read with another.\<close>
theorem consumer_reads_last_write_witness:
  "\<exists>hs \<tau>. runs (prog_step ring_kernel ring_ex)
     [Reserve 2, Reserve 1, Fill 0 [1, 2], Submit 0, Fill 0 [3, 4]] ([], ring_machine_init) (hs, \<tau>) \<and>
     consumer machine.more \<tau> ! 0 = [3, 4]"
proof -
  from rewrite_run obtain hs \<tau> where r: "runs (prog_step ring_kernel ring_ex)
     [Reserve 2, Reserve 1, Fill 0 [1, 2], Submit 0, Fill 0 [3, 4]] ([], ring_machine_init) (hs, \<tau>)" by blast
  from consumer_reads_last_write [where ring = machine.more, OF ring_kernel_env _ r, of 0 "[3, 4]"] r
  show ?thesis by (auto simp: last_fill_def)
qed

end
