(* ===== verification/Ring_Sessions.thy ===== *)
theory Ring_Sessions
  imports Ring_Buffer Cleanup "HOL-Library.Sublist"
begin

text \<open>
  The ring buffer over several invocations of programs. An invocation ends by returning or by
  a panic, whose handler is that of \<open>panic.rs\<close>; either way its slices are gone, since only the
  program held them, while the kernel keeps its records. The reservation of a record leaves no
  cleanup entry behind, so a panic before the submission leaves the record as it is, and the
  consumer, who reads up to the first record that is not submitted, waits at it for ever.
\<close>

section \<open>Invocations\<close>

text \<open>
  A state holds the slices of the invocations that ended, those of the running one, the
  cleanup tables and the machine. Commands of the running invocation name its own slices.
\<close>

datatype session_cmd = Do ring_cmd | Returns | Panics panic

type_synonym 'k session =
  "(slice \<times> bool) list \<times> (slice \<times> bool) list \<times> 'k tables \<times> 'k machine_scheme"

inductive session_step ::
  "build_cfg \<Rightarrow> 'k kernel \<Rightarrow> (panic \<Rightarrow> panic_info) \<Rightarrow> iu_map \<Rightarrow> session_cmd \<Rightarrow> 'k session \<Rightarrow> 'k session \<Rightarrow> bool"
  for cfg :: build_cfg and K :: "'k kernel" and info_of :: "panic \<Rightarrow> panic_info" and mp :: iu_map where
  does: "prog_step K mp c (hs, \<sigma>) (hs', \<tau>) \<Longrightarrow>
    session_step cfg K info_of mp (Do c) (old, hs, tabs, \<sigma>) (old, hs', tabs, \<tau>)"
| returns: "session_step cfg K info_of mp Returns (old, hs, tabs, \<sigma>) (old @ hs, [], tabs, \<sigma>)"
| panics: "panic_handler cfg K info_of p tabs \<sigma> = Some (msg, tabs', \<tau>) \<Longrightarrow>
    session_step cfg K info_of mp (Panics p) (old, hs, tabs, \<sigma>) (old @ hs, [], tabs', \<tau>)"

text \<open>The records are the slices of all invocations, and nothing registered a cleanup entry.\<close>

definition session_inv :: "'k ring \<Rightarrow> 'k session \<Rightarrow> bool" where
  "session_inv ring = (\<lambda>(old, hs, tabs, \<sigma>).
     ring_inv ring (old @ hs, \<sigma>) \<and> (\<forall>a. set (tabs a) \<subseteq> {entry_default}))"

section \<open>Lemmas\<close>

text \<open>A command on the running invocation's slices is one on all of them.\<close>

fun shift_cmd :: "nat \<Rightarrow> ring_cmd \<Rightarrow> ring_cmd" where
  "shift_cmd n (Reserve sz) = Reserve sz"
| "shift_cmd n (Fill h bs) = Fill (n + h) bs"
| "shift_cmd n (Submit h) = Submit (n + h)"

lemma prog_step_shift:
  "prog_step K mp c (hs, \<sigma>) (hs', \<tau>) \<Longrightarrow>
   prog_step K mp (shift_cmd (length old) c) (old @ hs, \<sigma>) (old @ hs', \<tau>)"
proof (induction "(hs, \<sigma>)" "(hs', \<tau>)" rule: prog_step.induct)
  case (reserved sz flags s)
  then show ?case using prog_step.reserved [where hs = "old @ hs"] by fastforce
next
  case (refused sz flags)
  then show ?case using prog_step.refused [where hs = "old @ hs"] by fastforce
next
  case (filled h bs)
  then show ?case using prog_step.filled [of "length old + h" "old @ hs" bs K mp \<sigma>] by simp
next
  case (submitted h flags)
  then show ?case using prog_step.submitted [of "length old + h" "old @ hs" K mp \<sigma> flags]
    by (auto simp: list_update_append)
qed

lemma queue_step_shift:
  "queue_step (shift_cmd n c) q q' \<Longrightarrow> n \<le> length q \<Longrightarrow> take n q' = take n q"
  by (cases c) (auto elim!: queue_step.cases)

lemma session_inv_step:
  assumes env: "ring_env K (kptr mp) ring" and step: "session_step cfg K info_of mp c s t"
    and inv: "session_inv ring s"
  shows "session_inv ring t \<and> prefix (fst s) (fst t) \<and>
    take (length (fst s)) (ring_view ring (snd (snd (snd t)))) =
      take (length (fst s)) (ring_view ring (snd (snd (snd s))))"
  using step inv
proof (induction rule: session_step.induct)
  case (does c hs \<sigma> hs' \<tau> old tabs)
  then have inv: "ring_inv ring (old @ hs, \<sigma>)" by (simp add: session_inv_def)
  from prog_step_refines [where ring = ring, OF env prog_step_shift [OF does.hyps, of old] inv]
  have t: "ring_inv ring (old @ hs', \<tau>)"
    "queue_step (shift_cmd (length old) c) (ring_view ring \<sigma>) (ring_view ring \<tau>)" by simp_all
  have "length old \<le> length (ring_view ring \<sigma>)"
    using inv by (auto simp: ring_inv_def ring_view_def dest!: arg_cong [where f = length])
  with t queue_step_shift does.prems show ?case by (simp add: session_inv_def)
next
  case (returns old hs tabs \<sigma>)
  then show ?case by (simp add: session_inv_def)
next
  case (panics p tabs \<sigma> msg tabs' \<tau> old hs)
  then have "tabs' = tabs \<and> \<tau> = \<sigma>"
    by (intro panic_handler_empty [OF panics.hyps]) (simp add: session_inv_def)
  with panics.prems show ?case by (simp add: session_inv_def)
qed

lemma session_steps:
  assumes env: "ring_env K (kptr mp) ring" and run: "runs (session_step cfg K info_of mp) cmds s t"
    and inv: "session_inv ring s"
  shows "session_inv ring t \<and> prefix (fst s) (fst t) \<and>
    take (length (fst s)) (ring_view ring (snd (snd (snd t)))) =
      take (length (fst s)) (ring_view ring (snd (snd (snd s))))"
  using run inv
proof (induction rule: runs_snoc_induct)
  case (Snoc cmds t c u)
  note t = Snoc.IH [OF Snoc.prems]
  with session_inv_step [where ring = ring, OF env Snoc.hyps(2)]
  have u: "session_inv ring u" "prefix (fst t) (fst u)"
    "take (length (fst t)) (ring_view ring (snd (snd (snd u)))) =
      take (length (fst t)) (ring_view ring (snd (snd (snd t))))" by blast+
  from t have "length (fst s) \<le> length (fst t)" by (simp add: prefix_length_le)
  then have "take (length (fst s)) (take (length (fst t)) xs) = take (length (fst s)) xs" for xs :: queue
    by (simp add: min_def)
  with u(3) t have "take (length (fst s)) (ring_view ring (snd (snd (snd u)))) =
      take (length (fst s)) (ring_view ring (snd (snd (snd s))))"
    by metis
  with t u show ?case by (auto intro: prefix_order.trans)
qed simp

text \<open>What is before a record that is not submitted decides what the consumer reads.\<close>

lemma takeWhile_take:
  "h < n \<Longrightarrow> h < length xs \<Longrightarrow> \<not> P (xs ! h) \<Longrightarrow> takeWhile P (take n xs) = takeWhile P xs"
proof (induction xs arbitrary: h n)
  case (Cons x xs)
  then show ?case by (cases n; cases h) auto
qed simp

lemma consumer_length:
  assumes "ring_inv ring (hs, \<sigma>)"
  shows "length (consumer ring \<sigma>) = length (takeWhile snd hs)"
proof -
  have "hs = map (\<lambda>r. (rec_slice r, rr_done r)) (ring \<sigma>)" using assms by (simp add: ring_inv_def)
  then show ?thesis by (simp add: consumer_def takeWhile_map comp_def)
qed

lemma ring_view_slices:
  assumes "ring_inv ring (old @ hs, \<sigma>)"
  shows "length (ring_view ring \<sigma>) = length (old @ hs)"
    and "h < length hs \<Longrightarrow> snd (ring_view ring \<sigma> ! (length old + h)) = snd (hs ! h)"
proof -
  have eq: "old @ hs = map (\<lambda>r. (rec_slice r, rr_done r)) (ring \<sigma>)" using assms by (simp add: ring_inv_def)
  then have len: "length (old @ hs) = length (ring \<sigma>)" by simp
  then show "length (ring_view ring \<sigma>) = length (old @ hs)" by (simp add: ring_view_def)
  show "snd (ring_view ring \<sigma> ! (length old + h)) = snd (hs ! h)" if "h < length hs"
  proof -
    have "hs ! h = (old @ hs) ! (length old + h)" by simp
    also have "\<dots> = map (\<lambda>r. (rec_slice r, rr_done r)) (ring \<sigma>) ! (length old + h)" unfolding eq ..
    finally show ?thesis using that len by (simp add: ring_view_def)
  qed
qed

section \<open>An invocation that panics, and one after it\<close>

text \<open>The first has reserved two bytes, the second reserves, writes and submits one byte.\<close>

definition no_message :: "panic \<Rightarrow> panic_info" where
  "no_message = (\<lambda>p. \<lparr>message = None, payload = None\<rparr>)"

definition record_left :: "ring_rec list machine_scheme" where
  "record_left = machine.more_update
     (\<lambda>rs. rs @ [\<lparr>rr_addr = 0x5000, rr_len = 2, rr_done = False\<rparr>]) ring_machine_init"

definition record_sent :: "ring_rec list machine_scheme" where
  "record_sent =
     (let \<rho> = machine.more_update (\<lambda>rs. rs @ [\<lparr>rr_addr = 0x6000, rr_len = 1, rr_done = False\<rparr>]) record_left
      in bpf_ringbuf_submit ring_kernel \<lparr>sl_ptr = 0x6000, sl_len = 1\<rparr> 0
           (\<rho>\<lparr>mem := store_bytes (mem \<rho>) 0x6000 [7]\<rparr>))"

lemma record_left_run:
  "runs (session_step release_x86 ring_kernel no_message ring_ex) [Do (Reserve 2)]
     ([], [], \<lambda>_. [], ring_machine_init) ([], [(\<lparr>sl_ptr = 0x5000, sl_len = 2\<rparr>, False)], \<lambda>_. [], record_left)"
proof -
  have "prog_step ring_kernel ring_ex (Reserve 2) ([], ring_machine_init)
      ([(\<lparr>sl_ptr = 0x5000, sl_len = 2\<rparr>, False)], record_left)"
    using ring_kernel_reserves [where sz = 2 and \<sigma> = ring_machine_init and a = "0x5000" and hs = "[]"]
    by (simp add: two_recs_reserve_def record_left_def)
  from session_step.does [OF this] show ?thesis by (intro runs.step) (auto intro: runs.halt)
qed

lemma record_sent_run:
  "runs (session_step release_x86 ring_kernel no_message ring_ex) [Do (Reserve 1), Do (Fill 0 [7]), Do (Submit 0)]
     ([] @ [(\<lparr>sl_ptr = 0x5000, sl_len = 2\<rparr>, False)], [], \<lambda>_. [], record_left)
     ([(\<lparr>sl_ptr = 0x5000, sl_len = 2\<rparr>, False)], [(\<lparr>sl_ptr = 0x6000, sl_len = 1\<rparr>, True)], \<lambda>_. [], record_sent)"
proof -
  let ?b = "\<lparr>sl_ptr = 0x6000, sl_len = 1\<rparr> :: slice"
  let ?\<rho>1 = "machine.more_update (\<lambda>rs. rs @ [\<lparr>rr_addr = 0x6000, rr_len = 1, rr_done = False\<rparr>]) record_left"
  let ?\<rho>2 = "?\<rho>1\<lparr>mem := store_bytes (mem ?\<rho>1) 0x6000 [7]\<rparr>"
  have 1: "prog_step ring_kernel ring_ex (Reserve 1) ([], record_left) ([(?b, False)], ?\<rho>1)"
    using ring_kernel_reserves [where sz = 1 and \<sigma> = record_left and a = "0x6000" and hs = "[]"]
    by (simp add: two_recs_reserve_def record_left_def)
  have 2: "prog_step ring_kernel ring_ex (Fill 0 [7]) ([(?b, False)], ?\<rho>1) ([(?b, False)], ?\<rho>2)"
    using prog_step.filled [of 0 "[(?b, False)]" "[7]" ring_kernel ring_ex ?\<rho>1] by simp
  have 3: "prog_step ring_kernel ring_ex (Submit 0) ([(?b, False)], ?\<rho>2) ([(?b, True)], record_sent)"
    using prog_step.submitted [of 0 "[(?b, False)]" ring_kernel ring_ex ?\<rho>2 0] by (simp add: record_sent_def Let_def)
  show ?thesis unfolding append_Nil
    by (rule runs.step, rule session_step.does [OF 1], rule runs.step, rule session_step.does [OF 2],
        rule runs.step, rule session_step.does [OF 3], rule runs.halt)
qed

lemma ring_table:
  "cleanup_entries_this_cpu release_x86 ring_kernel (machine.more_update f ring_machine_init) =
   cleanup_entries_this_cpu release_x86 (demo_kernel :: unit kernel) demo_machine"
proof -
  have "mem (machine.more_update f ring_machine_init) = mem demo_machine"
    "gs_base (machine.more_update f ring_machine_init) = gs_base demo_machine"
    by (simp_all add: ring_machine_init_def machine.defs)
  then show ?thesis
    by (simp add: cleanup_entries_this_cpu_def this_cpu_ptr_def this_cpu_read_u32_def ring_kernel_def)
qed

section \<open>Properties\<close>

text \<open>
  C18: A panic between the reservation of a record and its submission freezes the ring buffer for
  its consumer: the panic handler lands without giving the record back, and from then on,
  whatever later invocations reserve, write and submit and however they end, the consumer
  reads exactly what it could read at the panic, the records before the first one that was
  not submitted.
\<close>
theorem panicked_reservation_blocks:
  assumes "ring_env K (kptr mp) ring" and "ring \<sigma>0 = []" and "\<forall>a. set (tabs0 a) \<subseteq> {entry_default}"
    and "runs (session_step cfg K info_of mp) cmds ([], [], tabs0, \<sigma>0) (old, hs, tabs, \<sigma>)"
    and "h < length hs" and "\<not> snd (hs ! h)"
    and "panic_handler cfg K info_of p tabs \<sigma> = Some (msg, tabs', \<tau>)"
    and "runs (session_step cfg K info_of mp) later (old @ hs, [], tabs', \<tau>) (old', hs', tabs'', \<rho>)"
  shows "consumer ring \<rho> = consumer ring \<sigma> \<and>
    length (consumer ring \<sigma>) = length (takeWhile snd (old @ hs))"
proof -
  have "session_inv ring ([], [], tabs0, \<sigma>0)"
    using assms(2,3) by (simp add: session_inv_def ring_inv_def recs_ok_def)
  from session_steps [where ring = ring, OF assms(1,4) this]
  have inv: "session_inv ring (old, hs, tabs, \<sigma>)" by blast
  then have ring: "ring_inv ring (old @ hs, \<sigma>)" by (simp add: session_inv_def)
  have "session_step cfg K info_of mp (Panics p) (old, hs, tabs, \<sigma>) (old @ hs, [], tabs', \<tau>)"
    by (rule session_step.panics [OF assms(7)])
  from session_inv_step [where ring = ring, OF assms(1) this inv]
  have inv': "session_inv ring (old @ hs, [], tabs', \<tau>)" by blast
  have "tabs' = tabs \<and> \<tau> = \<sigma>"
    using inv by (intro panic_handler_empty [OF assms(7)]) (simp add: session_inv_def)
  with session_steps [where ring = ring, OF assms(1,8) inv']
  have same: "take (length (old @ hs)) (ring_view ring \<rho>) = take (length (old @ hs)) (ring_view ring \<sigma>)"
    and inv'': "session_inv ring (old', hs', tabs'', \<rho>)" and pre: "prefix (old @ hs) old'" by simp_all
  let ?k = "length old + h"
  have view: "length (ring_view ring \<sigma>) = length (old @ hs)" "snd (ring_view ring \<sigma> ! ?k) = snd (hs ! h)"
    using ring_view_slices [OF ring] assms(5) by auto
  have len: "length (old @ hs) \<le> length (ring_view ring \<rho>)"
    using same view(1) by (metis length_take min.cobounded1 min.absorb_iff2 order_refl)
  have "ring_view ring \<rho> ! ?k = ring_view ring \<sigma> ! ?k"
    using same assms(5) by (metis add_less_cancel_left length_append nth_take)
  with view assms(5,6) len have "takeWhile snd (ring_view ring \<rho>) = takeWhile snd (take (length (old @ hs)) (ring_view ring \<rho>))"
    by (intro takeWhile_take [of ?k, symmetric]) auto
  also have "\<dots> = takeWhile snd (ring_view ring \<sigma>)" using same view(1) by simp
  finally show ?thesis using consumer_length [OF ring] by (simp add: consumer_view)
qed

text \<open>
  On the kernel with two records: the first invocation panics with a record of two bytes, the
  second writes and submits one of a byte.
\<close>
theorem panicked_reservation_blocks_witness:
  "\<exists>\<sigma> tabs msg \<tau> \<rho>. panic_handler release_x86 ring_kernel no_message UnwrapOnNone tabs \<sigma> = Some (msg, tabs, \<tau>) \<and>
     map rr_done (machine.more \<rho>) = [False, True] \<and> consumer machine.more \<rho> = []"
proof -
  let ?tabs = "(\<lambda>_. []) :: ring_rec list tables"
  have "cleanup_entries_this_cpu release_x86 ring_kernel record_left = Ret 0x10200"
    unfolding record_left_def demo_table [symmetric] by (rule ring_table)
  from panic_handler_clean [where tabs = ?tabs, OF this, of "[]"]
  have p: "panic_handler release_x86 ring_kernel no_message UnwrapOnNone ?tabs record_left =
      Some (format_msg (no_message UnwrapOnNone), ?tabs, record_left)" by (simp add: fun_upd_idem)
  from panicked_reservation_blocks [where ring = machine.more, OF ring_kernel_env _ _ record_left_run _ _ p record_sent_run, of 0]
  have "consumer machine.more record_sent = consumer machine.more record_left" by simp
  then have "consumer machine.more record_sent = []" by (simp add: consumer_def record_left_def)
  moreover have "map rr_done (machine.more record_sent) = [False, True]"
    by (simp add: record_sent_def record_left_def bpf_ringbuf_submit_def ring_kernel_def)
  ultimately show ?thesis using p by (intro exI conjI)
qed

end
