(* ===== verification/Tracepoint.thy ===== *)
theory Tracepoint
  imports Prog_Type
begin

text \<open>
  \<open>tracepoint/\<close>: the argument structs of the two traced system calls, the program type with
  the tracepoint it is for, and \<open>prog_run\<close>. A context holds the reference to its arguments.
\<close>

record SyscallsEnterOpenArgs =
  en_unused :: u64
  en_syscall_nr :: i64
  en_filename_ptr :: i64
  en_flags :: i64
  en_mode :: i64

record SyscallsExitOpenArgs =
  ex_unused :: u64
  ex_syscall_nr :: i64
  ex_ret :: i64

text \<open>What a program reads through the references, by the \<open>repr(C)\<close> layout.\<close>

definition enter_open_at :: "(u64 \<Rightarrow> u8) \<Rightarrow> u64 \<Rightarrow> SyscallsEnterOpenArgs" where
  "enter_open_at m a =
     \<lparr>en_unused = load_le m a, en_syscall_nr = load_le m (a + 8),
      en_filename_ptr = load_le m (a + 16), en_flags = load_le m (a + 24),
      en_mode = load_le m (a + 32)\<rparr>"

definition exit_open_at :: "(u64 \<Rightarrow> u8) \<Rightarrow> u64 \<Rightarrow> SyscallsExitOpenArgs" where
  "exit_open_at m a =
     \<lparr>ex_unused = load_le m a, ex_syscall_nr = load_le m (a + 8), ex_ret = load_le m (a + 16)\<rparr>"

datatype tp_type = Void | SyscallsEnterOpen | SyscallsExitOpen

datatype tp_ctx = CtxVoid | CtxSyscallsEnterOpen u64 | CtxSyscallsExitOpen u64

record 'k tracepoint =
  tp_rtti :: u64
  tp_prog :: "tp_ctx \<Rightarrow> ('k, c_result) run"
  tp_name :: string
  tp_tp_type :: tp_type

definition tracepoint_new ::
  "'k kernel \<Rightarrow> (tp_ctx \<Rightarrow> ('k, c_result) run) \<Rightarrow> string \<Rightarrow> tp_type \<Rightarrow> 'k tracepoint" where
  "tracepoint_new K f nm tp_ty =
     \<lparr>tp_rtti = ucast (BPF_PROG_TYPE_TRACEPOINT K), tp_prog = f, tp_name = nm, tp_tp_type = tp_ty\<rparr>"

definition tp_convert_ctx :: "'k tracepoint \<Rightarrow> u64 \<Rightarrow> tp_ctx" where
  "tp_convert_ctx p ctx =
     (case tp_tp_type p of
        Void \<Rightarrow> CtxVoid
      | SyscallsEnterOpen \<Rightarrow> CtxSyscallsEnterOpen ctx
      | SyscallsExitOpen \<Rightarrow> CtxSyscallsExitOpen ctx)"

definition tp_bpf_get_current_task :: "'k kernel \<Rightarrow> 'k machine_scheme \<Rightarrow> TaskStruct option" where
  "tp_bpf_get_current_task K \<sigma> = get_current_task K \<sigma>"

definition tp_prog_run :: "'k tracepoint \<Rightarrow> u64 \<Rightarrow> ('k, u32) run" where
  "tp_prog_run p ctx = (let newctx = tp_convert_ctx p ctx in verdict 0 (tp_prog p newctx))"

text \<open>The conversion depends on the program's tracepoint, so the raw context stays one here.\<close>

interpretation tp_run: iu_prog "\<lambda>ctx \<sigma>. Ret ctx" "\<lambda>p ctx. tp_prog p (tp_convert_ctx p ctx)" tp_prog_run 0
  by unfold_locales (simp add: tp_prog_run_def Let_def run_simps)

text \<open>The tracepoint a context is of, and its argument pointer.\<close>

fun ctx_type :: "tp_ctx \<Rightarrow> tp_type" where
  "ctx_type CtxVoid = Void"
| "ctx_type (CtxSyscallsEnterOpen a) = SyscallsEnterOpen"
| "ctx_type (CtxSyscallsExitOpen a) = SyscallsExitOpen"

fun ctx_args :: "tp_ctx \<Rightarrow> u64 option" where
  "ctx_args CtxVoid = None"
| "ctx_args (CtxSyscallsEnterOpen a) = Some a"
| "ctx_args (CtxSyscallsExitOpen a) = Some a"

section \<open>Properties\<close>

text \<open>
  A tracepoint program is only ever run on the context of the tracepoint it was built for:
  \<open>prog_run\<close> runs its function on a context of that type, which carries the raw pointer
  unless the type has no arguments.
\<close>
theorem tracepoint_runs_on_its_type:
  "\<exists>c. tp_prog_run (tracepoint_new K f nm ty) ctx = verdict 0 (f c) \<and> ctx_type c = ty \<and>
     (\<forall>a. ctx_args c = Some a \<longrightarrow> a = ctx) \<and> (ctx_args c = None \<longleftrightarrow> ty = Void)"
  by (cases ty) (auto simp: tp_prog_run_def tp_convert_ctx_def tracepoint_new_def)

theorem tracepoint_runs_on_its_type_witness:
  "\<exists>c. tp_prog_run (tracepoint_new demo_kernel (\<lambda>c. ret_m (Ok 0)) ''p'' SyscallsExitOpen) 8 =
     verdict 0 (ret_m (Ok 0)) \<and> ctx_args c = Some 8"
  using tracepoint_runs_on_its_type [of demo_kernel "\<lambda>c. ret_m (Ok 0)" "''p''" SyscallsExitOpen 8]
  by fastforce

end
