(* ===== verification/Context_Escape.thy ===== *)
theory Context_Escape
  imports Kprobe Tracepoint Perf_Event Typed_Map
begin

text \<open>
  What safe programs can do with the contexts of \<open>kprobe_impl.rs\<close> and \<open>perf_event_impl.rs\<close> through
  helpers that take a value of any type: \<open>bpf_probe_read_kernel\<close> fills any \<open>&mut T\<close>, so also the
  registers of a kprobe, whose fields are private to keep programs from writing them; and a
  map holds values of any type, so also a copy of the context of a perf event, with the
  kernel's pointer in it, which is good for one event only.
\<close>

section \<open>Registers as bytes\<close>

abbreviation byte_mem :: "u8 list \<Rightarrow> u64 \<Rightarrow> u8" where
  "byte_mem bs \<equiv> store_bytes (\<lambda>_. 0) 0 bs"

definition regs_bytes :: "pt_regs \<Rightarrow> u8 list" where
  "regs_bytes r = concat (map (\<lambda>(name, get). word_bytes (get r)) decl_reg_accessors)"

definition regs_of_bytes :: "u8 list \<Rightarrow> pt_regs" where
  "regs_of_bytes bs = pt_regs_at (byte_mem bs) 0"

lemma byte_mem_nth: "i < length bs \<Longrightarrow> i < 2 ^ 64 \<Longrightarrow> byte_mem bs (of_nat i) = bs ! i"
  by (simp add: store_bytes_def unat_of_nat)

lemma length_regs_bytes: "length (regs_bytes r) = sizeof_pt_regs"
  by (simp add: regs_bytes_def decl_reg_accessors_def sizeof_pt_regs_def)

lemma load_le_byte_mem:
  assumes "off + 8 \<le> n" and "n < 2 ^ 32"
  shows "load_le (byte_mem (load_bytes m p n)) (of_nat off) = (load_le m (p + of_nat off) :: u64)"
proof -
  have "byte_mem (load_bytes m p n) (of_nat off + of_nat i) = m (p + of_nat off + of_nat i)" if "i < 8" for i
  proof -
    have "byte_mem (load_bytes m p n) (of_nat (off + i)) = load_bytes m p n ! (off + i)"
      using assms that by (intro byte_mem_nth) auto
    with assms that show ?thesis by (simp add: add.assoc)
  qed
  then have "load_bytes (byte_mem (load_bytes m p n)) (of_nat off) 8 = load_bytes m (p + of_nat off) 8"
    by (simp add: load_bytes_def)
  then show ?thesis by (simp add: load_le_def)
qed

text \<open>The registers whose bytes are those at \<open>p\<close> are the registers laid out at \<open>p\<close>.\<close>

lemma regs_of_load_bytes: "regs_of_bytes (load_bytes m p sizeof_pt_regs) = pt_regs_at m p"
proof -
  have w: "load_le (byte_mem (load_bytes m p 168)) (of_nat (8 * i)) = (load_le m (p + of_nat (8 * i)) :: u64)"
    if "i < 21" for i
    using that by (intro load_le_byte_mem) auto
  from w [of 0] w [of 1] w [of 2] w [of 3] w [of 4] w [of 5] w [of 6] w [of 7] w [of 8] w [of 9]
    w [of 10] w [of 11] w [of 12] w [of 13] w [of 14] w [of 15] w [of 16] w [of 17] w [of 18] w [of 19] w [of 20]
  show ?thesis by (simp add: regs_of_bytes_def pt_regs_at_def sizeof_pt_regs_def)
qed

section \<open>A kprobe program that writes its registers\<close>

text \<open>\<open>obj.bpf_probe_read_kernel(ctx, ptr)\<close> with the context, a \<open>&mut pt_regs\<close>, as destination.\<close>

definition probe_read_regs :: "'k kernel \<Rightarrow> u64 \<Rightarrow> u64 \<Rightarrow> ('k, c_result) run" where
  "probe_read_regs K ptr ctx \<sigma> =
     (let (r, bs, \<tau>) = bpf_probe_read_kernel K (regs_bytes (pt_regss \<sigma> ctx)) ptr \<sigma>
      in (Ret r, \<tau>\<lparr>pt_regss := (pt_regss \<tau>)(ctx := regs_of_bytes bs)\<rparr>))"

text \<open>The kernel's function copies memory it can read and returns 0.\<close>

definition readable :: "'k kernel \<Rightarrow> u64 \<Rightarrow> nat \<Rightarrow> bool" where
  "readable K p n \<longleftrightarrow>
     (\<forall>dst \<sigma>. length dst = n \<longrightarrow> k_probe_read_kernel K dst (of_nat n) p \<sigma> = (0, load_bytes (mem \<sigma>) p n, \<sigma>))"

section \<open>Perf-event programs that keep a context\<close>

text \<open>
  \<open>bpf_perf_event_data\<close> is \<open>Copy\<close>. Its layout is the compiler's: a pair of functions that
  give the bytes of a context and read it back, for a map whose value type it is.
\<close>

definition value_layout :: "iu_map \<Rightarrow> ('a \<Rightarrow> u8 list) \<Rightarrow> (u8 list \<Rightarrow> 'a) \<Rightarrow> bool" where
  "value_layout mp enc dec \<longleftrightarrow> (\<forall>x. length (enc x) = vsize mp \<and> dec (enc x) = x)"

text \<open>A value that was stored is what a later lookup finds, while the entry is left alone.\<close>

lemma kept_value:
  assumes "map_env K mp slots" and "value_layout mp enc dec" and "kptr mp \<noteq> 0" and "length key = ksize mp"
    and "slots_ok mp slots \<sigma>" and put: "bpf_map_update_elem K mp key (enc x) flags \<sigma> = (Ok 0, \<tau>)"
    and "slots_ok mp slots \<rho>" and same: "dict mp slots \<rho> key = dict mp slots \<tau> key"
  shows "\<exists>a \<upsilon>. bpf_map_lookup_elem K mp key \<rho> = (Some a, \<upsilon>) \<and> dec (load_bytes (mem \<upsilon>) a (vsize mp)) = x"
proof -
  have env: "lookup_env K mp slots" "update_env K mp slots" using assms(1) by (simp_all add: map_env_def)
  have lay: "length (enc x) = vsize mp" "dec (enc x) = x" using assms(2) by (simp_all add: value_layout_def)
  from put_refines [OF env(2) assms(5,3) _ put] assms(4) lay(1) same
  have d: "dict mp slots \<rho> key = Some (enc x)" by simp
  then obtain a where a: "slots \<rho> key = Some a" by (auto simp: dict_def)
  obtain r \<upsilon> where l: "bpf_map_lookup_elem K mp key \<rho> = (r, \<upsilon>)" by fastforce
  from lookup_slot [OF env(1) assms(7,3,4) l] a d
  have "r = Some a" and "load_bytes (mem \<upsilon>) a (vsize mp) = enc x"
    by (simp, metis dict_def option.map(2) option.inject)
  with l lay(2) show ?thesis by simp
qed

text \<open>One program stores its context in a map, another one uses the stored context.\<close>

definition keep_ctx ::
  "'k kernel \<Rightarrow> iu_map \<Rightarrow> (bpf_perf_event_data \<Rightarrow> u8 list) \<Rightarrow> u8 list \<Rightarrow> u64 \<Rightarrow> bpf_perf_event_data \<Rightarrow> ('k, c_result) run" where
  "keep_ctx K mp enc key flags ctx = lift_m (bpf_map_update_elem K mp key (enc ctx) flags)"

definition use_kept_ctx ::
  "'k kernel \<Rightarrow> iu_map \<Rightarrow> (u8 list \<Rightarrow> bpf_perf_event_data) \<Rightarrow> u8 list \<Rightarrow> u8 list \<Rightarrow> bpf_perf_event_data \<Rightarrow> ('k, c_result) run" where
  "use_kept_ctx K mp dec key buf ctx \<sigma> =
     (case bpf_map_lookup_elem K mp key \<sigma> of
        (None, \<tau>) \<Rightarrow> (Ret (Ok 0), \<tau>)
      | (Some a, \<tau>) \<Rightarrow>
          (let (r, out, \<rho>) = bpf_perf_prog_read_value K (dec (load_bytes (mem \<tau>) a (vsize mp))) buf \<tau>
           in (Ret r, \<rho>)))"

section \<open>Tracepoint programs that keep a task\<close>

text \<open>The same with the current task, in the map's type \<open>IUMap<_, _, TaskStruct>\<close>.\<close>

definition keep_task ::
  "'k kernel \<Rightarrow> iu_map \<Rightarrow> (TaskStruct \<Rightarrow> u8 list) \<Rightarrow> u8 list \<Rightarrow> u64 \<Rightarrow> tp_ctx \<Rightarrow> ('k, c_result) run" where
  "keep_task K mp enc key flags ctx =
     bind_m (get_m (tp_bpf_get_current_task K)) (\<lambda>cur.
       case cur of None \<Rightarrow> ret_m (Ok 0) | Some t \<Rightarrow> lift_m (bpf_map_update_elem K mp key (enc t) flags))"

definition use_kept_task ::
  "'k kernel \<Rightarrow> iu_map \<Rightarrow> (u8 list \<Rightarrow> TaskStruct) \<Rightarrow> u8 list \<Rightarrow> tp_ctx \<Rightarrow> ('k, c_result) run" where
  "use_kept_task K mp dec key ctx =
     bind_m (lift_m (bpf_map_lookup_elem K mp key)) (\<lambda>r.
       case r of None \<Rightarrow> ret_m (Ok 0)
       | Some a \<Rightarrow> get_m (\<lambda>\<sigma>. Ok (get_pid \<sigma> (dec (load_bytes (mem \<sigma>) a (vsize mp))))))"

section \<open>A layout of the context, and a kernel that tells events apart\<close>

text \<open>The words of a context in a row, and the word at a place.\<close>

definition data_words :: "bpf_perf_event_data \<Rightarrow> u64 list" where
  "data_words d = map (\<lambda>(name, get). get (pe_regs d)) decl_reg_accessors @ [pe_sample_period d, pe_addr d, pe_kptr d]"

definition data_bytes :: "bpf_perf_event_data \<Rightarrow> u8 list" where
  "data_bytes d = concat (map word_bytes (data_words d))"

definition data_of_bytes :: "u8 list \<Rightarrow> bpf_perf_event_data" where
  "data_of_bytes bs = \<lparr>pe_regs = pt_regs_at (byte_mem bs) 0, pe_sample_period = load_le (byte_mem bs) 168,
     pe_addr = load_le (byte_mem bs) 176, pe_kptr = load_le (byte_mem bs) 184\<rparr>"

lemma concat_word_bytes_nth:
  "i < length ws \<Longrightarrow> j < 8 \<Longrightarrow> concat (map word_bytes ws) ! (8 * i + j) = word_bytes ((ws :: u64 list) ! i) ! j"
  by (induction ws arbitrary: i) (auto simp: nth_append nth_Cons split: nat.splits)

lemma load_le_word_bytes:
  assumes "\<And>j. j < 8 \<Longrightarrow> m (a + of_nat j) = word_bytes (w :: u64) ! j"
  shows "load_le m a = w"
proof (rule bit_word_eqI)
  fix k assume k: "k < LENGTH(64)"
  then have "k div 8 < 8" "8 * (k div 8) + k mod 8 = k" "k mod 8 < 8" by auto
  with k assms [of "k div 8"] show "bit (load_le m a :: u64) k = bit w k"
    by (auto simp: bit_load_le word_bytes_def bit_ucast_iff bit_drop_bit_eq dest: bit_imp_le_length)
qed

lemma load_le_words:
  assumes "i < length ws" and "length ws < 2 ^ 32"
  shows "load_le (byte_mem (concat (map word_bytes ws))) (of_nat (8 * i)) = (ws ! i :: u64)"
proof (rule load_le_word_bytes)
  fix j :: nat assume j: "j < 8"
  have len: "length (concat (map word_bytes ws)) = 8 * length ws" by (induction ws) simp_all
  have "byte_mem (concat (map word_bytes ws)) (of_nat (8 * i + j)) = concat (map word_bytes ws) ! (8 * i + j)"
    using assms j by (intro byte_mem_nth) (auto simp: len)
  then show "byte_mem (concat (map word_bytes ws)) (of_nat (8 * i) + of_nat j) = word_bytes (ws ! i) ! j"
    using concat_word_bytes_nth [OF assms(1) j] by simp
qed

lemma data_layout: "data_of_bytes (data_bytes d) = d" "length (data_bytes d) = 192"
proof -
  have w: "load_le (byte_mem (data_bytes d)) (of_nat (8 * i)) = data_words d ! i" if "i < 24" for i
    unfolding data_bytes_def using that
    by (intro load_le_words) (simp_all add: data_words_def decl_reg_accessors_def)
  obtain r p a k where d: "d = \<lparr>pe_regs = r, pe_sample_period = p, pe_addr = a, pe_kptr = k\<rparr>" by (cases d)
  from w [of 0] w [of 1] w [of 2] w [of 3] w [of 4] w [of 5] w [of 6] w [of 7] w [of 8] w [of 9]
    w [of 10] w [of 11] w [of 12] w [of 13] w [of 14] w [of 15] w [of 16] w [of 17] w [of 18] w [of 19]
    w [of 20] w [of 21] w [of 22] w [of 23]
  show "data_of_bytes (data_bytes d) = d"
    by (cases r) (simp add: data_of_bytes_def pt_regs_at_def data_words_def decl_reg_accessors_def d)
  show "length (data_bytes d) = 192"
    by (simp add: data_bytes_def data_words_def decl_reg_accessors_def)
qed

definition task_of_bytes :: "u8 list \<Rightarrow> TaskStruct" where
  "task_of_bytes bs = \<lparr>task_kptr = load_le (byte_mem bs) 0\<rparr>"

lemma task_layout: "task_of_bytes (word_bytes (task_kptr t)) = t"
proof -
  have "load_le (byte_mem (word_bytes (task_kptr t))) 0 = task_kptr t"
    using byte_mem_nth [of _ "word_bytes (task_kptr t)"] by (intro load_le_word_bytes) simp
  then show ?thesis by (cases t) (simp add: task_of_bytes_def)
qed

definition value_kernel :: "u8 list option kernel" where
  "value_kernel = slot_kernel\<lparr>k_perf_prog_read_value := (\<lambda>p buf n \<sigma>. (ucast p, buf, \<sigma>))\<rparr>"

abbreviation ctx_map :: iu_map where "ctx_map \<equiv> MAP_DEF 1 1 192 1 0 1"

lemma value_kernel_env: "map_env value_kernel mp slot_slots"
  using slot_env [of mp] by (simp add: map_env_def lookup_env_def update_env_def delete_env_def value_kernel_def)

section \<open>Properties\<close>

text \<open>
  C20: The private fields of \<open>pt_regs\<close> do not keep a kprobe program from changing the probed
  code's registers: with the context as the destination of \<open>bpf_probe_read_kernel\<close>, a program
  in safe Rust returns 0 and leaves every register, the instruction pointer and the code
  segment included, with the word at its place behind a pointer of the program's choice.
\<close>
theorem kprobe_registers_overwritten:
  assumes "readable K p sizeof_pt_regs"
  shows "kp_prog_run (kprobe_new K (probe_read_regs K p) nm) ctx \<sigma> =
    (Ret 0, \<sigma>\<lparr>pt_regss := (pt_regss \<sigma>)(ctx := pt_regs_at (mem \<sigma>) p)\<rparr>)"
  using assms length_regs_bytes [of "pt_regss \<sigma> ctx"]
  by (simp add: kp_prog_run_def kp_convert_ctx_def kprobe_new_def verdict_def bind_m_def ret_m_def
      probe_read_regs_def bpf_probe_read_kernel_def readable_def regs_of_load_bytes to_result_def)

theorem kprobe_registers_overwritten_witness:
  "rip (pt_regss (snd (kp_prog_run (kprobe_new demo_kernel (probe_read_regs demo_kernel 0x9000) ''p'') 8
     (demo_machine\<lparr>mem := (\<lambda>a. if a = 0x9080 then 7 else 0)\<rparr>))) 8) = 7"
proof -
  have "readable (demo_kernel :: unit kernel) 0x9000 sizeof_pt_regs"
    by (simp add: readable_def demo_kernel_def)
  from kprobe_registers_overwritten [OF this]
  show ?thesis by (simp add: pt_regs_at_def load_le_def load_bytes_def upt_rec)
qed

text \<open>
  C21: The context of a perf event can outlive the event: it is \<open>Copy\<close>, and a map takes values of
  any type. When a program has stored its context in a map, a program that finds it there at
  another event, after whatever else left the entry alone, makes the kernel read the value
  of the first event: the kernel gets the pointer of the first event's record, whatever the
  second one's is, and its result is the program's.
\<close>
theorem perf_context_outlives_event:
  assumes "map_env K mp slots" and "value_layout mp enc dec" and "kptr mp \<noteq> 0" and "length key = ksize mp"
    and "slots_ok mp slots \<sigma>" and keep: "keep_ctx K mp enc key flags (pe_convert_ctx ctx \<sigma>) \<sigma> = (Ret (Ok 0), \<tau>)"
    and "slots_ok mp slots \<rho>" and same: "dict mp slots \<rho> key = dict mp slots \<tau> key"
  shows "pe_prog_run (perf_event_new K (use_kept_ctx K mp dec key buf) nm) ctx' \<rho> =
    (case k_perf_prog_read_value K ctx buf (sizeof_perf_event_value K) (snd (bpf_map_lookup_elem K mp key \<rho>)) of
       (r, out, \<upsilon>) \<Rightarrow> (Ret (unwrap_or_else (to_result r) (\<lambda>_. 0)), \<upsilon>))"
proof -
  let ?c = "pe_convert_ctx ctx \<sigma>"
  have "bpf_map_update_elem K mp key (enc ?c) flags \<sigma> = (Ok 0, \<tau>)"
    using keep by (auto simp: keep_ctx_def lift_m_def split: prod.splits)
  from kept_value [OF assms(1-5) this assms(7) same] obtain a \<upsilon> where
    l: "bpf_map_lookup_elem K mp key \<rho> = (Some a, \<upsilon>)" and "dec (load_bytes (mem \<upsilon>) a (vsize mp)) = ?c" by blast
  moreover have "pe_kptr ?c = ctx" by (simp add: pe_convert_ctx_def Let_def)
  ultimately have "use_kept_ctx K mp dec key buf c \<rho> =
      (case k_perf_prog_read_value K ctx buf (sizeof_perf_event_value K) \<upsilon> of (q, out, \<omega>) \<Rightarrow> (Ret (to_result q), \<omega>))" for c
    by (simp add: use_kept_ctx_def bpf_perf_prog_read_value_def split: prod.splits)
  then show ?thesis
    by (simp add: pe_prog_run_def perf_event_new_def run_simps verdict_def l)
       (simp add: bind_m_def ret_m_def split: prod.splits)
qed

text \<open>Event 8 is stored, and a program on event 16 gets event 8's value.\<close>
theorem perf_context_outlives_event_witness:
  "\<exists>\<tau> \<upsilon>. keep_ctx value_kernel ctx_map data_bytes [1] 0 (pe_convert_ctx 8 slot_machine_init) slot_machine_init =
      (Ret (Ok 0), \<tau>) \<and>
    pe_prog_run (perf_event_new value_kernel (use_kept_ctx value_kernel ctx_map data_of_bytes [1] []) ''p'') 16 \<tau> =
      (Ret 8, \<upsilon>)"
proof -
  have lay: "value_layout ctx_map data_bytes data_of_bytes"
    by (simp add: value_layout_def data_layout MAP_DEF_def iu_map_new_def)
  obtain \<tau> where keep: "keep_ctx value_kernel ctx_map data_bytes [1] 0 (pe_convert_ctx 8 slot_machine_init)
      slot_machine_init = (Ret (Ok 0), \<tau>)"
    by (simp add: keep_ctx_def lift_m_def bpf_map_update_elem_def value_kernel_def slot_kernel_def
        MAP_DEF_def iu_map_new_def code_ok)
  have ok: "slots_ok ctx_map slot_slots \<sigma>" for \<sigma> by (simp add: slots_ok_def slot_slots_def)
  from perf_context_outlives_event [OF value_kernel_env lay _ _ ok keep ok refl, of "[]" "''p''" 16]
  have "pe_prog_run (perf_event_new value_kernel (use_kept_ctx value_kernel ctx_map data_of_bytes [1] []) ''p'') 16 \<tau> =
      (Ret 8, snd (bpf_map_lookup_elem value_kernel ctx_map [1] \<tau>))"
    by (simp add: MAP_DEF_def iu_map_new_def value_kernel_def to_result_def word_sless_alt)
  with keep show ?thesis by blast
qed

text \<open>
  C35: The current task of an invocation can outlive it, although a comment in \<open>task_struct.rs\<close>
  counts on the reference not being used after the program: a program that has stored the
  task in a map lets a later one, run when the task may be gone, read what is then at the
  old pointer, whichever task is current.
\<close>
theorem kept_task_read_later:
  assumes "map_env K mp slots" and "value_layout mp enc dec" and "kptr mp \<noteq> 0" and "length key = ksize mp"
    and "slots_ok mp slots \<sigma>" and cur: "tp_bpf_get_current_task K \<sigma> = Some t"
    and keep: "keep_task K mp enc key flags c \<sigma> = (Ret (Ok 0), \<tau>)"
    and "slots_ok mp slots \<rho>" and same: "dict mp slots \<rho> key = dict mp slots \<tau> key"
  shows "\<exists>\<upsilon>. snd (bpf_map_lookup_elem K mp key \<rho>) = \<upsilon> \<and>
    tp_prog_run (tracepoint_new K (use_kept_task K mp dec key) nm ty) ctx \<rho> =
      (Ret (ts_pid (task_structs \<upsilon> (task_kptr t))), \<upsilon>)"
proof -
  have "bpf_map_update_elem K mp key (enc t) flags \<sigma> = (Ok 0, \<tau>)"
    using keep cur by (auto simp: keep_task_def run_simps lift_m_def split: prod.splits)
  from kept_value [OF assms(1-5) this assms(8) same] obtain a \<upsilon> where
    "bpf_map_lookup_elem K mp key \<rho> = (Some a, \<upsilon>)" and "dec (load_bytes (mem \<upsilon>) a (vsize mp)) = t" by blast
  then show ?thesis
    by (simp add: tp_prog_run_def tracepoint_new_def Let_def use_kept_task_def run_simps verdict_def)
       (simp add: bind_m_def get_m_def ret_m_def lift_m_def get_pid_def)
qed

text \<open>The task at \<open>0x40\<close> is stored, and its pid read when no task is current.\<close>
theorem kept_task_read_later_witness:
  "\<exists>\<rho> \<upsilon>. tp_bpf_get_current_task value_kernel \<rho> = None \<and>
     tp_prog_run (tracepoint_new value_kernel (use_kept_task value_kernel (MAP_DEF 1 1 8 1 0 1) task_of_bytes [1]) ''p'' Void)
       0 \<rho> = (Ret 1, \<upsilon>)"
proof -
  let ?mp = "MAP_DEF 1 1 8 1 0 1"
  let ?\<sigma> = "slot_machine_init\<lparr>mem := (\<lambda>a. if a = 0x10118 then 0x40 else 0)\<rparr>"
  have lay: "value_layout ?mp (\<lambda>t. word_bytes (task_kptr t)) task_of_bytes"
    by (simp add: value_layout_def task_layout MAP_DEF_def iu_map_new_def)
  have ok: "slots_ok mp slot_slots \<sigma>" for mp \<sigma> by (simp add: slots_ok_def slot_slots_def)
  have "tp_bpf_get_current_task value_kernel ?\<sigma> = Some (task_new 0x40)"
    by (simp add: tp_bpf_get_current_task_def get_current_task_def this_cpu_read_ptr_def value_kernel_def
        slot_kernel_def slot_machine_init_def machine.extend_def load_le_def load_bytes_def upt_rec)
  note cur = this
  define \<tau> where "\<tau> = machine.more_update (\<lambda>_. Some [1])
    (?\<sigma>\<lparr>mem := store_bytes (mem ?\<sigma>) 0x5000 (word_bytes (0x40 :: u64))\<rparr>)"
  have upd: "bpf_map_update_elem value_kernel ?mp [1] (word_bytes (0x40 :: u64)) 0 ?\<sigma> = (Ok 0, \<tau>)"
    by (simp add: bpf_map_update_elem_def value_kernel_def slot_kernel_def MAP_DEF_def iu_map_new_def code_ok
        slot_machine_init_def machine.extend_def \<tau>_def)
  then have keep: "keep_task value_kernel ?mp (\<lambda>t. word_bytes (task_kptr t)) [1] 0 CtxVoid ?\<sigma> = (Ret (Ok 0), \<tau>)"
    by (simp add: keep_task_def run_simps cur lift_m_def task_new_def)
  let ?\<rho> = "\<tau>\<lparr>gs_base := 0\<rparr>"
  have "dict ?mp slot_slots ?\<rho> [1] = dict ?mp slot_slots \<tau> [1]" by (simp add: dict_def slot_slots_def)
  from kept_task_read_later [OF value_kernel_env lay _ _ ok cur keep ok this, of "''p''" Void 0]
  obtain \<upsilon> where \<upsilon>: "snd (bpf_map_lookup_elem value_kernel ?mp [1] ?\<rho>) = \<upsilon>"
    "tp_prog_run (tracepoint_new value_kernel (use_kept_task value_kernel ?mp task_of_bytes [1]) ''p'' Void) 0 ?\<rho> =
      (Ret (ts_pid (task_structs \<upsilon> (task_kptr (task_new 0x40)))), \<upsilon>)"
    by (auto simp: MAP_DEF_def iu_map_new_def)
  have "task_structs \<upsilon> a = task_structs demo_machine a" for a
    using \<upsilon>(1) by (auto simp: bpf_map_lookup_elem_def value_kernel_def slot_kernel_def MAP_DEF_def iu_map_new_def
        \<tau>_def slot_machine_init_def machine.extend_def split: if_splits)
  then have "ts_pid (task_structs \<upsilon> a) = 1" for a by (simp add: demo_machine_def)
  moreover have "tp_bpf_get_current_task value_kernel ?\<rho> = None"
    by (simp add: tp_bpf_get_current_task_def get_current_task_def this_cpu_read_ptr_def value_kernel_def \<tau>_def
        slot_kernel_def slot_machine_init_def machine.extend_def load_le_def load_bytes_def upt_rec store_bytes_def)
  ultimately show ?thesis using \<upsilon>(2) by auto
qed

end
