(* ===== verification/Debug.thy ===== *)
theory Debug
  imports Machine
begin

text \<open>
  \<open>debug.rs\<close>: the kernel's printer for the crate itself. The format is handed over as a bare
  address, so the kernel reads it as a C string, up to the first NUL byte.
\<close>

text \<open>The format is a \<open>&str\<close>, address and length; the variadic arguments are words.\<close>

definition printk :: "'k kernel \<Rightarrow> slice \<Rightarrow> u64 list \<Rightarrow> 'k machine_scheme \<Rightarrow> i32 \<times> 'k machine_scheme" where
  "printk K fmt ap \<sigma> = k_vprintk K (sl_ptr fmt) ap \<sigma>"

text \<open>A C string of \<open>n\<close> bytes and its terminator start at \<open>a\<close>.\<close>

definition c_string_at :: "(u64 \<Rightarrow> u8) \<Rightarrow> u64 \<Rightarrow> nat \<Rightarrow> bool" where
  "c_string_at m a n \<longleftrightarrow> m (a + of_nat n) = 0 \<and> (\<forall>i<n. m (a + of_nat i) \<noteq> 0)"

lemma c_string_in_slice:
  assumes "c_string_at m (sl_ptr s) n"
  shows "n < sl_len s \<longleftrightarrow> 0 \<in> set (load_bytes m (sl_ptr s) (sl_len s))"
proof
  assume "n < sl_len s"
  with assms show "0 \<in> set (load_bytes m (sl_ptr s) (sl_len s))"
    by (force simp: load_bytes_def c_string_at_def)
next
  assume "0 \<in> set (load_bytes m (sl_ptr s) (sl_len s))"
  then obtain i where "i < sl_len s" "m (sl_ptr s + of_nat i) = 0"
    by (auto simp: load_bytes_def)
  with assms show "n < sl_len s" unfolding c_string_at_def by (metis not_less_iff_gr_or_eq order_less_trans)
qed

text \<open>
  The kernel's printer looks at the arguments and the C string at the address it is given, and
  at no other byte of memory.
\<close>

definition reads_c_string :: "'k kernel \<Rightarrow> bool" where
  "reads_c_string K \<longleftrightarrow>
     (\<forall>a ap \<sigma> m n. c_string_at (mem \<sigma>) a n \<and> load_bytes m a (Suc n) = load_bytes (mem \<sigma>) a (Suc n) \<longrightarrow>
        fst (k_vprintk K a ap (\<sigma>\<lparr>mem := m\<rparr>)) = fst (k_vprintk K a ap \<sigma>))"

text \<open>
  The printer's result depends on the bytes of the format string alone exactly as the
  warning in the code asks for: when the string holds a NUL byte, changing any memory outside
  it changes nothing. Without one, the C string the kernel reads goes on behind the \<open>&str\<close>.
\<close>
theorem printk_reads_format_only:
  assumes "reads_c_string K" and "c_string_at (mem \<sigma>) (sl_ptr fmt) n"
  shows "(0 \<in> set (load_bytes (mem \<sigma>) (sl_ptr fmt) (sl_len fmt)) \<longrightarrow>
      (\<forall>m. load_bytes m (sl_ptr fmt) (sl_len fmt) = load_bytes (mem \<sigma>) (sl_ptr fmt) (sl_len fmt) \<longrightarrow>
         fst (printk K fmt ap (\<sigma>\<lparr>mem := m\<rparr>)) = fst (printk K fmt ap \<sigma>))) \<and>
    (0 \<notin> set (load_bytes (mem \<sigma>) (sl_ptr fmt) (sl_len fmt)) \<longrightarrow> sl_len fmt \<le> n)"
proof -
  have same: "fst (printk K fmt ap (\<sigma>\<lparr>mem := m\<rparr>)) = fst (printk K fmt ap \<sigma>)"
    if "n < sl_len fmt" and "load_bytes m (sl_ptr fmt) (sl_len fmt) = load_bytes (mem \<sigma>) (sl_ptr fmt) (sl_len fmt)" for m
  proof -
    from that have "load_bytes m (sl_ptr fmt) (Suc n) = load_bytes (mem \<sigma>) (sl_ptr fmt) (Suc n)"
      by (simp add: load_bytes_eq_iff)
    with assms show ?thesis unfolding reads_c_string_def printk_def by blast
  qed
  show ?thesis using c_string_in_slice [OF assms(2)] same by (auto simp: not_less)
qed

theorem printk_reads_format_only_witness:
  "fst (printk (demo_kernel\<lparr>k_vprintk := (\<lambda>a ap \<sigma>. (ucast (mem \<sigma> a), \<sigma>))\<rparr>) \<lparr>sl_ptr = 8, sl_len = 1\<rparr> []
     (demo_machine\<lparr>mem := (\<lambda>a. if a = 8 then 0 else 7)\<rparr>)) = 0"
proof -
  let ?K = "demo_kernel\<lparr>k_vprintk := (\<lambda>a ap \<sigma>. (ucast (mem \<sigma> a), \<sigma>))\<rparr> :: unit kernel"
  have "reads_c_string ?K"
    by (auto simp: reads_c_string_def load_bytes_eq_iff dest!: spec [of _ 0])
  moreover have "c_string_at (mem demo_machine) (sl_ptr \<lparr>sl_ptr = 8, sl_len = 1\<rparr>) 0"
    by (simp add: c_string_at_def)
  ultimately have "fst (printk ?K \<lparr>sl_ptr = 8, sl_len = 1\<rparr> [] (demo_machine\<lparr>mem := (\<lambda>a. if a = 8 then 0 else 7)\<rparr>)) =
      fst (printk ?K \<lparr>sl_ptr = 8, sl_len = 1\<rparr> [] demo_machine)"
    using printk_reads_format_only [of ?K demo_machine "\<lparr>sl_ptr = 8, sl_len = 1\<rparr>" 0 "[]"]
    by (simp add: load_bytes_def)
  then show ?thesis by (simp add: printk_def)
qed

end
