(* ===== verification/Cleanup_Tables.thy ===== *)
theory Cleanup_Tables
  imports Cleanup
begin

text \<open>
  The cleanup tables of all CPUs over time: a program registers entries in the table of the
  CPU it runs on, a panic runs that CPU's table, and between these steps the machine does
  anything else, also move to another CPU. What holds of the tables in every reachable state
  is proved by rule induction; the panic handler, a partial function, is treated by its own
  induction rule.
\<close>

section \<open>Registration\<close>

text \<open>\<open>entries[find_next_emtpy_entry()] = CleanupEntry::new(f, arg)\<close>: the index, and the tables.\<close>

definition register_entry ::
  "build_cfg \<Rightarrow> 'k kernel \<Rightarrow> 'k cleanup_fn \<Rightarrow> u64 \<Rightarrow> 'k tables \<Rightarrow> 'k machine_scheme \<Rightarrow> (nat \<times> 'k tables) res" where
  "register_entry cfg K f arg tabs \<sigma> =
     and_then (cleanup_entries_this_cpu cfg K \<sigma>) (\<lambda>a.
     and_then (find_next_emtpy_entry (tabs a)) (\<lambda>i.
     and_then (entries_index_mut (tabs a) i (entry_new f arg)) (\<lambda>es. Ret (i, tabs(a := es)))))"

section \<open>Steps\<close>

inductive table_step ::
  "build_cfg \<Rightarrow> 'k kernel \<Rightarrow> (panic \<Rightarrow> panic_info) \<Rightarrow> 'k tables \<times> 'k machine_scheme
   \<Rightarrow> 'k tables \<times> 'k machine_scheme \<Rightarrow> bool"
  for cfg :: build_cfg and K :: "'k kernel" and info_of :: "panic \<Rightarrow> panic_info" where
  register: "register_entry cfg K f arg tabs \<sigma> = Ret (i, tabs') \<Longrightarrow>
    table_step cfg K info_of (tabs, \<sigma>) (tabs', \<sigma>)"
| panic: "panic_handler cfg K info_of p tabs \<sigma> = Some (msg, tabs', \<tau>) \<Longrightarrow>
    table_step cfg K info_of (tabs, \<sigma>) (tabs', \<tau>)"
| other: "table_step cfg K info_of (tabs, \<sigma>) (tabs, \<tau>)"

inductive_cases table_stepE: "table_step cfg K info_of (tabs, \<sigma>) (tabs', \<tau>)"

text \<open>Every table has its 64 entries, and a valid entry has a function to run.\<close>

definition tables_wf :: "'k tables \<Rightarrow> bool" where
  "tables_wf tabs \<longleftrightarrow>
     (\<forall>a. length (tabs a) = ENTRIES_SIZE \<and> (\<forall>e\<in>set (tabs a). valid e \<noteq> 0 \<longrightarrow> cleanup_fn e \<noteq> None))"

section \<open>Lemmas\<close>

lemma cleanup_all_None:
  "cleanup_all es \<sigma> = (es', \<tau>, None) \<Longrightarrow> es' = replicate (length es) entry_default"
  by (induction es \<sigma> arbitrary: es' rule: cleanup_all.induct)
     (auto split: prod.splits option.splits)

lemma cleanup_all_entries:
  "set (fst (cleanup_all es \<sigma>)) \<subseteq> insert entry_default (set es)"
  by (induction es \<sigma> rule: cleanup_all.induct) (auto split: prod.splits option.splits, blast)

lemma entry_default_wf [simp]: "valid entry_default = 0"
  by (simp add: entry_default_def)

lemma tables_wf_run:
  assumes "tables_wf tabs" and "cleanup_all (tabs a) \<sigma> = (es, \<tau>, r)"
  shows "tables_wf (tabs(a := es))"
  using assms length_cleanup_all [of "tabs a" \<sigma>] cleanup_all_entries [of "tabs a" \<sigma>]
  by (auto simp: tables_wf_def)

text \<open>A landed panic: only tables that ran have changed, and the last one is clean.\<close>

definition landed_tables ::
  "(panic \<Rightarrow> panic_info) \<Rightarrow> 'k tables \<Rightarrow> u8 list \<times> 'k tables \<times> 'k machine_scheme \<Rightarrow> bool" where
  "landed_tables info_of tabs = (\<lambda>(msg, tabs', \<tau>). (tables_wf tabs \<longrightarrow> tables_wf tabs') \<and>
     (\<exists>a. tabs' a = replicate (length (tabs a)) entry_default) \<and>
     (\<forall>a. set (tabs' a) \<subseteq> insert entry_default (set (tabs a))) \<and> (\<forall>a. length (tabs' a) = length (tabs a)) \<and>
     (\<exists>q. msg = format_msg (info_of q)))"

text \<open>One table has run, to its end or up to a panic after which the handler lands.\<close>

lemma landed_clean:
  assumes "cleanup_all (tabs a) \<sigma> = (es, \<tau>, None)"
  shows "landed_tables info_of tabs (format_msg (info_of p), tabs(a := es), \<tau>)"
  using tables_wf_run [where tabs = tabs and a = a, OF _ assms] cleanup_all_None [OF assms] length_cleanup_all [of "tabs a" \<sigma>]
    cleanup_all_entries [of "tabs a" \<sigma>] assms
  by (auto simp: landed_tables_def)

lemma landed_again:
  assumes run: "cleanup_all (tabs a) \<sigma> = (es, \<rho>, o')" and "landed_tables info_of (tabs(a := es)) r"
  shows "landed_tables info_of tabs r"
proof -
  obtain msg tabs' \<tau> where r: "r = (msg, tabs', \<tau>)" by (cases r) auto
  have len: "length ((tabs(a := es)) b) = length (tabs b)" for b
    using length_cleanup_all [of "tabs a" \<sigma>] run by simp
  have ent: "set ((tabs(a := es)) b) \<subseteq> insert entry_default (set (tabs b))" for b
    using cleanup_all_entries [of "tabs a" \<sigma>] run by auto
  from assms(2) have h: "tables_wf (tabs(a := es)) \<longrightarrow> tables_wf tabs'"
    "\<exists>b. tabs' b = replicate (length ((tabs(a := es)) b)) entry_default"
    "\<And>b. set (tabs' b) \<subseteq> insert entry_default (set ((tabs(a := es)) b))"
    "\<And>b. length (tabs' b) = length ((tabs(a := es)) b)" "\<exists>q. msg = format_msg (info_of q)"
    unfolding landed_tables_def r by auto
  have "set (tabs' b) \<subseteq> insert entry_default (set (tabs b))" for b using h(3) [of b] ent [of b] by blast
  with h len tables_wf_run [where tabs = tabs and a = a, OF _ run] show ?thesis unfolding landed_tables_def r by auto
qed

lemma panic_handler_landed:
  assumes "panic_handler cfg K info_of p tabs \<sigma> = Some r"
  shows "landed_tables info_of tabs r"
proof (rule panic_handler.raw_induct [OF _ assms, where P = "\<lambda>cfg K info_of p tabs \<sigma> r. landed_tables info_of tabs r"])
  fix handler cfg K info_of p tabs \<sigma> r
  assume IH: "\<And>cfg K info_of p tabs \<sigma> r. handler cfg K info_of p tabs \<sigma> = Some r \<Longrightarrow> landed_tables info_of tabs r"
    and body: "(case cleanup_entries_this_cpu cfg K \<sigma> of
        Ret a \<Rightarrow> (case cleanup_all (tabs a) \<sigma> of
          (es, \<sigma>', None) \<Rightarrow> Some (format_msg (info_of p), tabs(a := es), \<sigma>')
        | (es, \<sigma>', Some q) \<Rightarrow> handler cfg K info_of q (tabs(a := es)) \<sigma>')
      | Panic q \<Rightarrow> handler cfg K info_of q tabs \<sigma>) = Some r"
  show "landed_tables info_of tabs r"
  proof (cases "cleanup_entries_this_cpu cfg K \<sigma>")
    case (Panic q)
    with body IH show ?thesis by simp
  next
    case (Ret a)
    with body IH landed_clean [of tabs a \<sigma>] landed_again [of tabs a \<sigma>] show ?thesis
      by (auto split: prod.splits option.splits)
  qed
qed

lemma panic_handler_tables:
  assumes "panic_handler cfg K info_of p tabs \<sigma> = Some (msg, tabs', \<tau>)"
  shows "(tables_wf tabs \<longrightarrow> tables_wf tabs') \<and> (\<exists>a. tabs' a = replicate (length (tabs a)) entry_default)
    \<and> (\<forall>a. set (tabs' a) \<subseteq> insert entry_default (set (tabs a))) \<and> (\<forall>a. length (tabs' a) = length (tabs a))
    \<and> (\<exists>q. msg = format_msg (info_of q))"
  using panic_handler_landed [OF assms] by (simp add: landed_tables_def)

lemma register_Ret:
  assumes "register_entry cfg K f arg tabs \<sigma> = Ret (i, tabs')"
  shows "\<exists>a. cleanup_entries_this_cpu cfg K \<sigma> = Ret a \<and> i < length (tabs a) \<and> valid (tabs a ! i) = 0 \<and>
    tabs' = tabs(a := (tabs a)[i := entry_new f arg])"
  using assms find_next_free
  by (fastforce simp: register_entry_def and_then_Ret_iff entries_index_mut_def split: if_splits)

lemma table_step_wf:
  assumes "table_step cfg K info_of s t" and "tables_wf (fst s)"
  shows "tables_wf (fst t)"
  using assms
proof (induction rule: table_step.induct)
  case (register f arg tabs \<sigma> i tabs')
  from register_Ret [OF this(1)] this(2) show ?case
    by (auto simp: tables_wf_def entry_new_def dest!: set_update_subset_insert [THEN subsetD] split: if_splits)
next
  case (panic p tabs \<sigma> msg tabs' \<tau>)
  with panic_handler_tables [OF panic(1)] show ?case by simp
qed simp

lemma table_steps_wf:
  "(table_step cfg K info_of)\<^sup>*\<^sup>* s t \<Longrightarrow> tables_wf (fst s) \<Longrightarrow> tables_wf (fst t)"
  by (induction rule: rtranclp_induct) (auto dest: table_step_wf)

section \<open>Properties\<close>

text \<open>
  C9: Over any history of registrations, panics and migrations between CPUs, from well-formed
  tables: every CPU's table keeps its 64 entries and every valid entry has a function; a
  panic that lands has left a table of only default entries and a message of 128 bytes; and a
  registration takes a free entry of the running CPU's table and leaves every other entry of
  every table as it was.
\<close>
theorem cleanup_tables_invariant:
  assumes "(table_step cfg K info_of)\<^sup>*\<^sup>* (tabs0, \<sigma>0) (tabs, \<sigma>)" and "tables_wf tabs0"
  shows "tables_wf tabs \<and>
    (\<forall>p msg tabs' \<tau>. panic_handler cfg K info_of p tabs \<sigma> = Some (msg, tabs', \<tau>) \<longrightarrow>
       length msg = 128 \<and> (\<exists>a. tabs' a = replicate ENTRIES_SIZE entry_default)) \<and>
    (\<forall>f arg i tabs'. register_entry cfg K f arg tabs \<sigma> = Ret (i, tabs') \<longrightarrow>
       i < ENTRIES_SIZE \<and> (\<exists>a. cleanup_entries_this_cpu cfg K \<sigma> = Ret a \<and> valid (tabs a ! i) = 0 \<and>
         tabs' a ! i = entry_new f arg \<and>
         (\<forall>b j. b \<noteq> a \<or> j \<noteq> i \<longrightarrow> tabs' b ! j = tabs b ! j)))"
proof -
  have wf: "tables_wf tabs" using table_steps_wf [OF assms(1)] assms(2) by simp
  then have len: "length (tabs a) = ENTRIES_SIZE" for a by (simp add: tables_wf_def)
  have "length msg = 128 \<and> (\<exists>a. tabs' a = replicate ENTRIES_SIZE entry_default)"
    if "panic_handler cfg K info_of p tabs \<sigma> = Some (msg, tabs', \<tau>)" for p msg tabs' \<tau>
    using panic_handler_tables [OF that] len by (auto simp: format_msg_length)
  moreover have "i < ENTRIES_SIZE \<and> (\<exists>a. cleanup_entries_this_cpu cfg K \<sigma> = Ret a \<and> valid (tabs a ! i) = 0 \<and>
      tabs' a ! i = entry_new f arg \<and> (\<forall>b j. b \<noteq> a \<or> j \<noteq> i \<longrightarrow> tabs' b ! j = tabs b ! j))"
    if "register_entry cfg K f arg tabs \<sigma> = Ret (i, tabs')" for f arg i tabs'
    using register_Ret [OF that] len by auto
  ultimately show ?thesis using wf by blast
qed

theorem cleanup_tables_invariant_witness:
  "\<exists>i tabs'. register_entry release_x86 demo_kernel (\<lambda>a \<sigma>. (\<sigma>, None)) 7
      (\<lambda>_. replicate ENTRIES_SIZE entry_default) demo_machine = Ret (i, tabs') \<and> i < ENTRIES_SIZE"
proof -
  let ?tabs = "\<lambda>_. replicate ENTRIES_SIZE entry_default"
  have e: "ENTRIES_SIZE = Suc 63" by (simp add: ENTRIES_SIZE_def)
  have f: "find_next_emtpy_entry (replicate ENTRIES_SIZE entry_default) = Ret 0"
    unfolding find_next_emtpy_entry_def e replicate_Suc by simp
  obtain i tabs' where r: "register_entry release_x86 demo_kernel (\<lambda>a \<sigma>. (\<sigma>, None)) 7 ?tabs demo_machine =
      Ret (i, tabs')"
    by (simp add: register_entry_def demo_table f entries_index_mut_def) (simp add: ENTRIES_SIZE_def)
  have "tables_wf ?tabs" by (simp add: tables_wf_def)
  from cleanup_tables_invariant [OF rtranclp.rtrancl_refl this] r show ?thesis by blast
qed

end
