(* ===== verification/Spinlock.thy ===== *)
theory Spinlock
  imports Cleanup
begin

text \<open>
  \<open>spinlock.rs\<close>: the wrappers of the kernel's spin lock and the scoped guard. A scope that
  holds a guard is \<open>with_guard\<close>: leaving it normally drops the guard, a panic in it does not
  (the crate is built with \<open>panic = "abort"\<close>: the panic handler runs, nothing is unwound).
\<close>

definition bpf_spin_lock :: "'k kernel \<Rightarrow> u64 \<Rightarrow> 'k machine_scheme \<Rightarrow> i64 \<times> 'k machine_scheme" where
  "bpf_spin_lock K lck \<sigma> = k_spin_lock K lck \<sigma>"

definition bpf_spin_unlock :: "'k kernel \<Rightarrow> u64 \<Rightarrow> 'k machine_scheme \<Rightarrow> i64 \<times> 'k machine_scheme" where
  "bpf_spin_unlock K lck \<sigma> = k_spin_unlock K lck \<sigma>"

record iu_spinlock_guard =
  lock :: u64

text \<open>The return codes are ignored.\<close>

definition guard_new ::
  "'k kernel \<Rightarrow> u64 \<Rightarrow> 'k machine_scheme \<Rightarrow> iu_spinlock_guard \<times> 'k machine_scheme" where
  "guard_new K lck \<sigma> = (\<lparr>lock = lck\<rparr>, snd (bpf_spin_lock K lck \<sigma>))"

definition guard_unlock :: "'k kernel \<Rightarrow> iu_spinlock_guard \<Rightarrow> 'k machine_scheme \<Rightarrow> 'k machine_scheme" where
  "guard_unlock K g \<sigma> = snd (bpf_spin_unlock K (lock g) \<sigma>)"

definition guard_drop :: "'k kernel \<Rightarrow> iu_spinlock_guard \<Rightarrow> 'k machine_scheme \<Rightarrow> 'k machine_scheme" where
  "guard_drop K g \<sigma> = guard_unlock K g \<sigma>"

definition with_guard ::
  "'k kernel \<Rightarrow> u64 \<Rightarrow> (iu_spinlock_guard \<Rightarrow> 'k machine_scheme \<Rightarrow> 'a res \<times> 'k machine_scheme)
   \<Rightarrow> 'k machine_scheme \<Rightarrow> 'a res \<times> 'k machine_scheme" where
  "with_guard K lck body \<sigma> =
     (let (g, \<sigma>1) = guard_new K lck \<sigma> in
      case body g \<sigma>1 of
        (Ret x, \<sigma>2) \<Rightarrow> (Ret x, guard_drop K g \<sigma>2)
      | (Panic p, \<sigma>2) \<Rightarrow> (Panic p, \<sigma>2))"

section \<open>The kernel's promise\<close>

text \<open>
  \<open>held \<sigma>\<close> is the set of locks the kernel has locked. Locking and unlocking return 0, change
  that lock only, write no memory but the four bytes of the lock, and keep the CPU; which CPU
  looks does not matter.
\<close>

definition same_but_lock :: "u64 \<Rightarrow> 'k machine_scheme \<Rightarrow> 'k machine_scheme \<Rightarrow> bool" where
  "same_but_lock l \<sigma> \<tau> \<longleftrightarrow>
     (\<forall>x. 4 \<le> unat (x - l) \<longrightarrow> mem \<tau> x = mem \<sigma> x) \<and> gs_base \<tau> = gs_base \<sigma>"

definition spin_contract :: "'k kernel \<Rightarrow> ('k machine_scheme \<Rightarrow> u64 set) \<Rightarrow> bool" where
  "spin_contract K held \<longleftrightarrow>
     (\<forall>l \<sigma>. fst (k_spin_lock K l \<sigma>) = 0 \<and> held (snd (k_spin_lock K l \<sigma>)) = insert l (held \<sigma>) \<and>
        same_but_lock l \<sigma> (snd (k_spin_lock K l \<sigma>))) \<and>
     (\<forall>l \<sigma>. fst (k_spin_unlock K l \<sigma>) = 0 \<and> held (snd (k_spin_unlock K l \<sigma>)) = held \<sigma> - {l} \<and>
        same_but_lock l \<sigma> (snd (k_spin_unlock K l \<sigma>))) \<and>
     (\<forall>\<sigma> b. held (\<sigma>\<lparr>gs_base := b\<rparr>) = held \<sigma>)"

lemma guard_held:
  assumes "spin_contract K held"
  shows "held (snd (guard_new K l \<sigma>)) = insert l (held \<sigma>)"
    and "fst (guard_new K l \<sigma>) = \<lparr>lock = l\<rparr>"
    and "held (guard_drop K g \<sigma>) = held \<sigma> - {lock g}"
    and "same_but_lock (lock g) \<sigma> (guard_drop K g \<sigma>)"
    and "held (\<sigma>\<lparr>gs_base := b\<rparr>) = held \<sigma>"
  using assms
  by (simp_all add: spin_contract_def guard_new_def guard_drop_def guard_unlock_def
      bpf_spin_lock_def bpf_spin_unlock_def)

text \<open>
  A kernel whose lock state is the machine's extension, for the witnesses.
\<close>

definition lock_kernel :: "u64 set kernel" where
  "lock_kernel = demo_kernel\<lparr>
     k_spin_lock := (\<lambda>l \<sigma>. (0, \<sigma>\<lparr>machine.more := insert l (machine.more \<sigma>)\<rparr>)),
     k_spin_unlock := (\<lambda>l \<sigma>. (0, \<sigma>\<lparr>machine.more := machine.more \<sigma> - {l}\<rparr>))\<rparr>"

lemma lock_kernel_contract: "spin_contract lock_kernel machine.more"
  by (simp add: spin_contract_def same_but_lock_def lock_kernel_def)

lemma lock_kernel_sel [simp]:
  "sym_cpu_number lock_kernel = 0x100" "per_cpu_offset lock_kernel = [0x10000]"
  "sym_iu_cleanup_entries lock_kernel = 0x200"
  by (simp_all add: lock_kernel_def)

section \<open>Properties\<close>

text \<open>
  C12: Under the kernel's contract a guarded scope runs its body with the lock held, returns
  the body's value, and when the body returns the lock is released, every other lock is as
  the body left it, and so is all memory but the lock's own bytes.
\<close>
theorem with_guard_releases:
  assumes "spin_contract K held"
    and "body \<lparr>lock = l\<rparr> (snd (guard_new K l \<sigma>)) = (Ret x, \<tau>)"
  shows "l \<in> held (snd (guard_new K l \<sigma>)) \<and>
    (\<exists>\<sigma>'. with_guard K l body \<sigma> = (Ret x, \<sigma>') \<and> held \<sigma>' = held \<tau> - {l} \<and> same_but_lock l \<tau> \<sigma>')"
  using guard_held(1-3) [OF assms(1)] guard_held(4) [OF assms(1), of "\<lparr>lock = l\<rparr>" \<tau>] assms(2)
  by (simp add: with_guard_def case_prod_unfold)

theorem with_guard_releases_witness:
  "\<exists>\<sigma>'. with_guard lock_kernel 8 (\<lambda>g \<sigma>. (Ret (machine.more \<sigma>), \<sigma>)) (machine.extend demo_machine {7}) =
      (Ret {8, 7}, \<sigma>') \<and> machine.more \<sigma>' = {7}"
proof -
  have l: "snd (guard_new lock_kernel 8 (machine.extend demo_machine {7})) = machine.extend demo_machine {8, 7}"
    by (simp add: guard_new_def bpf_spin_lock_def lock_kernel_def machine.defs demo_machine_def)
  have "(\<lambda>g \<sigma>. (Ret (machine.more \<sigma>), \<sigma>)) \<lparr>lock = 8\<rparr>
      (snd (guard_new lock_kernel 8 (machine.extend demo_machine {7}))) =
      (Ret {8, 7}, machine.extend demo_machine {8, 7})"
    unfolding l by (simp add: machine.defs)
  from with_guard_releases [OF lock_kernel_contract,
      where body = "\<lambda>g \<sigma>. (Ret (machine.more \<sigma>), \<sigma>)", OF this] show ?thesis
    by (auto simp: machine.defs)
qed

text \<open>
  A panic inside a guarded scope leaks the lock: nothing in the crate registers a cleanup
  entry, so this CPU's table holds only default entries, the panic handler lands without
  having run anything, and the lock is still held when the kernel gets control back.
\<close>
theorem panic_in_scope_leaks_lock:
  assumes "spin_contract K held"
    and "body \<lparr>lock = l\<rparr> (snd (guard_new K l \<sigma>)) = (Panic p, \<tau>)" and "l \<in> held \<tau>"
    and "cleanup_entries_this_cpu cfg K \<tau> = Ret a"
    and "tabs a = replicate ENTRIES_SIZE entry_default"
  shows "with_guard K l body \<sigma> = (Panic p, \<tau>) \<and>
    (\<exists>\<sigma>'. panic_handler cfg K info_of p tabs \<tau> = Some (format_msg (info_of p), tabs, \<sigma>') \<and> l \<in> held \<sigma>')"
proof -
  have fold_id: "fold run_entry (replicate n entry_default) \<tau> = \<tau>" for n
    by (induction n) (simp_all del: fold_replicate)
  have "with_guard K l body \<sigma> = (Panic p, \<tau>)"
    using guard_held(2) [OF assms(1), of l \<sigma>] assms(2) by (simp add: with_guard_def case_prod_unfold)
  moreover have "panic_handler cfg K info_of p tabs \<tau> = Some (format_msg (info_of p), tabs, \<tau>)"
    using panic_handler_clean [OF assms(4), of tabs] assms(5)
    by (simp add: cleanup_all_ok fold_id fun_upd_idem del: fold_replicate)
  ultimately show ?thesis using assms(3) by blast
qed

theorem panic_in_scope_leaks_lock_witness:
  "\<exists>\<sigma>'. panic_handler release_x86 lock_kernel (\<lambda>p. \<lparr>message = None, payload = None\<rparr>) UnwrapOnNone
     (\<lambda>_. replicate ENTRIES_SIZE entry_default) (machine.extend demo_machine {8}) =
     Some (format_msg \<lparr>message = None, payload = None\<rparr>, \<lambda>_. replicate ENTRIES_SIZE entry_default, \<sigma>') \<and>
     8 \<in> machine.more \<sigma>'"
proof -
  have l: "snd (guard_new lock_kernel 8 (machine.extend demo_machine {})) = machine.extend demo_machine {8}"
    by (simp add: guard_new_def bpf_spin_lock_def lock_kernel_def machine.defs demo_machine_def)
  have body: "(\<lambda>g \<sigma>. (Panic UnwrapOnNone :: unit res, \<sigma>)) \<lparr>lock = 8\<rparr>
      (snd (guard_new lock_kernel 8 (machine.extend demo_machine {}))) =
      (Panic UnwrapOnNone, machine.extend demo_machine {8})"
    unfolding l by simp
  have tab: "cleanup_entries_this_cpu release_x86 lock_kernel (machine.extend demo_machine {8}) = Ret 0x10200"
    by (simp add: cleanup_entries_this_cpu_def this_cpu_ptr_def this_cpu_read_u32_def
        checked_release machine.defs)
  show ?thesis
    using panic_in_scope_leaks_lock [OF lock_kernel_contract,
        where body = "\<lambda>g \<sigma>. (Panic UnwrapOnNone :: unit res, \<sigma>)", OF body _ tab,
        of "\<lambda>_. replicate ENTRIES_SIZE entry_default" "\<lambda>p. \<lparr>message = None, payload = None\<rparr>"]
    by (simp add: machine.defs)
qed

end
