(* ===== verification/Spinlock_Cpus.thy ===== *)
theory Spinlock_Cpus
  imports Spinlock
begin

text \<open>
  The spin locks of \<open>spinlock.rs\<close> used by programs on several CPUs. The state is the machine,
  the cleanup tables, the guards that are alive and the guards of scopes that panicked, each
  with its CPU. A step is one operation of the crate on one CPU (its \<open>gs\<close> base is loaded
  first), or anything else that happens in between. The kernel's lock function only returns
  once the lock is free, so a step that takes a lock has that as its guard; a CPU that waits
  makes no step.
\<close>

section \<open>States and steps\<close>

record 'k smp =
  sys :: "'k machine_scheme"
  smp_tabs :: "'k tables"
  live :: "(nat \<times> iu_spinlock_guard) list"
  leaked :: "(nat \<times> iu_spinlock_guard) list"

definition run_on :: "'k kernel \<Rightarrow> nat \<Rightarrow> 'k machine_scheme \<Rightarrow> 'k machine_scheme" where
  "run_on K c \<sigma> = \<sigma>\<lparr>gs_base := per_cpu_offset K ! c\<rparr>"

definition guards :: "'k smp \<Rightarrow> (nat \<times> iu_spinlock_guard) list" where
  "guards s = live s @ leaked s"

definition locks_of :: "(nat \<times> iu_spinlock_guard) list \<Rightarrow> u64 list" where
  "locks_of gs = map (lock \<circ> snd) gs"

text \<open>
  \<open>cpu_step\<close> is an operation of the crate on one CPU: \<open>take_lock\<close> and \<open>drop_guard\<close> are
  \<open>iu_spinlock_guard::new\<close> and the guard's \<open>drop\<close>, \<open>panic\<close> is the panic handler, after which the
  CPU is back in the kernel and its guards are gone without having been dropped. In a
  \<open>smp_step\<close> also the rest of the system runs (\<open>other\<close>: program bodies, the kernel, other
  users of the locks); it keeps the locks of all guards and registers no cleanup entry.
\<close>

inductive cpu_step ::
  "build_cfg \<Rightarrow> 'k kernel \<Rightarrow> (panic \<Rightarrow> panic_info) \<Rightarrow> ('k machine_scheme \<Rightarrow> u64 set)
   \<Rightarrow> 'k smp \<Rightarrow> 'k smp \<Rightarrow> bool"
  for cfg :: build_cfg and K :: "'k kernel" and info_of :: "panic \<Rightarrow> panic_info"
    and held :: "'k machine_scheme \<Rightarrow> u64 set" where
  take_lock: "c < length (per_cpu_offset K) \<Longrightarrow> l \<notin> held (sys s) \<Longrightarrow>
    guard_new K l (run_on K c (sys s)) = (g, \<tau>) \<Longrightarrow>
    cpu_step cfg K info_of held s (s\<lparr>sys := \<tau>, live := (c, g) # live s\<rparr>)"
| drop_guard: "(c, g) \<in> set (live s) \<Longrightarrow> guard_drop K g (run_on K c (sys s)) = \<tau> \<Longrightarrow>
    cpu_step cfg K info_of held s (s\<lparr>sys := \<tau>, live := remove1 (c, g) (live s)\<rparr>)"
| panic: "c < length (per_cpu_offset K) \<Longrightarrow>
    panic_handler cfg K info_of p (smp_tabs s) (run_on K c (sys s)) = Some (msg, tabs', \<tau>) \<Longrightarrow>
    cpu_step cfg K info_of held s (s\<lparr>sys := \<tau>, smp_tabs := tabs',
      live := filter (\<lambda>cg. fst cg \<noteq> c) (live s),
      leaked := filter (\<lambda>cg. fst cg = c) (live s) @ leaked s\<rparr>)"

inductive smp_step ::
  "build_cfg \<Rightarrow> 'k kernel \<Rightarrow> (panic \<Rightarrow> panic_info) \<Rightarrow> ('k machine_scheme \<Rightarrow> u64 set)
   \<Rightarrow> 'k smp \<Rightarrow> 'k smp \<Rightarrow> bool"
  for cfg :: build_cfg and K :: "'k kernel" and info_of :: "panic \<Rightarrow> panic_info"
    and held :: "'k machine_scheme \<Rightarrow> u64 set" where
  crate: "cpu_step cfg K info_of held s t \<Longrightarrow> smp_step cfg K info_of held s t"
| other: "set (locks_of (guards s)) \<subseteq> held \<tau> \<Longrightarrow> smp_step cfg K info_of held s (s\<lparr>sys := \<tau>\<rparr>)"

text \<open>
  What the kernel does with the locks of guards a panic left behind is its own business: in a
  \<open>kernel_step\<close> it keeps the locks of the guards that are alive, and nothing is said of the
  others. An \<open>open_step\<close> is one of the crate or one of those.
\<close>

inductive kernel_step :: "('k machine_scheme \<Rightarrow> u64 set) \<Rightarrow> 'k smp \<Rightarrow> 'k smp \<Rightarrow> bool"
  for held :: "'k machine_scheme \<Rightarrow> u64 set" where
  "set (locks_of (live s)) \<subseteq> held \<tau> \<Longrightarrow> kernel_step held s (s\<lparr>sys := \<tau>\<rparr>)"

inductive open_step ::
  "build_cfg \<Rightarrow> 'k kernel \<Rightarrow> (panic \<Rightarrow> panic_info) \<Rightarrow> ('k machine_scheme \<Rightarrow> u64 set)
   \<Rightarrow> 'k smp \<Rightarrow> 'k smp \<Rightarrow> bool"
  for cfg :: build_cfg and K :: "'k kernel" and info_of :: "panic \<Rightarrow> panic_info"
    and held :: "'k machine_scheme \<Rightarrow> u64 set" where
  own: "cpu_step cfg K info_of held s t \<Longrightarrow> open_step cfg K info_of held s t"
| kernel: "kernel_step held s t \<Longrightarrow> open_step cfg K info_of held s t"

text \<open>No guard is alive and no cleanup entry is registered.\<close>

definition smp_init :: "'k smp \<Rightarrow> bool" where
  "smp_init s \<longleftrightarrow> guards s = [] \<and> (\<forall>a. set (smp_tabs s a) \<subseteq> {entry_default})"

text \<open>No two guards have the same lock, every guard's lock is held, the tables stay empty.\<close>

definition smp_inv :: "('k machine_scheme \<Rightarrow> u64 set) \<Rightarrow> 'k smp \<Rightarrow> bool" where
  "smp_inv held s \<longleftrightarrow>
     distinct (locks_of (guards s)) \<and> set (locks_of (guards s)) \<subseteq> held (sys s) \<and>
     (\<forall>a. set (smp_tabs s a) \<subseteq> {entry_default})"

section \<open>Lemmas\<close>

lemma locks_of_simps [simp]:
  "locks_of [] = []" "locks_of (cg # gs) = lock (snd cg) # locks_of gs"
  "locks_of (gs @ hs) = locks_of gs @ locks_of hs"
  by (simp_all add: locks_of_def)

lemma in_locks_of: "(c, g) \<in> set gs \<Longrightarrow> lock g \<in> set (locks_of gs)"
  by (force simp: locks_of_def)

lemma locks_of_filter: "set (locks_of (filter P gs)) \<subseteq> set (locks_of gs)"
  by (auto simp: locks_of_def)

lemma locks_of_split:
  "distinct (locks_of gs) \<Longrightarrow>
   distinct (locks_of (filter P gs)) \<and>
   set (locks_of (filter P gs)) \<inter> set (locks_of (filter (\<lambda>x. \<not> P x) gs)) = {}"
proof (induction gs)
  case (Cons cg gs)
  then show ?case
    using locks_of_filter [of P gs] locks_of_filter [of "\<lambda>x. \<not> P x" gs] by (cases "P cg") auto
qed simp

lemma locks_of_partition:
  "set (locks_of (filter P gs)) \<union> set (locks_of (filter (\<lambda>x. \<not> P x) gs)) = set (locks_of gs)"
  by (induction gs) auto

lemma locks_of_remove1:
  assumes "(c, g) \<in> set gs" and "distinct (locks_of gs)"
  shows "distinct (locks_of (remove1 (c, g) gs)) \<and>
    set (locks_of (remove1 (c, g) gs)) = set (locks_of gs) - {lock g}"
  using assms
proof (induction gs)
  case (Cons cg gs)
  show ?case
  proof (cases "cg = (c, g)")
    case True
    with Cons.prems(2) show ?thesis by simp
  next
    case False
    with Cons.prems have mem: "(c, g) \<in> set gs" and d: "distinct (locks_of gs)"
      and n: "lock (snd cg) \<notin> set (locks_of gs)" by simp_all
    from n in_locks_of [OF mem] have "lock (snd cg) \<noteq> lock g" by metis
    with Cons.IH [OF mem d] n False show ?thesis by (simp add: insert_Diff_if)
  qed
qed simp

lemma smp_inv_init: "smp_init s \<Longrightarrow> smp_inv held s"
  by (simp add: smp_init_def smp_inv_def)

lemma smp_inv_cpu_step:
  assumes K: "spin_contract K held" and step: "cpu_step cfg K info_of held s t" and inv: "smp_inv held s"
  shows "smp_inv held t"
  using step inv
proof (induction rule: cpu_step.induct)
  case (take_lock c l s g \<tau>)
  then have "g = \<lparr>lock = l\<rparr>" and "held \<tau> = insert l (held (sys s))"
    using guard_held(1,2) [OF K, of l "run_on K c (sys s)"] guard_held(5) [OF K]
    by (simp_all add: run_on_def)
  with take_lock show ?case by (auto simp: smp_inv_def guards_def)
next
  case (drop_guard c g s \<tau>)
  then have "held \<tau> = held (sys s) - {lock g}"
    using guard_held(3) [OF K] guard_held(5) [OF K] by (auto simp: run_on_def)
  with drop_guard in_locks_of [OF drop_guard.hyps(1)] locks_of_remove1 [OF drop_guard.hyps(1)]
  show ?case by (auto simp: smp_inv_def guards_def)
next
  case (panic c p s msg tabs' \<tau>)
  then have t: "tabs' = smp_tabs s" "\<tau> = run_on K c (sys s)"
    using panic_handler_empty [OF panic.hyps(2)] by (auto simp: smp_inv_def)
  have h: "held \<tau> = held (sys s)" using guard_held(5) [OF K] by (simp add: t run_on_def)
  have d: "distinct (locks_of (live s))" using panic.prems by (simp add: smp_inv_def guards_def)
  show ?case
    using panic.prems h t locks_of_split [OF d, of "\<lambda>cg. fst cg = c"] locks_of_split [OF d, of "\<lambda>cg. fst cg \<noteq> c"]
      locks_of_partition [of "\<lambda>cg. fst cg = c" "live s"]
    by (auto simp: smp_inv_def guards_def)
qed

lemma smp_inv_step:
  assumes "spin_contract K held" and "smp_step cfg K info_of held s t" and "smp_inv held s"
  shows "smp_inv held t"
  using assms(2,3) smp_inv_cpu_step [OF assms(1)]
  by (cases rule: smp_step.cases) (auto simp: smp_inv_def guards_def)

lemma smp_inv_steps:
  assumes "spin_contract K held" and "(smp_step cfg K info_of held)\<^sup>*\<^sup>* s t" and "smp_inv held s"
  shows "smp_inv held t"
  using assms(2,3) by (induction rule: rtranclp_induct) (auto intro: smp_inv_step [OF assms(1)])

text \<open>
  The crate's operations do not look at the guards left behind, so those to be followed can be
  chosen: none, or a single one.
\<close>

lemma smp_inv_leaked:
  assumes "smp_inv held s" and "distinct (locks_of gs)" and "set gs \<subseteq> set (leaked s)"
  shows "smp_inv held (s\<lparr>leaked := gs\<rparr>)"
proof -
  have "set (locks_of gs) \<subseteq> set (locks_of (leaked s))" using assms(3) by (auto simp: locks_of_def)
  with assms(1,2) show ?thesis by (auto simp: smp_inv_def guards_def)
qed

lemma cpu_step_leaked:
  "cpu_step cfg K info_of held s t \<Longrightarrow> \<exists>xs. cpu_step cfg K info_of held (s\<lparr>leaked := gs\<rparr>) (t\<lparr>leaked := xs @ gs\<rparr>)"
proof (induction rule: cpu_step.induct)
  case (take_lock c l s g \<tau>)
  then have "cpu_step cfg K info_of held (s\<lparr>leaked := gs\<rparr>)
      ((s\<lparr>leaked := gs\<rparr>)\<lparr>sys := \<tau>, live := (c, g) # live (s\<lparr>leaked := gs\<rparr>)\<rparr>)"
    by (intro cpu_step.take_lock) simp_all
  then show ?case by (cases s) (auto intro!: exI [of _ "[]"])
next
  case (drop_guard c g s \<tau>)
  then have "cpu_step cfg K info_of held (s\<lparr>leaked := gs\<rparr>)
      ((s\<lparr>leaked := gs\<rparr>)\<lparr>sys := \<tau>, live := remove1 (c, g) (live (s\<lparr>leaked := gs\<rparr>))\<rparr>)"
    by (intro cpu_step.drop_guard) simp_all
  then show ?case by (cases s) (auto intro!: exI [of _ "[]"])
next
  case (panic c p s msg tabs' \<tau>)
  let ?s = "s\<lparr>leaked := gs\<rparr>"
  from panic have "cpu_step cfg K info_of held ?s (?s\<lparr>sys := \<tau>, smp_tabs := tabs',
      live := filter (\<lambda>cg. fst cg \<noteq> c) (live ?s),
      leaked := filter (\<lambda>cg. fst cg = c) (live ?s) @ leaked ?s\<rparr>)"
    by (intro cpu_step.panic) simp_all
  then show ?case by (intro exI [of _ "filter (\<lambda>cg. fst cg = c) (live s)"]) simp
qed

lemma follow_cpu_step:
  assumes "spin_contract K held" and "cpu_step cfg K info_of held s t"
    and "smp_inv held (s\<lparr>leaked := gs\<rparr>)"
  shows "smp_inv held (t\<lparr>leaked := gs\<rparr>)"
proof -
  from cpu_step_leaked [OF assms(2)] obtain xs
    where "cpu_step cfg K info_of held (s\<lparr>leaked := gs\<rparr>) (t\<lparr>leaked := xs @ gs\<rparr>)" by blast
  from smp_inv_cpu_step [OF assms(1) this assms(3)] have "smp_inv held (t\<lparr>leaked := xs @ gs\<rparr>)" .
  moreover have "distinct (locks_of gs)" using assms(3) by (simp add: smp_inv_def guards_def)
  ultimately show ?thesis using smp_inv_leaked [of held "t\<lparr>leaked := xs @ gs\<rparr>" gs] by simp
qed

lemma follow_kernel_step:
  assumes "kernel_step held s t" and "smp_inv held (s\<lparr>leaked := gs\<rparr>)"
    and "set (locks_of gs) \<subseteq> held (sys t)"
  shows "smp_inv held (t\<lparr>leaked := gs\<rparr>)"
  using assms by (induction rule: kernel_step.induct) (simp add: smp_inv_def guards_def)

lemma live_inv_steps:
  assumes "spin_contract K held" and "(open_step cfg K info_of held)\<^sup>*\<^sup>* s t" and "smp_inv held (s\<lparr>leaked := []\<rparr>)"
  shows "smp_inv held (t\<lparr>leaked := []\<rparr>)"
  using assms(2,3)
proof (induction rule: rtranclp_induct)
  case (step t u)
  from step.hyps(2) step.IH step.prems show ?case
    using follow_cpu_step [OF assms(1)] follow_kernel_step [of held t u "[]"]
    by (cases rule: open_step.cases) auto
qed

text \<open>A guard left behind keeps its lock until a step of the kernel releases it.\<close>

definition kernel_releases ::
  "build_cfg \<Rightarrow> 'k kernel \<Rightarrow> (panic \<Rightarrow> panic_info) \<Rightarrow> ('k machine_scheme \<Rightarrow> u64 set) \<Rightarrow> u64 \<Rightarrow> 'k smp \<Rightarrow> 'k smp \<Rightarrow> bool" where
  "kernel_releases cfg K info_of held l s t \<longleftrightarrow>
     (\<exists>u v. (open_step cfg K info_of held)\<^sup>*\<^sup>* s u \<and> kernel_step held u v \<and>
        l \<in> held (sys u) \<and> l \<notin> held (sys v) \<and> (open_step cfg K info_of held)\<^sup>*\<^sup>* v t)"

lemma kernel_releases_step:
  "kernel_releases cfg K info_of held l s t \<Longrightarrow> open_step cfg K info_of held t u \<Longrightarrow>
   kernel_releases cfg K info_of held l s u"
  unfolding kernel_releases_def by (meson rtranclp.rtrancl_into_rtrancl)

lemma left_behind_steps:
  assumes "spin_contract K held" and "(open_step cfg K info_of held)\<^sup>*\<^sup>* s t" and "smp_inv held (s\<lparr>leaked := [cg]\<rparr>)"
  shows "smp_inv held (t\<lparr>leaked := [cg]\<rparr>) \<or> kernel_releases cfg K info_of held (lock (snd cg)) s t"
  using assms(2)
proof (induction rule: rtranclp_induct)
  case base
  then show ?case using assms(3) by simp
next
  case (step t u)
  show ?case
  proof (cases "kernel_releases cfg K info_of held (lock (snd cg)) s t")
    case True
    then show ?thesis using kernel_releases_step [OF _ step.hyps(2)] by blast
  next
    case False
    with step.IH have inv: "smp_inv held (t\<lparr>leaked := [cg]\<rparr>)" by blast
    from step.hyps(2) show ?thesis
    proof cases
      case own
      then show ?thesis using follow_cpu_step [OF assms(1) _ inv] by blast
    next
      case kernel
      show ?thesis
      proof (cases "lock (snd cg) \<in> held (sys u)")
        case True
        then show ?thesis using follow_kernel_step [OF kernel inv] by simp
      next
        case False
        moreover have "lock (snd cg) \<in> held (sys t)" using inv by (simp add: smp_inv_def guards_def)
        ultimately show ?thesis using step.hyps(1) kernel unfolding kernel_releases_def by blast
      qed
    qed
  qed
qed

text \<open>
  A scope is a path of steps: a body that keeps the locks of the guards, run under \<open>with_guard\<close>
  on a CPU, takes the lock, does something else, and drops the guard.
\<close>

lemma with_guard_path:
  assumes K: "spin_contract K held" and c: "c < length (per_cpu_offset K)" and free: "l \<notin> held (sys s)"
    and body: "body \<lparr>lock = l\<rparr> (snd (guard_new K l (run_on K c (sys s)))) = (Ret x, \<tau>)"
    and keeps: "insert l (set (locks_of (guards s))) \<subseteq> held \<tau>" and base: "gs_base \<tau> = per_cpu_offset K ! c"
  shows "\<exists>\<sigma>'. with_guard K l body (run_on K c (sys s)) = (Ret x, \<sigma>') \<and>
    (smp_step cfg K info_of held)\<^sup>*\<^sup>* s (s\<lparr>sys := \<sigma>'\<rparr>)"
proof -
  let ?g = "\<lparr>lock = l\<rparr>"
  obtain \<sigma>1 where new: "guard_new K l (run_on K c (sys s)) = (?g, \<sigma>1)"
    using guard_held(2) [OF K] by (metis prod.collapse)
  let ?s1 = "s\<lparr>sys := \<sigma>1, live := (c, ?g) # live s\<rparr>"
  let ?s2 = "?s1\<lparr>sys := \<tau>\<rparr>"
  let ?\<sigma>' = "guard_drop K ?g \<tau>"
  have at: "run_on K c \<tau> = \<tau>" using base by (simp add: run_on_def)
  have 1: "smp_step cfg K info_of held s ?s1" by (rule smp_step.crate, rule cpu_step.take_lock) (use c free new in simp_all)
  have 2: "smp_step cfg K info_of held ?s1 ?s2"
    using keeps by (intro smp_step.other) (simp add: guards_def)
  have "smp_step cfg K info_of held ?s2 (?s2\<lparr>sys := ?\<sigma>', live := remove1 (c, ?g) (live ?s2)\<rparr>)"
    by (rule smp_step.crate [OF cpu_step.drop_guard]) (simp_all add: at)
  then have 3: "smp_step cfg K info_of held ?s2 (s\<lparr>sys := ?\<sigma>'\<rparr>)" by simp
  have "with_guard K l body (run_on K c (sys s)) = (Ret x, ?\<sigma>')"
    using new body by (simp add: with_guard_def)
  moreover have "(smp_step cfg K info_of held)\<^sup>*\<^sup>* s (s\<lparr>sys := ?\<sigma>'\<rparr>)"
    by (rule rtranclp.rtrancl_into_rtrancl [OF rtranclp.rtrancl_into_rtrancl
        [OF r_into_rtranclp [of "smp_step cfg K info_of held", OF 1] 2] 3])
  ultimately show ?thesis by blast
qed

text \<open>Two CPUs, for the witnesses: each holds a lock.\<close>

definition two_cpus :: "u64 set kernel" where
  "two_cpus = lock_kernel\<lparr>per_cpu_offset := [0x10000, 0x20000]\<rparr>"

definition idle :: "u64 set smp" where
  "idle = \<lparr>sys = machine.extend demo_machine {}, smp_tabs = (\<lambda>_. replicate ENTRIES_SIZE entry_default),
     live = [], leaked = []\<rparr>"

definition one_holds :: "u64 set smp" where
  "one_holds = idle\<lparr>sys := snd (guard_new two_cpus 8 (run_on two_cpus 0 (sys idle))),
     live := (0, \<lparr>lock = 8\<rparr>) # live idle\<rparr>"

definition both_hold :: "u64 set smp" where
  "both_hold = one_holds\<lparr>sys := snd (guard_new two_cpus 12 (run_on two_cpus 1 (sys one_holds))),
     live := (1, \<lparr>lock = 12\<rparr>) # live one_holds\<rparr>"

lemma two_cpus_contract: "spin_contract two_cpus machine.more"
  by (simp add: spin_contract_def same_but_lock_def two_cpus_def lock_kernel_def)

lemma two_cpus_held:
  "machine.more (sys idle) = {}" "machine.more (sys one_holds) = {8}"
  "machine.more (sys both_hold) = {12, 8}" "mem (sys both_hold) = (\<lambda>_. 0)"
  by (simp_all add: idle_def one_holds_def both_hold_def guard_new_def bpf_spin_lock_def run_on_def
      two_cpus_def lock_kernel_def machine.defs)

lemma two_cpus_cpu_steps:
  "cpu_step cfg two_cpus info_of machine.more idle one_holds"
  "cpu_step cfg two_cpus info_of machine.more one_holds both_hold"
proof -
  have new: "guard_new two_cpus l \<sigma> = (\<lparr>lock = l\<rparr>, snd (guard_new two_cpus l \<sigma>))" for l \<sigma>
    by (simp add: guard_new_def)
  have n: "length (per_cpu_offset two_cpus) = 2" by (simp add: two_cpus_def)
  show "cpu_step cfg two_cpus info_of machine.more idle one_holds"
    unfolding one_holds_def by (rule cpu_step.take_lock [OF _ _ new]) (simp_all add: n two_cpus_held)
  show "cpu_step cfg two_cpus info_of machine.more one_holds both_hold"
    unfolding both_hold_def by (rule cpu_step.take_lock [OF _ _ new]) (simp_all add: n two_cpus_held)
qed

lemma two_cpus_run:
  "(smp_step cfg two_cpus info_of machine.more)\<^sup>*\<^sup>* idle both_hold"
  using two_cpus_cpu_steps by (meson smp_step.crate r_into_rtranclp rtranclp.rtrancl_into_rtrancl)

lemma two_cpus_open_run:
  "(open_step cfg two_cpus info_of machine.more)\<^sup>*\<^sup>* idle both_hold"
  using two_cpus_cpu_steps by (meson open_step.own r_into_rtranclp rtranclp.rtrancl_into_rtrancl)

lemma idle_init: "smp_init idle"
  by (auto simp: smp_init_def guards_def idle_def)

section \<open>Properties\<close>

text \<open>
  C10: Mutual exclusion: whatever the programs of all CPUs do, taking locks, dropping guards in
  any order and panicking, no two guards, alive or left behind by a panic, on the same CPU or
  on different ones, have the same lock, and the kernel has the lock of every one of them.
\<close>
theorem spin_locks_exclusive:
  assumes "spin_contract K held" and "smp_init s" and "(smp_step cfg K info_of held)\<^sup>*\<^sup>* s t"
  shows "distinct (map (lock \<circ> snd) (live t @ leaked t)) \<and>
    (\<forall>cg \<in> set (live t @ leaked t). lock (snd cg) \<in> held (sys t))"
  using smp_inv_steps [OF assms(1,3) smp_inv_init [OF assms(2)]]
  by (auto simp: smp_inv_def guards_def locks_of_def)

theorem spin_locks_exclusive_witness:
  "distinct (map (lock \<circ> snd) (live both_hold @ leaked both_hold)) \<and>
   length (live both_hold) = 2"
  using spin_locks_exclusive [OF two_cpus_contract idle_init two_cpus_run
      [of release_x86 "\<lambda>p. \<lparr>message = None, payload = None\<rparr>"]]
  by (simp add: both_hold_def one_holds_def idle_def)

text \<open>
  C11: A panic leaves the spin locks of its scopes taken: the handler reaches the landing pad
  with every lock still held, and from there no operation of the crate on any CPU, taking and
  dropping other guards, more panics with their cleanup, releases it. If the lock is ever
  free again, or a live guard has it, then a step of the kernel had released it in between.
\<close>
theorem panicked_lock_left_taken:
  assumes "spin_contract K held" and "smp_init s" and "(open_step cfg K info_of held)\<^sup>*\<^sup>* s s1"
    and "(c, g) \<in> set (live s1)" and "c < length (per_cpu_offset K)"
    and "panic_handler cfg K info_of p (smp_tabs s1) (run_on K c (sys s1)) = Some (msg, tabs', \<tau>)"
    and "s2 = s1\<lparr>sys := \<tau>, smp_tabs := tabs', live := filter (\<lambda>cg. fst cg \<noteq> c) (live s1),
      leaked := filter (\<lambda>cg. fst cg = c) (live s1) @ leaked s1\<rparr>"
    and "(open_step cfg K info_of held)\<^sup>*\<^sup>* s2 t"
  shows "lock g \<in> held \<tau> \<and>
    (lock g \<notin> held (sys t) \<or> (\<exists>cg \<in> set (live t). lock (snd cg) = lock g) \<longrightarrow>
       (\<exists>u v. (open_step cfg K info_of held)\<^sup>*\<^sup>* s2 u \<and> kernel_step held u v \<and>
          lock g \<in> held (sys u) \<and> lock g \<notin> held (sys v) \<and> (open_step cfg K info_of held)\<^sup>*\<^sup>* v t))"
proof -
  have "smp_inv held (s\<lparr>leaked := []\<rparr>)" using assms(2) by (simp add: smp_init_def smp_inv_def guards_def)
  from live_inv_steps [OF assms(1,3) this] have inv1: "smp_inv held (s1\<lparr>leaked := []\<rparr>)" .
  let ?gs = "filter (\<lambda>cg. fst cg = c) (live s1)"
  have "cpu_step cfg K info_of held (s1\<lparr>leaked := []\<rparr>) (s2\<lparr>leaked := ?gs\<rparr>)"
    using cpu_step.panic [of c K cfg info_of p "s1\<lparr>leaked := []\<rparr>" msg tabs' \<tau> held] assms(5,6)
    by (simp add: assms(7))
  from smp_inv_cpu_step [OF assms(1) this inv1] have "smp_inv held (s2\<lparr>leaked := ?gs\<rparr>)" .
  from smp_inv_leaked [OF this, of "[(c, g)]"] assms(4) have inv2: "smp_inv held (s2\<lparr>leaked := [(c, g)]\<rparr>)" by simp
  then have "lock g \<in> held \<tau>" by (simp add: smp_inv_def guards_def assms(7))
  moreover have "lock g \<in> held (sys t) \<and> (\<forall>cg \<in> set (live t). lock (snd cg) \<noteq> lock g)"
    if "smp_inv held (t\<lparr>leaked := [(c, g)]\<rparr>)"
    using that in_locks_of [of _ _ "live t"] by (fastforce simp: smp_inv_def guards_def)
  ultimately show ?thesis
    using left_behind_steps [OF assms(1,8) inv2] by (auto simp: kernel_releases_def)
qed

text \<open>
  CPU 0 panics while both CPUs hold a lock; the kernel then releases the lock it left, and
  CPU 1 takes it.
\<close>
theorem panicked_lock_left_taken_witness:
  "\<exists>msg tabs' \<tau>. panic_handler release_x86 two_cpus (\<lambda>p. \<lparr>message = None, payload = None\<rparr>) UnwrapOnNone
      (smp_tabs both_hold) (run_on two_cpus 0 (sys both_hold)) = Some (msg, tabs', \<tau>) \<and> 8 \<in> machine.more \<tau> \<and>
      (\<exists>u v. kernel_step machine.more u v \<and> 8 \<in> machine.more (sys u) \<and> 8 \<notin> machine.more (sys v))"
proof -
  let ?info = "\<lambda>p :: panic. \<lparr>message = None, payload = None\<rparr> :: panic_info"
  let ?step = "open_step release_x86 two_cpus ?info machine.more"
  let ?\<sigma> = "run_on two_cpus 0 (sys both_hold)"
  let ?s2 = "both_hold\<lparr>sys := ?\<sigma>, smp_tabs := smp_tabs both_hold, live := filter (\<lambda>cg. fst cg \<noteq> 0) (live both_hold),
    leaked := filter (\<lambda>cg. fst cg = 0) (live both_hold) @ leaked both_hold\<rparr>"
  let ?\<rho> = "machine.more_update (\<lambda>_. {12}) ?\<sigma>"
  let ?t = "?s2\<lparr>sys := ?\<rho>\<rparr>"
  let ?u = "?t\<lparr>sys := snd (guard_new two_cpus 8 (run_on two_cpus 1 ?\<rho>)), live := (1, \<lparr>lock = 8\<rparr>) # live ?t\<rparr>"
  have tab: "cleanup_entries_this_cpu release_x86 two_cpus ?\<sigma> = Ret 0x10200"
    by (simp add: cleanup_entries_this_cpu_def this_cpu_ptr_def this_cpu_read_u32_def checked_release
        run_on_def two_cpus_held two_cpus_def)
  have "cleanup_all (smp_tabs both_hold 0x10200) ?\<sigma> = (smp_tabs both_hold 0x10200, ?\<sigma>, None)"
    by (rule cleanup_all_empty) (auto simp: both_hold_def one_holds_def idle_def)
  from panic_handler_clean [where tabs = "smp_tabs both_hold", OF tab this, of ?info UnwrapOnNone]
  have p: "panic_handler release_x86 two_cpus ?info UnwrapOnNone (smp_tabs both_hold) ?\<sigma> =
      Some (format_msg (?info UnwrapOnNone), smp_tabs both_hold, ?\<sigma>)" by simp
  have n: "0 < length (per_cpu_offset two_cpus)" "1 < length (per_cpu_offset two_cpus)"
    by (simp_all add: two_cpus_def)
  have live: "(0, \<lparr>lock = 8\<rparr>) \<in> set (live both_hold)" "locks_of (live ?s2) = [12]"
    by (simp_all add: both_hold_def one_holds_def idle_def)
  have more: "machine.more ?\<rho> = {12}" by (cases ?\<sigma>) simp
  have "set (locks_of (live ?s2)) \<subseteq> machine.more ?\<rho>" unfolding live more by simp
  then have "kernel_step machine.more ?s2 ?t" by (rule kernel_step.intros)
  then have 1: "?step ?s2 ?t" by (rule open_step.kernel)
  have "cpu_step release_x86 two_cpus ?info machine.more ?t ?u"
    by (rule cpu_step.take_lock [where l = 8]) (use n more in \<open>simp_all add: guard_new_def\<close>)
  then have 2: "?step ?t ?u" by (rule open_step.own)
  from 1 2 have run: "?step\<^sup>*\<^sup>* ?s2 ?u" by (meson r_into_rtranclp rtranclp.rtrancl_into_rtrancl)
  have to: "?step\<^sup>*\<^sup>* idle both_hold" by (rule two_cpus_open_run)
  note left = panicked_lock_left_taken [OF two_cpus_contract idle_init to live(1) n(1) p refl run]
  have "\<exists>cg \<in> set (live ?u). lock (snd cg) = lock \<lparr>lock = 8\<rparr>" by (intro bexI [of _ "(1, \<lparr>lock = 8\<rparr>)"]) simp_all
  with left have "8 \<in> machine.more ?\<sigma>"
    "\<exists>u v. kernel_step machine.more u v \<and> 8 \<in> machine.more (sys u) \<and> 8 \<notin> machine.more (sys v)" by auto
  with p show ?thesis by blast
qed

end
