(* ===== verification/Packet.thy ===== *)
theory Packet
  imports Prog_Type
begin

text \<open>
  The packet helpers of \<open>xdp_impl.rs\<close> that both packet program types use: viewing the start of
  a slice as a struct, and the IP header checksum. A reference to a struct is its address.
\<close>

section \<open>Slices as structs\<close>

text \<open>\<open>sizeof_T\<close> is \<open>mem::size_of::<T>()\<close>. The size is checked, the alignment is not.\<close>

definition convert_slice_to_struct :: "nat \<Rightarrow> slice \<Rightarrow> u64 res" where
  "convert_slice_to_struct sizeof_T s =
     (if sl_len s \<ge> sizeof_T then Ret (sl_ptr s)
      else Panic (AssertFailed ''size mismatch in convert_slice_to_struct''))"

definition convert_slice_to_struct_mut :: "nat \<Rightarrow> slice \<Rightarrow> u64 res" where
  "convert_slice_to_struct_mut sizeof_T s =
     (if sl_len s \<ge> sizeof_T then Ret (sl_ptr s)
      else Panic (AssertFailed ''size mismatch in convert_slice_to_struct_mut''))"

text \<open>
  The contract both conversions have: on a slice long enough the reference is the slice's
  start, otherwise they panic.
\<close>

locale struct_view =
  fixes conv :: "nat \<Rightarrow> slice \<Rightarrow> u64 res"
  assumes view_ok: "n \<le> sl_len s \<Longrightarrow> conv n s = Ret (sl_ptr s)"
    and view_short: "sl_len s < n \<Longrightarrow> \<exists>msg. conv n s = Panic (AssertFailed msg)"
begin

lemma view_iff: "conv n s = Ret p \<longleftrightarrow> n \<le> sl_len s \<and> p = sl_ptr s"
proof (cases "n \<le> sl_len s")
  case True
  then show ?thesis using view_ok by auto
next
  case False
  then show ?thesis using view_short [of s n] by auto
qed

text \<open>A view of a window \<open>s[b..e]\<close> of a slice: where it is, and when there is none.\<close>

lemma window_view_iff:
  "and_then (subslice s b e) (conv n) = Ret p \<longleftrightarrow>
   b \<le> e \<and> e \<le> sl_len s \<and> n \<le> e - b \<and> p = sl_ptr s + of_nat b"
  by (auto simp: and_then_Ret_iff subslice_Ret_iff view_iff)

lemma window_view_inside: "and_then (subslice s b e) (conv n) = Ret p \<Longrightarrow> within p n s"
  by (auto simp: window_view_iff within_def intro!: exI [of _ b])

end

interpretation ro_view: struct_view convert_slice_to_struct
  by unfold_locales (simp_all add: convert_slice_to_struct_def)

interpretation mut_view: struct_view convert_slice_to_struct_mut
  by unfold_locales (simp_all add: convert_slice_to_struct_mut_def)

section \<open>The IP header checksum\<close>

fun sum_words :: "build_cfg \<Rightarrow> u32 \<Rightarrow> u16 list \<Rightarrow> u32 res" where
  "sum_words cfg acc [] = Ret acc"
| "sum_words cfg acc (word # ws) =
     and_then (add_checked cfg acc (ucast word)) (\<lambda>acc. sum_words cfg acc ws)"

definition u16_slice :: "(u64 \<Rightarrow> u8) \<Rightarrow> u64 \<Rightarrow> nat \<Rightarrow> u16 list" where
  "u16_slice m p count = map (\<lambda>i. load_le m (p + of_nat (2 * i))) [0..<count]"

text \<open>The header is the \<open>iphdr\<close> at \<open>p\<close>; its checksum field is cleared and stays cleared.\<close>

definition compute_ip_checksum ::
  "build_cfg \<Rightarrow> 'k kernel \<Rightarrow> u64 \<Rightarrow> ('k, u16) run" where
  "compute_ip_checksum cfg K p \<sigma> =
     (let \<sigma>' = \<sigma>\<lparr>mem := store_bytes (mem \<sigma>) (p + of_nat (offsetof_iphdr_check K)) [0, 0]\<rparr>;
          count = sizeof_iphdr K div 2
      in (and_then (sum_words cfg 0 (u16_slice (mem \<sigma>') p count)) (\<lambda>acc.
          and_then (add_checked cfg (acc AND 0xffff) (drop_bit 16 acc)) (\<lambda>acc.
            Ret (ucast (NOT acc)))), \<sigma>'))"

text \<open>The integer sum of the header's words, with the checksum field cleared.\<close>

definition header_sum :: "'k kernel \<Rightarrow> u64 \<Rightarrow> 'k machine_scheme \<Rightarrow> nat" where
  "header_sum K p \<sigma> =
     sum_list (map unat (u16_slice
       (store_bytes (mem \<sigma>) (p + of_nat (offsetof_iphdr_check K)) [0, 0]) p (sizeof_iphdr K div 2)))"

lemma unat_u16_le: "unat (w :: u16) \<le> 65535"
  using unsigned_less [of w, where ?'a = nat] by simp

lemma unat_ucast_u32: "unat (ucast (w :: u16) :: u32) = unat w"
  using unat_u16_le [of w] by (simp add: unsigned_ucast_eq take_bit_nat_eq_self)

lemma sum_words_ok:
  "unat s + 65535 * length ws < 2 ^ 32 \<Longrightarrow>
   \<exists>t. sum_words cfg s ws = Ret t \<and> unat t = unat s + sum_list (map unat ws)"
proof (induction ws arbitrary: s)
  case Nil
  then show ?case by simp
next
  case (Cons w ws)
  have w: "unat (ucast w :: u32) = unat w" by (rule unat_ucast_u32)
  have le: "unat w \<le> 65535" by (rule unat_u16_le)
  with Cons.prems w have lt: "unat s + unat (ucast w :: u32) < 2 ^ 32" by simp
  then have un: "unat (s + ucast w) = unat s + unat w"
    using w by (simp add: unat_add_lem [THEN iffD1])
  obtain t where "sum_words cfg (s + ucast w) ws = Ret t"
    and "unat t = unat (s + ucast w) + sum_list (map unat ws)"
    using Cons.IH [of "s + ucast w"] Cons.prems le un by auto
  then show ?case using add_checked_ok [of s "ucast w" cfg] lt un by simp
qed

lemma sum_words_bound: "sum_list (map unat (ws :: u16 list)) \<le> 65535 * length ws"
proof (induction ws)
  case (Cons w ws)
  then show ?case using unat_u16_le [of w] by simp
qed simp

lemma unat_not_u16: "unat (NOT (x :: u16)) = 65535 - unat x"
proof -
  have n: "NOT x = - 1 - x" by (simp add: not_eq_complement)
  have "unat (- 1 :: u16) = 65535" by (simp add: unsigned_minus_1_eq_mask mask_eq_exp_minus_1)
  with unat_sub [of x "- 1"] show ?thesis unfolding n by simp
qed

text \<open>Folding once and complementing, in integers.\<close>

lemma fold_once:
  assumes "unat s < 2 ^ 31"
  shows "add_checked cfg (s AND 0xffff) (drop_bit 16 (s :: u32)) = Ret ((s AND 0xffff) + drop_bit 16 s)"
    and "unat (ucast (NOT ((s AND 0xffff) + drop_bit 16 s)) :: u16) =
      65535 - (unat s mod 65536 + unat s div 65536) mod 65536"
proof -
  have a: "s AND 0xffff = take_bit 16 s"
    using take_bit_eq_mask [of 16 s] by (simp add: mask_eq_exp_minus_1)
  have lo: "unat (s AND 0xffff) = unat s mod 65536"
    by (simp add: a unsigned_take_bit_eq) (simp add: take_bit_eq_mod)
  have hi: "unat (drop_bit 16 s) = unat s div 65536"
    by (simp add: drop_bit_eq_div unat_div)
  have lt: "unat (s AND 0xffff) + unat (drop_bit 16 s) < 2 ^ 32"
    using assms unfolding lo hi by simp
  then show "add_checked cfg (s AND 0xffff) (drop_bit 16 s) = Ret ((s AND 0xffff) + drop_bit 16 s)"
    by (intro add_checked_ok) simp
  let ?f = "(s AND 0xffff) + drop_bit 16 s"
  have f: "unat ?f = unat s mod 65536 + unat s div 65536"
    using lt lo hi by (simp add: unat_add_lem [THEN iffD1])
  have "ucast (NOT ?f) = (NOT (ucast ?f) :: u16)"
    by (rule bit_word_eqI) (simp add: bit_ucast_iff bit_not_iff)
  also have "unat \<dots> = 65535 - unat (ucast ?f :: u16)"
    by (rule unat_not_u16)
  also have "unat (ucast ?f :: u16) = unat ?f mod 65536"
    by (simp add: unsigned_ucast_eq take_bit_eq_mod)
  finally show "unat (ucast (NOT ?f) :: u16) = 65535 - (unat s mod 65536 + unat s div 65536) mod 65536"
    using f by simp
qed

text \<open>A sum and its value folded once agree modulo \<open>0xffff\<close>, up to the carry that is lost.\<close>

lemma one_fold_congruence:
  fixes S :: nat
  assumes "S mod 65536 + S div 65536 < 2 * 65536"
  shows "(S + (65535 - (S mod 65536 + S div 65536) mod 65536)) mod 65535 = 0 \<longleftrightarrow>
    S mod 65536 + S div 65536 < 65536"
proof -
  define q r where "q = S div 65536" and "r = S mod 65536"
  have S: "S = 65536 * q + r" by (simp add: q_def r_def)
  have b: "r + q < 2 * 65536" using assms by (simp add: q_def r_def)
  show ?thesis
  proof (cases "r + q < 65536")
    case True
    have "S + (65535 - (r + q)) = 65535 * (q + 1)" using S True by simp
    then have "(S + (65535 - (r + q))) mod 65535 = 0" by simp
    with True show ?thesis by (simp add: q_def r_def)
  next
    case False
    with assms have m: "(r + q) mod 65536 = r + q - 65536"
      by (simp add: q_def r_def mod_if [of "_ + _"])
    have "S + (65535 - (r + q - 65536)) = 65535 * (q + 2) + 1"
      using S False b by arith
    then have "(S + (65535 - (r + q) mod 65536)) mod 65535 = 1" unfolding m by (simp only: mod_mult_self4) simp
    with False show ?thesis unfolding q_def r_def by (metis One_nat_def add.commute zero_neq_one)
  qed
qed

section \<open>Properties\<close>

lemma compute_ip_checksum_value:
  assumes "sizeof_iphdr K \<le> 60"
  shows "\<exists>\<sigma>'. compute_ip_checksum cfg K p \<sigma> = (Ret (of_nat (65535 -
    (header_sum K p \<sigma> mod 65536 + header_sum K p \<sigma> div 65536) mod 65536)), \<sigma>')"
proof -
  let ?ws = "u16_slice (store_bytes (mem \<sigma>) (p + of_nat (offsetof_iphdr_check K)) [0, 0]) p (sizeof_iphdr K div 2)"
  have len: "length ?ws \<le> 30" using assms by (simp add: u16_slice_def)
  with sum_words_ok [of 0 ?ws cfg] obtain t where t: "sum_words cfg 0 ?ws = Ret t"
    and ut: "unat t = header_sum K p \<sigma>"
    by (auto simp: header_sum_def)
  have "header_sum K p \<sigma> < 2 ^ 31"
    using sum_words_bound [of ?ws] len by (simp add: header_sum_def)
  then have t31: "unat t < 2 ^ 31" by (simp add: ut)
  have "ucast (NOT ((t AND 0xffff) + drop_bit 16 t)) =
      (of_nat (unat (ucast (NOT ((t AND 0xffff) + drop_bit 16 t)) :: u16)) :: u16)"
    by simp
  also have "\<dots> = of_nat (65535 - (unat t mod 65536 + unat t div 65536) mod 65536)"
    unfolding fold_once(2) [OF t31] ..
  finally show ?thesis
    by (simp add: compute_ip_checksum_def Let_def t fold_once(1) [OF t31] ut)
qed

text \<open>
  C29: \<open>compute_ip_checksum\<close> never panics on a header of at most 60 bytes, in any build. It
  folds the carries of the word sum once: the checksum verifies, that is the header's sum with
  it is 0 in one's complement arithmetic, exactly when that fold leaves no carry.
\<close>
theorem ip_checksum_verifies_iff:
  assumes "sizeof_iphdr K \<le> 60"
  shows "\<exists>r \<sigma>'. compute_ip_checksum cfg K p \<sigma> = (Ret r, \<sigma>') \<and>
    ((header_sum K p \<sigma> + unat r) mod 65535 = 0 \<longleftrightarrow>
     header_sum K p \<sigma> mod 65536 + header_sum K p \<sigma> div 65536 < 65536)"
proof -
  let ?S = "header_sum K p \<sigma>"
  let ?f = "?S mod 65536 + ?S div 65536"
  let ?r = "of_nat (65535 - ?f mod 65536) :: u16"
  have S: "?S \<le> 65535 * 30"
    using sum_words_bound [of "u16_slice (store_bytes (mem \<sigma>)
      (p + of_nat (offsetof_iphdr_check K)) [0, 0]) p (sizeof_iphdr K div 2)"] assms
    by (simp add: header_sum_def u16_slice_def)
  have r: "unat ?r = 65535 - ?f mod 65536"
    by (simp only: unsigned_of_nat) (simp add: take_bit_nat_eq_self)
  have f: "?f < 2 * 65536" using S by linarith
  have "(?S + (65535 - ?f mod 65536)) mod 65535 = 0 \<longleftrightarrow> ?f < 65536"
    by (rule one_fold_congruence [OF f])
  with compute_ip_checksum_value [OF assms] r show ?thesis by metis
qed

text \<open>A header whose sum carries again when it is folded: two words \<open>0xffff\<close> and a 1.\<close>

definition carry_machine :: machine where
  "carry_machine = demo_machine\<lparr>mem := (\<lambda>a. if a < 4 then 255 else if a = 4 then 1 else 0)\<rparr>"

lemma carry_header_sum: "header_sum demo_kernel 0 carry_machine = 131071"
proof -
  have m: "store_bytes (mem carry_machine) (0 + of_nat (offsetof_iphdr_check (demo_kernel :: unit kernel))) [0, 0] =
      mem carry_machine"
    by (rule ext) (auto simp: store_bytes_def carry_machine_def less_Suc_eq nth_Cons word_less_nat_alt
        unat_sub_if' split: nat.splits if_splits)
  show ?thesis
    unfolding header_sum_def m
    by (simp add: u16_slice_def carry_machine_def load_le_def load_bytes_def upt_rec word_less_nat_alt)
qed

theorem ip_checksum_verifies_iff_witness:
  "(\<exists>r \<sigma>'. compute_ip_checksum dev_x86 demo_kernel 0 demo_machine = (Ret r, \<sigma>') \<and> unat r mod 65535 = 0) \<and>
   (\<exists>r \<sigma>'. compute_ip_checksum dev_x86 demo_kernel 0 carry_machine = (Ret r, \<sigma>') \<and>
      (131071 + unat r) mod 65535 \<noteq> 0)"
proof
  have z: "store_bytes (\<lambda>_. 0) a [0, 0] = (\<lambda>_. 0)" for a
    by (rule ext) (simp add: store_bytes_def less_Suc_eq nth_Cons split: nat.splits)
  have "header_sum demo_kernel 0 demo_machine = 0"
    by (simp add: header_sum_def z u16_slice_def o_def sum_list_triv)
  with ip_checksum_verifies_iff [of demo_kernel dev_x86 0 demo_machine]
  show "\<exists>r \<sigma>'. compute_ip_checksum dev_x86 demo_kernel 0 demo_machine = (Ret r, \<sigma>') \<and> unat r mod 65535 = 0"
    by simp
  show "\<exists>r \<sigma>'. compute_ip_checksum dev_x86 demo_kernel 0 carry_machine = (Ret r, \<sigma>') \<and>
      (131071 + unat r) mod 65535 \<noteq> 0"
    using ip_checksum_verifies_iff [of demo_kernel dev_x86 0 carry_machine] carry_header_sum by simp
qed

end
