(* ===== verification/Xdp.thy ===== *)
theory Xdp
  imports Packet
begin

text \<open>
  \<open>xdp/xdp_impl.rs\<close>: the XDP context of a program, its conversion from the kernel's \<open>xdp_buff\<close>,
  the packet accessors, and \<open>prog_run\<close>. The buffer is read through the typed heap at the
  time of each access, as the code reads through the kept reference \<open>kptr\<close>.
\<close>

section \<open>The context\<close>

record xdp_md =
  md_data :: u64
  md_data_end :: u64
  md_data_slice :: slice
  md_data_length :: u64
  md_data_meta :: u64
  md_ingress_ifindex :: u32
  md_rx_qeueu_index :: u32
  md_egress_ifindex :: u32
  md_kptr :: u64

text \<open>The program's function; \<open>&Self\<close> only gives access to the helpers.\<close>

record 'k xdp =
  xdp_rtti :: u64
  xdp_prog :: "xdp_md \<Rightarrow> ('k, c_result) run"
  xdp_name :: string

definition xdp_new :: "(xdp_md \<Rightarrow> ('k, c_result) run) \<Rightarrow> string \<Rightarrow> u64 \<Rightarrow> 'k xdp" where
  "xdp_new f nm rtti = \<lparr>xdp_rtti = rtti, xdp_prog = f, xdp_name = nm\<rparr>"

text \<open>\<open>kptr.rxq as u32\<close> truncates the pointer; a slice's length is \<open>data_end - data\<close>.\<close>

definition xdp_convert_ctx :: "build_cfg \<Rightarrow> u64 \<Rightarrow> 'k machine_scheme \<Rightarrow> xdp_md res" where
  "xdp_convert_ctx cfg ctx \<sigma> =
     (let k = xdp_buffs \<sigma> ctx in
      and_then (sub_checked cfg (xb_data_end k) (xb_data k)) (\<lambda>data_length.
        Ret \<lparr>md_data = xb_data k, md_data_end = xb_data_end k,
             md_data_slice = \<lparr>sl_ptr = xb_data k, sl_len = unat data_length\<rparr>,
             md_data_length = data_length, md_data_meta = xb_data_meta k,
             md_ingress_ifindex = ucast (xb_rxq k),
             md_rx_qeueu_index = queue_index (rxq_infos \<sigma> (xb_rxq k)),
             md_egress_ifindex = 0, md_kptr = ctx\<rparr>))"

section \<open>Packet access\<close>

definition xdp_tcp_header :: "xdp_md \<Rightarrow> u64 res" where
  "xdp_tcp_header ctx = Panic (NotYetImplemented ''add code to parsing the packet'')"

definition xdp_udp_header :: "xdp_md \<Rightarrow> u64 res" where
  "xdp_udp_header ctx = Panic (NotYetImplemented ''add code to parsing the packet'')"

definition xdp_ip_header :: "xdp_md \<Rightarrow> u64 res" where
  "xdp_ip_header ctx = Panic (NotYetImplemented ''add code to parsing the packet'')"

definition xdp_eth_header :: "'k kernel \<Rightarrow> xdp_md \<Rightarrow> 'k machine_scheme \<Rightarrow> u64 res" where
  "xdp_eth_header K ctx \<sigma> =
     (let data_slice = \<lparr>sl_ptr = xb_data (xdp_buffs \<sigma> (md_kptr ctx)),
                        sl_len = unat (md_data_length ctx)\<rparr>
      in and_then (subslice data_slice 0 14) (convert_slice_to_struct_mut (sizeof_ethhdr K)))"

definition xdp_data_slice_mut :: "build_cfg \<Rightarrow> xdp_md \<Rightarrow> 'k machine_scheme \<Rightarrow> slice res" where
  "xdp_data_slice_mut cfg ctx \<sigma> =
     (let k = xdp_buffs \<sigma> (md_kptr ctx) in
      and_then (sub_checked cfg (xb_data_end k) (xb_data k)) (\<lambda>data_length.
        Ret \<lparr>sl_ptr = xb_data k, sl_len = unat data_length\<rparr>))"

text \<open>The context is changed in place: the result is the return code and the new context.\<close>

definition bpf_xdp_adjust_tail ::
  "build_cfg \<Rightarrow> 'k kernel \<Rightarrow> xdp_md \<Rightarrow> i32 \<Rightarrow> ('k, i32 \<times> xdp_md) run" where
  "bpf_xdp_adjust_tail cfg K ctx offset \<sigma> =
     (let (r, \<sigma>') = k_xdp_adjust_tail K (md_kptr ctx) offset \<sigma> in
      if r \<noteq> 0 then (Ret (r, ctx), \<sigma>')
      else let k = xdp_buffs \<sigma>' (md_kptr ctx) in
        (and_then (sub_checked cfg (xb_data_end k) (xb_data k)) (\<lambda>data_length.
           Ret (0, ctx\<lparr>md_data := xb_data k, md_data_end := xb_data_end k,
             md_data_meta := xb_data_meta k, md_data_length := data_length,
             md_data_slice := \<lparr>sl_ptr = xb_data k, sl_len = unat data_length\<rparr>,
             md_ingress_ifindex := ucast (xb_rxq k),
             md_rx_qeueu_index := queue_index (rxq_infos \<sigma>' (xb_rxq k)),
             md_egress_ifindex := 0\<rparr>)), \<sigma>'))"

section \<open>Running a program\<close>

definition xdp_prog_run :: "build_cfg \<Rightarrow> 'k kernel \<Rightarrow> 'k xdp \<Rightarrow> u64 \<Rightarrow> ('k, u32) run" where
  "xdp_prog_run cfg K p ctx =
     bind_m (get_m (xdp_convert_ctx cfg ctx)) (\<lambda>c.
     bind_m (res_m c) (\<lambda>newctx. verdict (XDP_PASS K) (xdp_prog p newctx)))"

interpretation xdp_run: iu_prog "xdp_convert_ctx cfg" xdp_prog "xdp_prog_run cfg K" "XDP_PASS K"
  for cfg :: build_cfg and K :: "'k kernel"
  by unfold_locales (simp add: xdp_prog_run_def)

section \<open>The invariant\<close>

text \<open>The packet of a buffer, and a context that describes it.\<close>

definition packet :: "'k machine_scheme \<Rightarrow> u64 \<Rightarrow> slice" where
  "packet \<sigma> b = \<lparr>sl_ptr = xb_data (xdp_buffs \<sigma> b),
     sl_len = unat (xb_data_end (xdp_buffs \<sigma> b) - xb_data (xdp_buffs \<sigma> b))\<rparr>"

definition xdp_buff_wf :: "'k machine_scheme \<Rightarrow> u64 \<Rightarrow> bool" where
  "xdp_buff_wf \<sigma> b \<longleftrightarrow> xb_data (xdp_buffs \<sigma> b) \<le> xb_data_end (xdp_buffs \<sigma> b)"

definition md_wf :: "'k machine_scheme \<Rightarrow> xdp_md \<Rightarrow> bool" where
  "md_wf \<sigma> md \<longleftrightarrow>
     xdp_buff_wf \<sigma> (md_kptr md) \<and>
     md_data md = xb_data (xdp_buffs \<sigma> (md_kptr md)) \<and>
     md_data_end md = xb_data_end (xdp_buffs \<sigma> (md_kptr md)) \<and>
     md_data_meta md = xb_data_meta (xdp_buffs \<sigma> (md_kptr md)) \<and>
     md_data_slice md = packet \<sigma> (md_kptr md) \<and>
     unat (md_data_length md) = sl_len (packet \<sigma> (md_kptr md)) \<and>
     md_rx_qeueu_index md = queue_index (rxq_infos \<sigma> (xb_rxq (xdp_buffs \<sigma> (md_kptr md))))"

lemma convert_ctx_wf:
  "xdp_buff_wf \<sigma> ctx \<Longrightarrow>
   \<exists>md. xdp_convert_ctx cfg ctx \<sigma> = Ret md \<and> md_wf \<sigma> md \<and> md_kptr md = ctx"
  by (simp add: xdp_convert_ctx_def xdp_buff_wf_def md_wf_def packet_def sub_checked_ok Let_def)

lemma eth_header_iff:
  assumes "sizeof_ethhdr K = 14"
  shows "xdp_eth_header K md \<sigma> = Ret p \<longleftrightarrow>
    14 \<le> unat (md_data_length md) \<and> p = xb_data (xdp_buffs \<sigma> (md_kptr md))"
  using assms by (auto simp: xdp_eth_header_def mut_view.window_view_iff)

section \<open>Properties\<close>

text \<open>
  Converting a buffer whose data does not end before it starts succeeds in every build,
  and the context describes exactly that buffer's packet. On a buffer that is not so, a
  checked build panics.
\<close>
theorem xdp_convert_ctx_spec:
  "(xdp_buff_wf \<sigma> ctx \<longrightarrow>
      (\<exists>md. xdp_convert_ctx cfg ctx \<sigma> = Ret md \<and> md_wf \<sigma> md \<and> md_kptr md = ctx)) \<and>
   (\<not> xdp_buff_wf \<sigma> ctx \<and> overflow_checks cfg \<longrightarrow> xdp_convert_ctx cfg ctx \<sigma> = Panic ArithOverflow)"
  using convert_ctx_wf [of \<sigma> ctx cfg]
  by (auto simp: xdp_buff_wf_def xdp_convert_ctx_def sub_checked_def Let_def)

theorem xdp_convert_ctx_spec_witness:
  "(\<exists>md. xdp_convert_ctx dev_x86 8 demo_machine = Ret md \<and> md_wf demo_machine md \<and> md_kptr md = 8) \<and>
   xdp_convert_ctx dev_x86 8 (demo_machine\<lparr>xdp_buffs :=
     (\<lambda>_. \<lparr>xb_data = 1, xb_data_end = 0, xb_data_meta = 0, xb_rxq = 0\<rparr>)\<rparr>) = Panic ArithOverflow"
  using xdp_convert_ctx_spec [of demo_machine 8 dev_x86]
    xdp_convert_ctx_spec [of "demo_machine\<lparr>xdp_buffs :=
     (\<lambda>_. \<lparr>xb_data = 1, xb_data_end = 0, xb_data_meta = 0, xb_rxq = 0\<rparr>)\<rparr>" 8 dev_x86]
  by (simp add: xdp_buff_wf_def)

text \<open>
  C23: \<open>bpf_xdp_adjust_tail\<close> keeps the context in step with the buffer: when the kernel refuses,
  its code is returned and the context is unchanged; when it succeeds and leaves a
  well-formed buffer, the code is 0 and the context describes the buffer's new packet,
  whatever it said before.
\<close>
theorem xdp_adjust_tail_resyncs:
  assumes "k_xdp_adjust_tail K (md_kptr md) offset \<sigma> = (r, \<tau>)"
    and "r = 0 \<Longrightarrow> xdp_buff_wf \<tau> (md_kptr md)"
  shows "\<exists>md'. bpf_xdp_adjust_tail cfg K md offset \<sigma> = (Ret (r, md'), \<tau>) \<and> md_kptr md' = md_kptr md \<and>
    (r \<noteq> 0 \<longrightarrow> md' = md) \<and> (r = 0 \<longrightarrow> md_wf \<tau> md')"
  using assms
  by (cases "r = 0")
     (auto simp: bpf_xdp_adjust_tail_def Let_def xdp_buff_wf_def md_wf_def packet_def sub_checked_ok)

theorem xdp_adjust_tail_resyncs_witness:
  "\<exists>md md' \<tau>. bpf_xdp_adjust_tail dev_x86 (demo_kernel\<lparr>k_xdp_adjust_tail := (\<lambda>b off \<sigma>.
       (0, \<sigma>\<lparr>xdp_buffs := (\<lambda>_. \<lparr>xb_data = 64, xb_data_end = 100, xb_data_meta = 64, xb_rxq = 0\<rparr>)\<rparr>))\<rparr>)
     md (- 4) demo_machine = (Ret (0, md'), \<tau>) \<and> md_wf \<tau> md' \<and> sl_len (md_data_slice md') = 36"
proof -
  let ?b = "\<lambda>_::u64. \<lparr>xb_data = 64, xb_data_end = 100, xb_data_meta = 64, xb_rxq = 0\<rparr>"
  let ?K = "demo_kernel\<lparr>k_xdp_adjust_tail := (\<lambda>b off \<sigma>. (0, \<sigma>\<lparr>xdp_buffs := ?b\<rparr>))\<rparr>"
  have k: "k_xdp_adjust_tail ?K (md_kptr md) (- 4) demo_machine = (0, demo_machine\<lparr>xdp_buffs := ?b\<rparr>)" for md
    by simp
  have "xdp_buff_wf (demo_machine\<lparr>xdp_buffs := ?b\<rparr>) (md_kptr md)" for md
    by (simp add: xdp_buff_wf_def)
  with xdp_adjust_tail_resyncs [OF k] obtain md md' where
    "bpf_xdp_adjust_tail dev_x86 ?K md (- 4) demo_machine = (Ret (0, md'), demo_machine\<lparr>xdp_buffs := ?b\<rparr>)"
    and "md_wf (demo_machine\<lparr>xdp_buffs := ?b\<rparr>) md'" by blast
  then show ?thesis by (auto simp: md_wf_def packet_def intro!: exI)
qed

text \<open>
  What a program can do with its context without assigning its public fields: write bytes
  through the slices it has, and resize the packet. \<open>xdp_reach\<close> is what it can reach from
  the context \<open>prog_run\<close> gave it.
\<close>

inductive xdp_reach :: "build_cfg \<Rightarrow> 'k kernel \<Rightarrow> u64 \<Rightarrow> 'k machine_scheme \<Rightarrow> xdp_md \<Rightarrow> 'k machine_scheme \<Rightarrow> bool"
  for cfg :: build_cfg and K :: "'k kernel" and ctx :: u64 and \<sigma>0 :: "'k machine_scheme" where
  start: "xdp_convert_ctx cfg ctx \<sigma>0 = Ret md \<Longrightarrow> xdp_reach cfg K ctx \<sigma>0 md \<sigma>0"
| store: "xdp_reach cfg K ctx \<sigma>0 md \<sigma> \<Longrightarrow> xdp_reach cfg K ctx \<sigma>0 md (\<sigma>\<lparr>mem := m\<rparr>)"
| adjust: "xdp_reach cfg K ctx \<sigma>0 md \<sigma> \<Longrightarrow>
    bpf_xdp_adjust_tail cfg K md offset \<sigma> = (Ret (r, md'), \<tau>) \<Longrightarrow> xdp_reach cfg K ctx \<sigma>0 md' \<tau>"

text \<open>The kernel's promise: a refusal changes no buffer, a success leaves a well-formed one.\<close>

definition adjust_contract :: "'k kernel \<Rightarrow> bool" where
  "adjust_contract K \<longleftrightarrow>
     (\<forall>b offset \<sigma>. let (r, \<tau>) = k_xdp_adjust_tail K b offset \<sigma> in
        if r = 0 then xdp_buff_wf \<tau> b
        else xdp_buffs \<tau> = xdp_buffs \<sigma> \<and> rxq_infos \<tau> = rxq_infos \<sigma>)"

lemma md_wf_cong:
  "xdp_buffs \<tau> = xdp_buffs \<sigma> \<Longrightarrow> rxq_infos \<tau> = rxq_infos \<sigma> \<Longrightarrow> md_wf \<tau> md = md_wf \<sigma> md"
  by (simp add: md_wf_def xdp_buff_wf_def packet_def)

lemma adjust_tail_keeps_wf:
  assumes "adjust_contract K" and "md_wf \<sigma> md"
    and "bpf_xdp_adjust_tail cfg K md offset \<sigma> = (Ret (r, md'), \<tau>)"
  shows "md_wf \<tau> md' \<and> md_kptr md' = md_kptr md"
proof -
  obtain q \<rho> where k: "k_xdp_adjust_tail K (md_kptr md) offset \<sigma> = (q, \<rho>)" by fastforce
  from assms(1) k have c: "if q = 0 then xdp_buff_wf \<rho> (md_kptr md)
      else xdp_buffs \<rho> = xdp_buffs \<sigma> \<and> rxq_infos \<rho> = rxq_infos \<sigma>"
    unfolding adjust_contract_def by (metis (mono_tags, lifting) case_prod_conv)
  show ?thesis
  proof (cases "q = 0")
    case True
    with c k assms(3) show ?thesis
      by (auto simp: bpf_xdp_adjust_tail_def Let_def xdp_buff_wf_def md_wf_def packet_def sub_checked_ok)
  next
    case False
    with c k assms(3) md_wf_cong [of \<rho> \<sigma> md] assms(2) show ?thesis
      by (auto simp: bpf_xdp_adjust_tail_def)
  qed
qed

lemma xdp_reach_wf:
  assumes "xdp_reach cfg K ctx \<sigma>0 md \<tau>" and "adjust_contract K" and "xdp_buff_wf \<sigma>0 ctx"
  shows "md_wf \<tau> md \<and> md_kptr md = ctx"
  using assms(1)
proof (induction rule: xdp_reach.induct)
  case (start md)
  with convert_ctx_wf [OF assms(3), of cfg] show ?case by auto
next
  case (store md \<sigma> m)
  then show ?case using md_wf_cong [of "\<sigma>\<lparr>mem := m\<rparr>" \<sigma> md] by simp
next
  case (adjust md \<sigma> offset r md' \<tau>)
  then show ?case using adjust_tail_keeps_wf [OF assms(2)] by metis
qed

text \<open>
  C24: However often a program resizes the packet and writes to it, as long as it does not
  assign the context's fields itself, its view of the Ethernet header never leaves the packet
  as it is then: \<open>eth_header\<close> returns the packet's start exactly when the packet has 14 bytes
  and panics otherwise, overwriting the header changes no byte of memory outside the packet,
  and \<open>data_slice_mut\<close> is exactly the packet, in every build.
\<close>
theorem xdp_views_stay_in_packet:
  assumes "xdp_reach cfg K ctx \<sigma>0 md \<tau>" and "adjust_contract K" and "xdp_buff_wf \<sigma>0 ctx"
    and "sizeof_ethhdr K = 14"
  shows "((\<exists>p. xdp_eth_header K md \<tau> = Ret p) \<longleftrightarrow> 14 \<le> sl_len (packet \<tau> ctx)) \<and>
    (\<forall>p. xdp_eth_header K md \<tau> = Ret p \<longrightarrow>
       p = sl_ptr (packet \<tau> ctx) \<and> within p 14 (packet \<tau> ctx) \<and>
       (\<forall>bs x. length bs = 14 \<and> outside (packet \<tau> ctx) x \<longrightarrow>
          store_bytes (mem \<tau>) p bs x = mem \<tau> x)) \<and>
    xdp_data_slice_mut cfg md \<tau> = Ret (packet \<tau> ctx)"
proof -
  have wf: "md_wf \<tau> md" and k: "md_kptr md = ctx" using xdp_reach_wf [OF assms(1-3)] by auto
  have "xdp_data_slice_mut cfg md \<tau> = Ret (packet \<tau> ctx)"
    using wf k by (simp add: xdp_data_slice_mut_def md_wf_def xdp_buff_wf_def packet_def sub_checked_ok Let_def)
  moreover have "((\<exists>p. xdp_eth_header K md \<tau> = Ret p) \<longleftrightarrow> 14 \<le> sl_len (packet \<tau> ctx)) \<and>
      (\<forall>p. xdp_eth_header K md \<tau> = Ret p \<longrightarrow> p = sl_ptr (packet \<tau> ctx) \<and> within p 14 (packet \<tau> ctx))"
    using wf k assms(4)
    by (auto simp: eth_header_iff md_wf_def packet_def within_def intro!: exI [of _ 0])
  ultimately show ?thesis using store_within_frame [OF _ eq_imp_le] by blast
qed

text \<open>A kernel that sets every packet to the 36 bytes at 64.\<close>

definition adjust_kernel :: "unit kernel" where
  "adjust_kernel = demo_kernel\<lparr>k_xdp_adjust_tail := (\<lambda>b offset \<sigma>. (0, \<sigma>\<lparr>xdp_buffs :=
     (\<lambda>_. \<lparr>xb_data = 64, xb_data_end = 100, xb_data_meta = 64, xb_rxq = 0\<rparr>)\<rparr>))\<rparr>"

theorem xdp_views_stay_in_packet_witness:
  "\<exists>md. xdp_eth_header adjust_kernel md (demo_machine\<lparr>xdp_buffs :=
     (\<lambda>_. \<lparr>xb_data = 64, xb_data_end = 100, xb_data_meta = 64, xb_rxq = 0\<rparr>)\<rparr>) = Ret 64"
proof -
  let ?\<tau> = "demo_machine\<lparr>xdp_buffs :=
     (\<lambda>_. \<lparr>xb_data = 64, xb_data_end = 100, xb_data_meta = 64, xb_rxq = 0\<rparr>)\<rparr>"
  have c: "adjust_contract adjust_kernel"
    by (simp add: adjust_contract_def adjust_kernel_def xdp_buff_wf_def word_le_nat_alt)
  have wf: "xdp_buff_wf demo_machine 8" by (simp add: xdp_buff_wf_def)
  from convert_ctx_wf [OF wf, of dev_x86] obtain md where
    "xdp_convert_ctx dev_x86 8 demo_machine = Ret md" by blast
  then have r: "xdp_reach dev_x86 adjust_kernel 8 demo_machine md demo_machine" by (rule xdp_reach.start)
  have "\<exists>md'. bpf_xdp_adjust_tail dev_x86 adjust_kernel md 4 demo_machine = (Ret (0, md'), ?\<tau>)"
    by (simp add: bpf_xdp_adjust_tail_def adjust_kernel_def sub_checked_ok word_le_nat_alt Let_def)
  then obtain md' where "xdp_reach dev_x86 adjust_kernel 8 demo_machine md' ?\<tau>"
    using xdp_reach.adjust [OF r] by blast
  from xdp_views_stay_in_packet [OF this c wf] have "xdp_eth_header adjust_kernel md' ?\<tau> = Ret 64"
    by (auto simp: packet_def adjust_kernel_def)
  then show ?thesis by blast
qed

text \<open>
  C25: That guarantee rests on the public field \<open>data_length\<close>, which a program may assign: after
  any assignment of 14 or more, \<open>eth_header\<close> on a packet shorter than 14 bytes returns a
  reference to 14 bytes that are not all in the packet, without any unsafe code in the
  program.
\<close>
theorem xdp_data_length_unsound:
  assumes "md_wf \<sigma> md" and "sizeof_ethhdr K = 14"
    and "sl_len (packet \<sigma> (md_kptr md)) < 14" and "14 \<le> unat n"
  shows "\<exists>p. xdp_eth_header K (md\<lparr>md_data_length := n\<rparr>) \<sigma> = Ret p \<and>
    \<not> within p 14 (packet \<sigma> (md_kptr md))"
  using assms by (auto simp: eth_header_iff within_def)

theorem xdp_data_length_unsound_witness:
  "\<exists>md p. xdp_convert_ctx dev_x86 8 demo_machine = Ret md \<and>
     xdp_eth_header demo_kernel (md\<lparr>md_data_length := 14\<rparr>) demo_machine = Ret p \<and>
     \<not> within p 14 (packet demo_machine 8)"
proof -
  have "xdp_buff_wf demo_machine 8" by (simp add: xdp_buff_wf_def)
  from convert_ctx_wf [OF this, of dev_x86] obtain md where
    md: "xdp_convert_ctx dev_x86 8 demo_machine = Ret md" "md_wf demo_machine md" "md_kptr md = 8" by blast
  from xdp_data_length_unsound [OF md(2), of demo_kernel 14] md show ?thesis
    by (auto simp: packet_def)
qed

end
