(* ===== verification/Sched_Cls.thy ===== *)
theory Sched_Cls
  imports Packet
begin

text \<open>
  \<open>sched_cls/sched_cls_impl.rs\<close>: the socket-buffer context of a traffic-control program, its
  conversion from the kernel's \<open>sk_buff\<close>, the header views, \<open>bpf_clone_redirect\<close>, and
  \<open>prog_run\<close>.
\<close>

section \<open>The context\<close>

record sk_buff_ctx =
  sb_len :: u32
  sb_protocol :: u16be
  sb_priority :: u32
  sb_ingress_ifindex :: u32
  sb_ifindex :: u32
  sb_hash :: u32
  sb_mark :: u32
  sb_pkt_type :: u32
  sb_queue_mapping :: u16
  sb_vlan_present :: u32
  sb_vlan_tci :: u16
  sb_vlan_proto :: u16be
  sb_cb :: "i8 list"
  sb_tc_classid :: u32
  sb_tc_index :: u16
  sb_napi_id :: u32
  sb_sk :: u64
  sb_data :: u32
  sb_data_meta :: u32
  sb_data_slice :: slice
  sb_kptr :: u64

record 'k sched_cls =
  sc_rtti :: u64
  sc_prog :: "sk_buff_ctx \<Rightarrow> ('k, c_result) run"
  sc_name :: string

definition sched_cls_new :: "(sk_buff_ctx \<Rightarrow> ('k, c_result) run) \<Rightarrow> string \<Rightarrow> u64 \<Rightarrow> 'k sched_cls" where
  "sched_cls_new f nm rtti = \<lparr>sc_rtti = rtti, sc_prog = f, sc_name = nm\<rparr>"

text \<open>\<open>kptr.data as u32\<close> truncates the pointer; \<open>cb\<close> is a reference to the buffer's array.\<close>

definition sc_convert_ctx :: "u64 \<Rightarrow> 'k machine_scheme \<Rightarrow> sk_buff_ctx" where
  "sc_convert_ctx ctx \<sigma> =
     (let k = sk_buffs \<sigma> ctx; net_dev = net_devices \<sigma> (skb_dev k) in
      \<lparr>sb_len = skb_len k, sb_protocol = u16be (skb_protocol k), sb_priority = skb_priority k,
       sb_ingress_ifindex = 0, sb_ifindex = nd_ifindex net_dev, sb_hash = skb_hash k,
       sb_mark = 0, sb_pkt_type = 0, sb_queue_mapping = skb_queue_mapping k,
       sb_vlan_present = 0, sb_vlan_tci = skb_vlan_tci k, sb_vlan_proto = u16be (skb_vlan_proto k),
       sb_cb = skb_cb k, sb_tc_classid = 0, sb_tc_index = skb_tc_index k, sb_napi_id = 0,
       sb_sk = skb_sk k, sb_data = ucast (skb_data k), sb_data_meta = 0,
       sb_data_slice = \<lparr>sl_ptr = skb_data k, sl_len = unat (skb_len k)\<rparr>, sb_kptr = ctx\<rparr>)"

section \<open>Packet access\<close>

text \<open>Every view is cut out of a slice at the buffer's data with the length the context says.\<close>

definition sc_slice :: "sk_buff_ctx \<Rightarrow> 'k machine_scheme \<Rightarrow> slice" where
  "sc_slice skb \<sigma> = \<lparr>sl_ptr = skb_data (sk_buffs \<sigma> (sb_kptr skb)), sl_len = unat (sb_len skb)\<rparr>"

definition sc_eth_header :: "'k kernel \<Rightarrow> sk_buff_ctx \<Rightarrow> 'k machine_scheme \<Rightarrow> u64 res" where
  "sc_eth_header K skb \<sigma> =
     and_then (subslice (sc_slice skb \<sigma>) 0 14) (convert_slice_to_struct_mut (sizeof_ethhdr K))"

definition sc_udp_header :: "'k kernel \<Rightarrow> sk_buff_ctx \<Rightarrow> 'k machine_scheme \<Rightarrow> u64 res" where
  "sc_udp_header K skb \<sigma> =
     (let hbegin = sizeof_ethhdr K + sizeof_iphdr K; hend = sizeof_udphdr K + hbegin in
      and_then (subslice (sc_slice skb \<sigma>) hbegin hend) (convert_slice_to_struct_mut (sizeof_udphdr K)))"

definition sc_tcp_header :: "'k kernel \<Rightarrow> sk_buff_ctx \<Rightarrow> 'k machine_scheme \<Rightarrow> u64 res" where
  "sc_tcp_header K skb \<sigma> =
     (let hbegin = sizeof_ethhdr K + sizeof_iphdr K; hend = sizeof_tcphdr K + hbegin in
      and_then (subslice (sc_slice skb \<sigma>) hbegin hend) (convert_slice_to_struct_mut (sizeof_tcphdr K)))"

definition sc_ip_header :: "'k kernel \<Rightarrow> sk_buff_ctx \<Rightarrow> 'k machine_scheme \<Rightarrow> u64 res" where
  "sc_ip_header K skb \<sigma> =
     (let hbegin = sizeof_ethhdr K; hend = sizeof_iphdr K + hbegin in
      and_then (subslice (sc_slice skb \<sigma>) hbegin hend) (convert_slice_to_struct_mut (sizeof_iphdr K)))"

definition sc_data_slice_mut :: "sk_buff_ctx \<Rightarrow> 'k machine_scheme \<Rightarrow> slice" where
  "sc_data_slice_mut skb \<sigma> =
     (let k = sk_buffs \<sigma> (sb_kptr skb) in \<lparr>sl_ptr = skb_data k, sl_len = unat (skb_len k)\<rparr>)"

text \<open>On success the data pointer and the slice are refreshed, the field \<open>len\<close> is not.\<close>

definition bpf_clone_redirect ::
  "'k kernel \<Rightarrow> sk_buff_ctx \<Rightarrow> u32 \<Rightarrow> u64 \<Rightarrow> 'k machine_scheme \<Rightarrow> (i32 \<times> sk_buff_ctx) \<times> 'k machine_scheme" where
  "bpf_clone_redirect K skb ifindex flags \<sigma> =
     (let (r, \<sigma>') = k_clone_redirect K (sb_kptr skb) ifindex flags \<sigma> in
      if r \<noteq> 0 then ((r, skb), \<sigma>')
      else let k = sk_buffs \<sigma>' (sb_kptr skb) in
        ((0, skb\<lparr>sb_data := ucast (skb_data k),
                 sb_data_slice := \<lparr>sl_ptr = skb_data k, sl_len = unat (skb_len k)\<rparr>\<rparr>), \<sigma>'))"

section \<open>Running a program\<close>

definition sc_prog_run :: "'k kernel \<Rightarrow> 'k sched_cls \<Rightarrow> u64 \<Rightarrow> ('k, u32) run" where
  "sc_prog_run K p ctx =
     bind_m (get_m (sc_convert_ctx ctx)) (\<lambda>newctx. verdict (TC_ACT_OK K) (sc_prog p newctx))"

interpretation sc_run: iu_prog "\<lambda>ctx \<sigma>. Ret (sc_convert_ctx ctx \<sigma>)" sc_prog "sc_prog_run K" "TC_ACT_OK K"
  for K :: "'k kernel"
  by unfold_locales (simp add: sc_prog_run_def run_simps)

section \<open>The invariant\<close>

definition skb_wf :: "'k machine_scheme \<Rightarrow> sk_buff_ctx \<Rightarrow> bool" where
  "skb_wf \<sigma> skb \<longleftrightarrow>
     sb_len skb = skb_len (sk_buffs \<sigma> (sb_kptr skb)) \<and>
     sb_data skb = ucast (skb_data (sk_buffs \<sigma> (sb_kptr skb))) \<and>
     sb_data_slice skb = sc_data_slice_mut skb \<sigma>"

text \<open>The bytes of the buffer that are in its linear area; the rest is in page fragments.\<close>

definition linear_data :: "'k machine_scheme \<Rightarrow> u64 \<Rightarrow> slice" where
  "linear_data \<sigma> b = \<lparr>sl_ptr = skb_data (sk_buffs \<sigma> b),
     sl_len = unat (skb_len (sk_buffs \<sigma> b)) - unat (skb_data_len (sk_buffs \<sigma> b))\<rparr>"

text \<open>The headers with their offsets and sizes.\<close>

datatype header = Eth | Ip | Udp | Tcp

fun header_view :: "header \<Rightarrow> 'k kernel \<Rightarrow> sk_buff_ctx \<Rightarrow> 'k machine_scheme \<Rightarrow> u64 res" where
  "header_view Eth = sc_eth_header"
| "header_view Ip = sc_ip_header"
| "header_view Udp = sc_udp_header"
| "header_view Tcp = sc_tcp_header"

fun header_begin :: "header \<Rightarrow> nat" where
  "header_begin Eth = 0"
| "header_begin Ip = 14"
| "header_begin h = 34"

fun header_size :: "header \<Rightarrow> nat" where
  "header_size Eth = 14"
| "header_size Ip = 20"
| "header_size Udp = 8"
| "header_size Tcp = 20"

definition header_sizes :: "'k kernel \<Rightarrow> bool" where
  "header_sizes K \<longleftrightarrow> sizeof_ethhdr K = 14 \<and> sizeof_iphdr K = 20 \<and> sizeof_udphdr K = 8 \<and>
     sizeof_tcphdr K = 20"

lemmas view_defs = sc_eth_header_def sc_ip_header_def sc_udp_header_def sc_tcp_header_def Let_def

lemma header_view_eq:
  "header_sizes K \<Longrightarrow>
   header_view h K skb \<sigma> =
     and_then (subslice (sc_slice skb \<sigma>) (header_begin h) (header_begin h + header_size h))
       (convert_slice_to_struct_mut (header_size h))"
  by (cases h)
     (simp_all add: header_sizes_def view_defs)

lemma header_view_iff:
  assumes "header_sizes K"
  shows "header_view h K skb \<sigma> = Ret p \<longleftrightarrow>
    header_begin h + header_size h \<le> unat (sb_len skb) \<and>
    p = skb_data (sk_buffs \<sigma> (sb_kptr skb)) + of_nat (header_begin h)"
  by (auto simp: header_view_eq [OF assms] mut_view.window_view_iff sc_slice_def)

text \<open>Headers in order of where they end, so that a packet that has one has all smaller ones.\<close>

instantiation header :: linorder
begin

definition less_eq_header :: "header \<Rightarrow> header \<Rightarrow> bool" where
  "less_eq_header h h' \<longleftrightarrow> header_begin h + header_size h \<le> header_begin h' + header_size h'"

definition less_header :: "header \<Rightarrow> header \<Rightarrow> bool" where
  "less_header h h' \<longleftrightarrow> header_begin h + header_size h < header_begin h' + header_size h'"

instance
proof
  fix x y :: header
  show "x \<le> y \<Longrightarrow> y \<le> x \<Longrightarrow> x = y"
    by (cases x; cases y) (simp_all add: less_eq_header_def)
qed (auto simp: less_eq_header_def less_header_def)

end

lemma convert_wf: "skb_wf \<sigma> (sc_convert_ctx ctx \<sigma>)"
  by (simp add: skb_wf_def sc_convert_ctx_def sc_data_slice_mut_def Let_def)

section \<open>Properties\<close>

text \<open>
  On a context that describes its buffer, each of the four header views returns the
  header's place exactly when the buffer has the bytes up to the header's end; the view then
  lies inside the buffer, and inside its linear area when the buffer has no fragments.
\<close>
theorem sc_header_views:
  assumes "skb_wf \<sigma> skb" and "header_sizes K"
  shows "((\<exists>p. header_view h K skb \<sigma> = Ret p) \<longleftrightarrow>
      header_begin h + header_size h \<le> unat (skb_len (sk_buffs \<sigma> (sb_kptr skb)))) \<and>
    (\<forall>p. header_view h K skb \<sigma> = Ret p \<longrightarrow>
      p = skb_data (sk_buffs \<sigma> (sb_kptr skb)) + of_nat (header_begin h) \<and>
      within p (header_size h) (sb_data_slice skb) \<and>
      (skb_data_len (sk_buffs \<sigma> (sb_kptr skb)) = 0 \<longrightarrow>
         within p (header_size h) (linear_data \<sigma> (sb_kptr skb))))"
  using assms
  by (auto simp: header_view_iff skb_wf_def sc_data_slice_mut_def within_def linear_data_def Let_def
      intro!: exI [of _ "header_begin h"])

theorem sc_header_views_witness:
  "\<exists>p. header_view Udp demo_kernel
         (sc_convert_ctx 8 (demo_machine\<lparr>sk_buffs := (\<lambda>b. (sk_buffs demo_machine b)\<lparr>skb_len := 64\<rparr>)\<rparr>))
         (demo_machine\<lparr>sk_buffs := (\<lambda>b. (sk_buffs demo_machine b)\<lparr>skb_len := 64\<rparr>)\<rparr>) = Ret p"
proof -
  have "header_sizes demo_kernel" by (simp add: header_sizes_def)
  from sc_header_views [OF convert_wf this, of Udp 8
      "demo_machine\<lparr>sk_buffs := (\<lambda>b. (sk_buffs demo_machine b)\<lparr>skb_len := 64\<rparr>)\<rparr>"]
  show ?thesis by (simp add: sc_convert_ctx_def Let_def)
qed

text \<open>
  The views nest: where a program can see a header, it can see every header that ends
  earlier, whatever the context says.
\<close>
theorem sc_header_views_nest:
  assumes "header_sizes K" and "h \<le> h'" and "header_view h' K skb \<sigma> = Ret p'"
  shows "\<exists>p. header_view h K skb \<sigma> = Ret p"
  using assms by (auto simp: header_view_iff less_eq_header_def)

theorem sc_header_views_nest_witness:
  "\<exists>p. header_view Ip demo_kernel
         (sc_convert_ctx 8 (demo_machine\<lparr>sk_buffs := (\<lambda>b. (sk_buffs demo_machine b)\<lparr>skb_len := 64\<rparr>)\<rparr>))
         (demo_machine\<lparr>sk_buffs := (\<lambda>b. (sk_buffs demo_machine b)\<lparr>skb_len := 64\<rparr>)\<rparr>) = Ret p"
proof -
  have s: "header_sizes demo_kernel" by (simp add: header_sizes_def)
  have "header_view Udp demo_kernel
      (sc_convert_ctx 8 (demo_machine\<lparr>sk_buffs := (\<lambda>b. (sk_buffs demo_machine b)\<lparr>skb_len := 64\<rparr>)\<rparr>))
      (demo_machine\<lparr>sk_buffs := (\<lambda>b. (sk_buffs demo_machine b)\<lparr>skb_len := 64\<rparr>)\<rparr>) = Ret 34"
    by (subst header_view_iff [OF s]) (simp add: sc_convert_ctx_def Let_def)
  then show ?thesis by (rule sc_header_views_nest [OF s, rotated]) (simp add: less_eq_header_def)
qed

text \<open>
  C28: The length the views use counts the bytes in page fragments: a header that starts in the
  linear area and ends behind it is still returned, as a reference that leaves the linear
  area.
\<close>
theorem sc_fragmented_view_escapes:
  assumes "skb_wf \<sigma> skb" and "header_sizes K"
    and "header_begin h + header_size h \<le> unat (skb_len (sk_buffs \<sigma> (sb_kptr skb)))"
    and "sl_len (linear_data \<sigma> (sb_kptr skb)) < header_begin h + header_size h"
  shows "\<exists>p. header_view h K skb \<sigma> = Ret p \<and>
    p = sl_ptr (linear_data \<sigma> (sb_kptr skb)) + of_nat (header_begin h) \<and>
    \<not> within p (header_size h) (linear_data \<sigma> (sb_kptr skb))"
proof -
  let ?d = "skb_data (sk_buffs \<sigma> (sb_kptr skb))"
  let ?n = "sl_len (linear_data \<sigma> (sb_kptr skb))"
  have v: "header_view h K skb \<sigma> = Ret (?d + of_nat (header_begin h))"
    using assms(1,3) by (simp add: header_view_iff [OF assms(2)] skb_wf_def)
  have "\<not> within (?d + of_nat (header_begin h)) (header_size h) (linear_data \<sigma> (sb_kptr skb))"
  proof
    assume "within (?d + of_nat (header_begin h)) (header_size h) (linear_data \<sigma> (sb_kptr skb))"
    then obtain k where k: "of_nat (header_begin h) = (of_nat k :: u64)" "k + header_size h \<le> ?n"
      by (auto simp: within_def linear_data_def)
    have "?n < 2 ^ 32"
      using unsigned_less [of "skb_len (sk_buffs \<sigma> (sb_kptr skb))", where ?'a = nat]
      by (simp add: linear_data_def)
    moreover have "header_begin h < 2 ^ 32" by (cases h) auto
    ultimately have "header_begin h = k" using k by (simp add: word_of_nat_eq_iff take_bit_nat_eq_self)
    with k(2) assms(4) show False by simp
  qed
  with v show ?thesis by (simp add: linear_data_def)
qed

theorem sc_fragmented_view_escapes_witness:
  "\<exists>p \<sigma>. header_view Tcp demo_kernel (sc_convert_ctx 8 \<sigma>) (\<sigma> :: machine) = Ret p \<and>
     \<not> within p 20 (linear_data \<sigma> 8)"
proof -
  let ?\<sigma> = "demo_machine\<lparr>sk_buffs := (\<lambda>b. (sk_buffs demo_machine b)\<lparr>skb_len := 64, skb_data_len := 24\<rparr>)\<rparr>"
  have "header_sizes demo_kernel" by (simp add: header_sizes_def)
  from sc_fragmented_view_escapes [OF convert_wf this, of Tcp ?\<sigma> 8]
  have "\<exists>p. header_view Tcp demo_kernel (sc_convert_ctx 8 ?\<sigma>) ?\<sigma> = Ret p \<and> \<not> within p 20 (linear_data ?\<sigma> 8)"
    by (auto simp: sc_convert_ctx_def Let_def linear_data_def)
  then show ?thesis by blast
qed

text \<open>Where the transport header begins, by the length field of the IP header.\<close>

definition ip_ihl :: "(u64 \<Rightarrow> u8) \<Rightarrow> u64 \<Rightarrow> nat" where
  "ip_ihl m a = unat (m a AND 15)"

definition transport_begin :: "(u64 \<Rightarrow> u8) \<Rightarrow> u64 \<Rightarrow> u64" where
  "transport_begin m dat = dat + of_nat (14 + 4 * ip_ihl m (dat + 14))"

text \<open>
  C36: The UDP and TCP views take the IP header to be twenty bytes: they are the packet's transport
  header exactly when the packet has no IP options, else a program reads the options as ports.
\<close>
theorem sc_transport_view_no_options:
  assumes "header_sizes K" and "h = Udp \<or> h = Tcp" and "header_view h K skb \<sigma> = Ret p"
  shows "p = transport_begin (mem \<sigma>) (skb_data (sk_buffs \<sigma> (sb_kptr skb))) \<longleftrightarrow>
    ip_ihl (mem \<sigma>) (skb_data (sk_buffs \<sigma> (sb_kptr skb)) + 14) = 5"
proof -
  let ?d = "skb_data (sk_buffs \<sigma> (sb_kptr skb))"
  let ?i = "ip_ihl (mem \<sigma>) (?d + 14)"
  have "mem \<sigma> (?d + 14) AND 15 \<le> 15" by (rule word_and_le1)
  then have i: "?i \<le> 15" by (simp add: ip_ihl_def word_le_nat_alt)
  have "p = ?d + of_nat 34"
    using assms(2,3) header_view_iff [OF assms(1)] by auto
  then have "p = transport_begin (mem \<sigma>) ?d \<longleftrightarrow> (of_nat 34 :: u64) = of_nat (14 + 4 * ?i)"
    by (simp only: transport_begin_def add_left_cancel)
  also have "\<dots> \<longleftrightarrow> 34 = 14 + 4 * ?i"
    using i by (simp only: word_of_nat_eq_iff) (simp add: take_bit_nat_eq_self)
  finally show ?thesis by auto
qed

theorem sc_transport_view_no_options_witness:
  "\<exists>\<sigma> p. header_view Tcp demo_kernel (sc_convert_ctx 8 \<sigma>) (\<sigma> :: machine) = Ret p \<and>
     p \<noteq> transport_begin (mem \<sigma>) (skb_data (sk_buffs \<sigma> 8))"
proof -
  let ?\<sigma> = "demo_machine\<lparr>sk_buffs := (\<lambda>b. (sk_buffs demo_machine b)\<lparr>skb_len := 64\<rparr>)\<rparr>"
  have s: "header_sizes demo_kernel" by (simp add: header_sizes_def)
  have v: "header_view Tcp demo_kernel (sc_convert_ctx 8 ?\<sigma>) ?\<sigma> = Ret 34"
    by (subst header_view_iff [OF s]) (simp add: sc_convert_ctx_def Let_def)
  from sc_transport_view_no_options [OF s _ v] have "34 \<noteq> transport_begin (mem ?\<sigma>) (skb_data (sk_buffs ?\<sigma> 8))"
    by (simp add: ip_ihl_def sc_convert_ctx_def Let_def)
  with v show ?thesis by blast
qed

text \<open>
  \<open>bpf_clone_redirect\<close> returns a refusal of the kernel and then changes nothing of the
  context. On success the context's slice is the buffer's again, but \<open>len\<close> keeps its old
  value, so the context describes the buffer afterwards only if the kernel left the buffer's
  length as it was.
\<close>
theorem sc_clone_redirect_stale_len:
  assumes "skb_wf \<sigma> skb" and "k_clone_redirect K (sb_kptr skb) ifindex flags \<sigma> = (r, \<tau>)"
  shows "\<exists>skb'. bpf_clone_redirect K skb ifindex flags \<sigma> = ((r, skb'), \<tau>) \<and>
    (r \<noteq> 0 \<longrightarrow> skb' = skb) \<and>
    (r = 0 \<longrightarrow> sb_data_slice skb' = sc_data_slice_mut skb' \<tau> \<and>
       (skb_wf \<tau> skb' \<longleftrightarrow>
          skb_len (sk_buffs \<tau> (sb_kptr skb)) = skb_len (sk_buffs \<sigma> (sb_kptr skb))))"
  using assms
  by (cases "r = 0")
     (auto simp: bpf_clone_redirect_def skb_wf_def sc_data_slice_mut_def Let_def)

theorem sc_clone_redirect_stale_len_witness:
  "\<exists>skb \<tau>. bpf_clone_redirect (demo_kernel\<lparr>k_clone_redirect := (\<lambda>b i f \<sigma>.
       (0, \<sigma>\<lparr>sk_buffs := (\<lambda>b. (sk_buffs \<sigma> b)\<lparr>skb_len := 40\<rparr>)\<rparr>))\<rparr>)
     (sc_convert_ctx 8 demo_machine) 1 0 demo_machine = ((0, skb), \<tau>) \<and> \<not> skb_wf \<tau> skb"
proof -
  let ?\<tau> = "demo_machine\<lparr>sk_buffs := (\<lambda>b. (sk_buffs demo_machine b)\<lparr>skb_len := 40\<rparr>)\<rparr>"
  have "k_clone_redirect (demo_kernel\<lparr>k_clone_redirect := (\<lambda>b i f \<sigma>.
       (0, \<sigma>\<lparr>sk_buffs := (\<lambda>b. (sk_buffs \<sigma> b)\<lparr>skb_len := 40\<rparr>)\<rparr>))\<rparr>)
     (sb_kptr (sc_convert_ctx 8 demo_machine)) 1 0 demo_machine = (0, ?\<tau>)" by simp
  from sc_clone_redirect_stale_len [OF convert_wf this] show ?thesis by auto
qed

section \<open>What a program can reach\<close>

text \<open>
  What a program can do with its context without assigning its public fields: write bytes
  through the references it has, and redirect clones of the packet, which may move the
  packet's data. \<open>sc_reach\<close> is what it can reach from the context \<open>prog_run\<close> gave it.
\<close>

inductive sc_reach :: "'k kernel \<Rightarrow> u64 \<Rightarrow> 'k machine_scheme \<Rightarrow> sk_buff_ctx \<Rightarrow> 'k machine_scheme \<Rightarrow> bool"
  for K :: "'k kernel" and ctx :: u64 and \<sigma>0 :: "'k machine_scheme" where
  start: "sc_reach K ctx \<sigma>0 (sc_convert_ctx ctx \<sigma>0) \<sigma>0"
| store: "sc_reach K ctx \<sigma>0 skb \<sigma> \<Longrightarrow> sc_reach K ctx \<sigma>0 skb (\<sigma>\<lparr>mem := m\<rparr>)"
| redirect: "sc_reach K ctx \<sigma>0 skb \<sigma> \<Longrightarrow>
    bpf_clone_redirect K skb ifindex flags \<sigma> = ((r, skb'), \<tau>) \<Longrightarrow> sc_reach K ctx \<sigma>0 skb' \<tau>"

text \<open>The kernel's promise: a redirect may move a packet's data, but keeps its length.\<close>

definition redirect_contract :: "'k kernel \<Rightarrow> bool" where
  "redirect_contract K \<longleftrightarrow>
     (\<forall>b ifindex flags \<sigma>. skb_len (sk_buffs (snd (k_clone_redirect K b ifindex flags \<sigma>)) b) =
        skb_len (sk_buffs \<sigma> b))"

definition buffer :: "'k machine_scheme \<Rightarrow> u64 \<Rightarrow> slice" where
  "buffer \<sigma> b = \<lparr>sl_ptr = skb_data (sk_buffs \<sigma> b), sl_len = unat (skb_len (sk_buffs \<sigma> b))\<rparr>"

lemma clone_redirect_keeps_len:
  assumes "redirect_contract K" and "sb_len skb = skb_len (sk_buffs \<sigma> (sb_kptr skb))"
    and "bpf_clone_redirect K skb ifindex flags \<sigma> = ((r, skb'), \<tau>)"
  shows "sb_len skb' = skb_len (sk_buffs \<tau> (sb_kptr skb')) \<and> sb_kptr skb' = sb_kptr skb"
proof -
  obtain q where k: "k_clone_redirect K (sb_kptr skb) ifindex flags \<sigma> = (q, \<tau>)"
    using assms(3) by (auto simp: bpf_clone_redirect_def Let_def split: prod.splits if_splits)
  then have "skb_len (sk_buffs \<tau> (sb_kptr skb)) = skb_len (sk_buffs \<sigma> (sb_kptr skb))"
    using assms(1) unfolding redirect_contract_def by (metis snd_conv)
  with k assms(2,3) show ?thesis
    by (auto simp: bpf_clone_redirect_def Let_def split: if_splits)
qed

lemma sc_reach_len:
  assumes "sc_reach K ctx \<sigma>0 skb \<tau>" and "redirect_contract K"
  shows "sb_len skb = skb_len (sk_buffs \<tau> (sb_kptr skb)) \<and> sb_kptr skb = ctx"
  using assms(1)
proof (induction rule: sc_reach.induct)
  case start
  then show ?case by (simp add: sc_convert_ctx_def Let_def)
next
  case (redirect skb \<sigma> ifindex flags r skb' \<tau>)
  then show ?case using clone_redirect_keeps_len [OF assms(2)] by metis
qed simp

text \<open>
  C26: However often a program redirects and writes to the packet, as long as it does not assign
  the context's fields itself, each of its four header views returns exactly when the packet
  has the bytes up to the header's end; the view is then at the header's place in the packet
  as it is now, inside the packet, and inside its linear area when it has no fragments; and
  overwriting the header through it changes no byte of memory outside the packet.
\<close>
theorem sc_views_stay_in_buffer:
  assumes "sc_reach K ctx \<sigma>0 skb \<tau>" and "redirect_contract K" and "header_sizes K"
  shows "((\<exists>p. header_view h K skb \<tau> = Ret p) \<longleftrightarrow>
      header_begin h + header_size h \<le> sl_len (buffer \<tau> ctx)) \<and>
    (\<forall>p. header_view h K skb \<tau> = Ret p \<longrightarrow>
      p = sl_ptr (buffer \<tau> ctx) + of_nat (header_begin h) \<and>
      within p (header_size h) (buffer \<tau> ctx) \<and>
      (skb_data_len (sk_buffs \<tau> ctx) = 0 \<longrightarrow> within p (header_size h) (linear_data \<tau> ctx)) \<and>
      (\<forall>bs x. length bs = header_size h \<and> outside (buffer \<tau> ctx) x \<longrightarrow>
         store_bytes (mem \<tau>) p bs x = mem \<tau> x))"
proof -
  have inside: "p = sl_ptr (buffer \<tau> ctx) + of_nat (header_begin h) \<and>
      within p (header_size h) (buffer \<tau> ctx) \<and>
      (skb_data_len (sk_buffs \<tau> ctx) = 0 \<longrightarrow> within p (header_size h) (linear_data \<tau> ctx))"
    if "header_view h K skb \<tau> = Ret p" for p
    using that sc_reach_len [OF assms(1,2)]
    by (auto simp: header_view_iff [OF assms(3)] buffer_def within_def linear_data_def
        intro!: exI [of _ "header_begin h"])
  have "(\<exists>p. header_view h K skb \<tau> = Ret p) \<longleftrightarrow>
      header_begin h + header_size h \<le> sl_len (buffer \<tau> ctx)"
    using sc_reach_len [OF assms(1,2)] by (auto simp: header_view_iff [OF assms(3)] buffer_def)
  with inside show ?thesis using store_within_frame [OF _ eq_imp_le] by blast
qed

text \<open>A kernel whose redirects move every packet to 4096.\<close>

definition redirect_kernel :: "unit kernel" where
  "redirect_kernel = demo_kernel\<lparr>k_clone_redirect := (\<lambda>b i f \<sigma>.
     (0, \<sigma>\<lparr>sk_buffs := (\<lambda>b. (sk_buffs \<sigma> b)\<lparr>skb_data := 4096\<rparr>)\<rparr>))\<rparr>"

theorem sc_views_stay_in_buffer_witness:
  "\<exists>\<sigma> \<tau> skb. bpf_clone_redirect redirect_kernel (sc_convert_ctx 8 \<sigma>) 1 0 \<sigma> = ((0, skb), \<tau>) \<and>
     (\<exists>p. header_view Udp redirect_kernel skb \<tau> = Ret p \<and> within p 8 (buffer \<tau> 8))"
proof -
  let ?\<sigma> = "demo_machine\<lparr>sk_buffs := (\<lambda>b. (sk_buffs demo_machine b)\<lparr>skb_len := 64\<rparr>)\<rparr>"
  obtain skb \<tau> where r: "bpf_clone_redirect redirect_kernel (sc_convert_ctx 8 ?\<sigma>) 1 0 ?\<sigma> = ((0, skb), \<tau>)"
    and len: "sl_len (buffer \<tau> 8) = 64"
    by (simp add: bpf_clone_redirect_def redirect_kernel_def buffer_def Let_def)
  have "redirect_contract redirect_kernel" by (simp add: redirect_contract_def redirect_kernel_def)
  moreover have "header_sizes redirect_kernel" by (simp add: header_sizes_def redirect_kernel_def)
  ultimately have "(\<exists>p. header_view Udp redirect_kernel skb \<tau> = Ret p) \<and>
      (\<forall>p. header_view Udp redirect_kernel skb \<tau> = Ret p \<longrightarrow> within p (header_size Udp) (buffer \<tau> 8))"
    using sc_views_stay_in_buffer [OF sc_reach.redirect [OF sc_reach.start r], of Udp] len by simp
  with r len show ?thesis by fastforce
qed

lemma unat_add_mod4: "unat ((d :: u64) + of_nat b) mod 4 = (unat d + b) mod 4"
proof -
  have "unat (d + of_nat b) = (unat d + b) mod 2 ^ 64"
    by (simp add: unat_word_ariths unat_of_nat mod_simps)
  then show ?thesis by (simp add: mod_mod_cancel)
qed

text \<open>
  C27: The views check the size of a header and not its alignment: an IP, UDP or TCP view, a
  reference to a struct of 32-bit fields in two of the three cases, is aligned to 4 bytes
  exactly when the packet's data is 2 modulo 4. On a packet whose data is aligned to 4, as
  with a \<open>NET_IP_ALIGN\<close> of 0, the Ethernet view is aligned and none of the others is.
\<close>
theorem sc_view_alignment:
  assumes "header_sizes K" and "header_view h K skb \<sigma> = Ret p" and "h \<noteq> Eth"
  shows "(4 dvd unat p \<longleftrightarrow> unat (skb_data (sk_buffs \<sigma> (sb_kptr skb))) mod 4 = 2) \<and>
    (\<exists>q. header_view Eth K skb \<sigma> = Ret q \<and> \<not> (4 dvd unat p \<and> 4 dvd unat q))"
proof -
  let ?d = "skb_data (sk_buffs \<sigma> (sb_kptr skb))"
  have len: "header_begin h + header_size h \<le> unat (sb_len skb)" and p: "p = ?d + of_nat (header_begin h)"
    using assms(2) by (auto simp: header_view_iff [OF assms(1)])
  have b: "header_begin h mod 4 = 2" "14 \<le> header_begin h" using assms(3) by (cases h; simp)+
  have "4 dvd unat p \<longleftrightarrow> (unat ?d + header_begin h) mod 4 = 0"
    unfolding p by (simp only: dvd_eq_mod_eq_0 unat_add_mod4)
  also have "\<dots> \<longleftrightarrow> unat ?d mod 4 = 2" using b(1) by presburger
  finally have al: "4 dvd unat p \<longleftrightarrow> unat ?d mod 4 = 2" .
  moreover have "header_view Eth K skb \<sigma> = Ret ?d"
    unfolding header_view_iff [OF assms(1)] using len b(2) by simp
  ultimately show ?thesis by (auto simp: dvd_eq_mod_eq_0)
qed

theorem sc_view_alignment_witness:
  "\<not> 4 dvd unat (sl_ptr (buffer (demo_machine\<lparr>sk_buffs := (\<lambda>b. (sk_buffs demo_machine b)\<lparr>skb_len := 64\<rparr>)\<rparr>) 8) + 14)"
proof -
  let ?\<sigma> = "demo_machine\<lparr>sk_buffs := (\<lambda>b. (sk_buffs demo_machine b)\<lparr>skb_len := 64\<rparr>)\<rparr>"
  have s: "header_sizes demo_kernel" by (simp add: header_sizes_def)
  have "header_view Ip demo_kernel (sc_convert_ctx 8 ?\<sigma>) ?\<sigma> = Ret (sl_ptr (buffer ?\<sigma> 8) + 14)"
    by (subst header_view_iff [OF s]) (simp add: sc_convert_ctx_def buffer_def Let_def)
  from sc_view_alignment [OF s this] show ?thesis by (simp add: sc_convert_ctx_def Let_def)
qed

end
