(* ===== verification/Seqlock.thy ===== *)
theory Seqlock
  imports Machine
begin

text \<open>
  \<open>seqlock.rs\<close>: the properties of a sequence counter and the two halves of a latch read. The
  counter is its value at the time of the access; barriers only order accesses, which the
  users of this file do by giving every access its own time. (The module is not linked into
  the crate at this commit: \<open>lib.rs\<close> comments it out.)
\<close>

record seqcount =
  seq_value :: u32

datatype PropTy = Ptr | Sequence | Preemptible | Assert

definition seqprop_sequence :: "seqcount \<Rightarrow> u32" where
  "seqprop_sequence s = seq_value s"

definition seqprop_preemptible :: "seqcount \<Rightarrow> bool" where
  "seqprop_preemptible s = False"

definition seqprop_assert :: "seqcount \<Rightarrow> unit" where
  "seqprop_assert s = ()"

text \<open>\<open>seq_prop\<close> at each type it is implemented for; every other property panics.\<close>

definition seq_prop_ptr :: "seqcount \<Rightarrow> PropTy \<Rightarrow> seqcount res" where
  "seq_prop_ptr s prop = (case prop of Ptr \<Rightarrow> Ret s | _ \<Rightarrow> Panic (ExplicitPanic ''not implemented''))"

definition seq_prop_u32 :: "seqcount \<Rightarrow> PropTy \<Rightarrow> u32 res" where
  "seq_prop_u32 s prop =
     (case prop of Sequence \<Rightarrow> Ret (seqprop_sequence s) | _ \<Rightarrow> Panic (ExplicitPanic ''not implemented''))"

definition seq_prop_bool :: "seqcount \<Rightarrow> PropTy \<Rightarrow> bool res" where
  "seq_prop_bool s prop =
     (case prop of Preemptible \<Rightarrow> Ret (seqprop_preemptible s)
      | _ \<Rightarrow> Panic (ExplicitPanic ''not implemented''))"

definition seq_prop_unit :: "seqcount \<Rightarrow> PropTy \<Rightarrow> unit res" where
  "seq_prop_unit s prop =
     (case prop of Assert \<Rightarrow> Ret (seqprop_assert s) | _ \<Rightarrow> Panic (ExplicitPanic ''not implemented''))"

definition do_read_seqcount_retry_wrap :: "seqcount \<Rightarrow> u32 \<Rightarrow> bool" where
  "do_read_seqcount_retry_wrap s start =
     (let s = kcsan_atomic_next 0 s in unlikely (seq_value s \<noteq> start))"

definition do_read_seqcount_retry :: "seqcount \<Rightarrow> u32 \<Rightarrow> bool" where
  "do_read_seqcount_retry s start = (let s = barrier s in do_read_seqcount_retry_wrap s start)"

definition read_seqcount_retry :: "seqcount \<Rightarrow> u32 \<Rightarrow> bool res" where
  "read_seqcount_retry s start =
     and_then (seq_prop_ptr s Ptr) (\<lambda>s. Ret (do_read_seqcount_retry s start))"

definition raw_read_seqcount_latch :: "seqcount \<Rightarrow> u32" where
  "raw_read_seqcount_latch s = seq_value s"

definition read_seqcount_latch_retry :: "seqcount \<Rightarrow> u32 \<Rightarrow> bool res" where
  "read_seqcount_latch_retry s start = read_seqcount_retry s start"

lemma latch_retry_eq:
  "read_seqcount_latch_retry s start = Ret (seq_value s \<noteq> start)"
  by (simp add: read_seqcount_latch_retry_def read_seqcount_retry_def seq_prop_ptr_def
      do_read_seqcount_retry_def do_read_seqcount_retry_wrap_def unlikely_def barrier_def
      kcsan_atomic_next_def)

end
