(* ===== verification/Timekeeping.thy ===== *)
theory Timekeeping
  imports Seqlock
begin

text \<open>
  \<open>timekeeping.rs\<close>: the conversion of a time to nanoseconds, the clock source difference, and
  the lock-free reader of the fast timekeeper. The timekeeper changes while it is read: it is
  a function from time to its value, every access of the reader happens at its own time, and
  the reader is a partial function, since a busy writer can keep it retrying for ever. (The
  module is not linked into the crate at this commit: \<open>lib.rs\<close> comments it out.)
\<close>

section \<open>Signed arithmetic\<close>

definition sadd_checked :: "build_cfg \<Rightarrow> i64 \<Rightarrow> i64 \<Rightarrow> i64 res" where
  "sadd_checked cfg a b =
     (if overflow_checks cfg \<and> \<not> (- (2 ^ 63) \<le> sint a + sint b \<and> sint a + sint b < 2 ^ 63)
      then Panic ArithOverflow else Ret (a + b))"

definition smul_checked :: "build_cfg \<Rightarrow> i64 \<Rightarrow> i64 \<Rightarrow> i64 res" where
  "smul_checked cfg a b =
     (if overflow_checks cfg \<and> \<not> (- (2 ^ 63) \<le> sint a * sint b \<and> sint a * sint b < 2 ^ 63)
      then Panic ArithOverflow else Ret (a * b))"

section \<open>Times\<close>

definition NSEC_PER_SEC :: i64 where "NSEC_PER_SEC = 1000000000"
definition KTIME_MAX :: i64 where "KTIME_MAX = NOT (push_bit 63 1)"
definition KTIME_SEC_MAX :: i64 where "KTIME_SEC_MAX = word_of_int (sint KTIME_MAX div sint NSEC_PER_SEC)"

definition ktime_set :: "build_cfg \<Rightarrow> i64 \<Rightarrow> u64 \<Rightarrow> i64 res" where
  "ktime_set cfg secs nsecs =
     (if KTIME_SEC_MAX \<le>s secs then Ret KTIME_MAX
      else and_then (smul_checked cfg secs NSEC_PER_SEC) (\<lambda>s. sadd_checked cfg s nsecs))"

record timespec64 =
  tv_sec :: i64
  tv_nsec :: i64

definition timespec64_to_ktime :: "build_cfg \<Rightarrow> timespec64 \<Rightarrow> i64 res" where
  "timespec64_to_ktime cfg ts = ktime_set cfg (tv_sec ts) (tv_nsec ts)"

section \<open>The clock source\<close>

definition clocksource_delta :: "build_cfg \<Rightarrow> 'k kernel \<Rightarrow> u64 \<Rightarrow> u64 \<Rightarrow> u64 \<Rightarrow> u64 res" where
  "clocksource_delta cfg K now last_cycle msk =
     and_then (sub_checked cfg now last_cycle) (\<lambda>d.
       let r = d AND msk in
       if CLOCKSOURCE_VALIDATE_LAST_CYCLE K \<noteq> 0
       then (if r AND NOT (drop_bit 1 msk) \<noteq> 0 then Ret 0 else Ret r)
       else and_then (sub_checked cfg now last_cycle) (\<lambda>d. Ret (d AND msk)))"

record tk_read_base =
  tkr_clock :: u64
  tkr_mask :: u64
  tkr_cycle_last :: u64
  tkr_mult :: u32
  tkr_shift :: u32
  tkr_xtime_nsec :: u64
  tkr_base :: i64

definition timekeeping_delta_to_ns :: "build_cfg \<Rightarrow> tk_read_base \<Rightarrow> u64 \<Rightarrow> u64 res" where
  "timekeeping_delta_to_ns cfg tkr delta =
     and_then (mul_checked cfg delta (ucast (tkr_mult tkr))) (\<lambda>p.
     and_then (add_checked cfg p (tkr_xtime_nsec tkr)) (\<lambda>nsec.
       shr_checked cfg nsec (unat (tkr_shift tkr))))"

section \<open>The fast timekeeper\<close>

record TimeKeeperFast =
  tkf_seq :: seqcount
  tkf_base0 :: tk_read_base
  tkf_base1 :: tk_read_base

text \<open>\<open>&tkf.base[(seq & 0x01) as usize]\<close>.\<close>

definition latch_base :: "TimeKeeperFast \<Rightarrow> u32 \<Rightarrow> tk_read_base" where
  "latch_base tkf s = (if s AND 1 = 0 then tkf_base0 tkf else tkf_base1 tkf)"

text \<open>The value of the timekeeper at each time, and of a clock source.\<close>

type_synonym fast_env = "nat \<Rightarrow> TimeKeeperFast"
type_synonym clock_env = "u64 \<Rightarrow> nat \<Rightarrow> u64"

text \<open>The fields the reader sees in a round that starts at \<open>t\<close>, in the order it reads them.\<close>

definition observe :: "fast_env \<Rightarrow> u32 \<Rightarrow> nat \<Rightarrow> tk_read_base" where
  "observe env s t =
     \<lparr>tkr_clock = tkr_clock (latch_base (env (t + 2)) s),
      tkr_mask = tkr_mask (latch_base (env (t + 5)) s),
      tkr_cycle_last = tkr_cycle_last (latch_base (env (t + 4)) s),
      tkr_mult = tkr_mult (latch_base (env (t + 6)) s),
      tkr_shift = tkr_shift (latch_base (env (t + 8)) s),
      tkr_xtime_nsec = tkr_xtime_nsec (latch_base (env (t + 7)) s),
      tkr_base = tkr_base (latch_base (env (t + 1)) s)\<rparr>"

definition tk_clock_read :: "clock_env \<Rightarrow> tk_read_base \<Rightarrow> nat \<Rightarrow> u64" where
  "tk_clock_read rd tkr t = rd (tkr_clock tkr) t"

text \<open>One round's value, from the fields seen and the cycles read.\<close>

definition fast_ns :: "build_cfg \<Rightarrow> 'k kernel \<Rightarrow> tk_read_base \<Rightarrow> u64 \<Rightarrow> u64 res" where
  "fast_ns cfg K tkr cycles =
     (let now = tkr_base tkr in
      and_then (clocksource_delta cfg K cycles (tkr_cycle_last tkr) (tkr_mask tkr)) (\<lambda>delta.
      and_then (timekeeping_delta_to_ns cfg tkr delta) (\<lambda>ns. add_checked cfg now ns)))"

text \<open>
  A round takes ten accesses; a returned time carries the time of the last one (a panic ends
  the round before the counter is read again, no later than its ninth access).
\<close>

partial_function (option) ktime_get_fast_ns ::
  "build_cfg \<Rightarrow> 'k kernel \<Rightarrow> fast_env \<Rightarrow> clock_env \<Rightarrow> nat \<Rightarrow> (u64 res \<times> nat) option" where
  "ktime_get_fast_ns cfg K env rd t =
     (let s = raw_read_seqcount_latch (tkf_seq (env t)); tkr = observe env s t in
      case fast_ns cfg K tkr (tk_clock_read rd tkr (t + 3)) of
        Panic p \<Rightarrow> Some (Panic p, t + 8)
      | Ret now \<Rightarrow>
          (case read_seqcount_latch_retry (tkf_seq (env (t + 9))) s of
             Panic p \<Rightarrow> Some (Panic p, t + 9)
           | Ret retry \<Rightarrow>
               if retry then ktime_get_fast_ns cfg K env rd (t + 10) else Some (Ret now, t + 9)))"

definition ktime_get_mono_fast_ns ::
  "build_cfg \<Rightarrow> 'k kernel \<Rightarrow> fast_env \<Rightarrow> clock_env \<Rightarrow> nat \<Rightarrow> (u64 res \<times> nat) option" where
  "ktime_get_mono_fast_ns cfg K tk_fast_mono rd t = ktime_get_fast_ns cfg K tk_fast_mono rd t"

text \<open>
  The core timekeeper, of which the crate reads the offset of the boot clock, after it got the
  monotonic time and without looking at the core's counter.
\<close>

record timekeeper =
  offs_boot :: i64

record TKCore =
  tkc_seq :: seqcount
  tkc_timekeeper :: timekeeper

definition ktime_get_boot_fast_ns ::
  "build_cfg \<Rightarrow> 'k kernel \<Rightarrow> fast_env \<Rightarrow> clock_env \<Rightarrow> (nat \<Rightarrow> TKCore) \<Rightarrow> nat \<Rightarrow> (u64 res \<times> nat) option" where
  "ktime_get_boot_fast_ns cfg K tk_fast_mono rd tk_core t =
     (case ktime_get_mono_fast_ns cfg K tk_fast_mono rd t of
        None \<Rightarrow> None
      | Some (r, t') \<Rightarrow>
          Some (and_then r (\<lambda>mono. sadd_checked cfg mono (offs_boot (tkc_timekeeper (tk_core (t' + 1))))), t' + 1))"

text \<open>\<open>coarse\<close> is the kernel's \<open>ktime_get_coarse_ts64\<close>, which fills the struct it is given.\<close>

definition ktime_get_coarse :: "build_cfg \<Rightarrow> (timespec64 \<Rightarrow> timespec64) \<Rightarrow> i64 res" where
  "ktime_get_coarse cfg coarse =
     (let ts = coarse \<lparr>tv_sec = 0, tv_nsec = 0\<rparr> in timespec64_to_ktime cfg ts)"

section \<open>The writer's promise\<close>

abbreviation latch_seq :: "fast_env \<Rightarrow> nat \<Rightarrow> u32" where
  "latch_seq env t \<equiv> seq_value (tkf_seq (env t))"

text \<open>
  A latch writer bumps the counter before it touches the copy that readers of the old value
  use: from one access to the next it makes any number of bumps below \<open>2 ^ 28\<close>, and when it
  makes none, the copy the counter selects stays. The bound keeps the 32-bit counter from
  coming round to the same value during the nine accesses of a round.
\<close>

definition latch_env :: "fast_env \<Rightarrow> bool" where
  "latch_env env \<longleftrightarrow> (\<forall>t. \<exists>n<2 ^ 28.
     latch_seq env (Suc t) = latch_seq env t + of_nat n \<and>
     (n = 0 \<longrightarrow>
      latch_base (env (Suc t)) (latch_seq env t) =
        latch_base (env t) (latch_seq env t)))"

lemma latch_seq_steps:
  assumes "latch_env env"
  shows "\<exists>k\<le>n * 2 ^ 28. latch_seq env (t + n) = latch_seq env t + of_nat k \<and>
    (k = 0 \<longrightarrow> (\<forall>i\<le>n. latch_seq env (t + i) = latch_seq env t \<and>
       latch_base (env (t + i)) (latch_seq env t) =
         latch_base (env t) (latch_seq env t)))"
proof (induction n)
  case 0
  show ?case by simp
next
  case (Suc n)
  then obtain k where k: "k \<le> n * 2 ^ 28"
    "latch_seq env (t + n) = latch_seq env t + of_nat k"
    "k = 0 \<longrightarrow> (\<forall>i\<le>n. latch_seq env (t + i) = latch_seq env t \<and>
       latch_base (env (t + i)) (latch_seq env t) =
         latch_base (env t) (latch_seq env t))" by blast
  obtain b where b: "b < 2 ^ 28" "latch_seq env (Suc (t + n)) = latch_seq env (t + n) + of_nat b"
    "b = 0 \<longrightarrow> latch_base (env (Suc (t + n))) (latch_seq env (t + n)) =
        latch_base (env (t + n)) (latch_seq env (t + n))"
    using assms unfolding latch_env_def by blast
  have "k + b \<le> Suc n * 2 ^ 28" using k(1) b(1) by simp
  moreover have "latch_seq env (t + Suc n) = latch_seq env t + of_nat (k + b)"
    using k(2) b(2) by (simp add: algebra_simps)
  moreover have "k + b = 0 \<longrightarrow> (\<forall>i\<le>Suc n. latch_seq env (t + i) = latch_seq env t \<and>
       latch_base (env (t + i)) (latch_seq env t) = latch_base (env t) (latch_seq env t))"
    using k(2,3) b(2,3) by (auto simp: le_Suc_eq)
  ultimately show ?case by blast
qed

text \<open>A round that sees the same counter at both ends saw one copy, unchanged.\<close>

lemma round_sees_snapshot:
  assumes "latch_env env" and "latch_seq env (t + 9) = latch_seq env t"
  shows "observe env (latch_seq env t) t =
    latch_base (env t) (latch_seq env t)"
proof -
  obtain k where k: "k \<le> 9 * 2 ^ 28" "latch_seq env (t + 9) = latch_seq env t + of_nat k"
    "k = 0 \<longrightarrow> (\<forall>i\<le>9. latch_seq env (t + i) = latch_seq env t \<and>
       latch_base (env (t + i)) (latch_seq env t) =
         latch_base (env t) (latch_seq env t))"
    using latch_seq_steps [OF assms(1), of 9 t] by blast
  from k(2) assms(2) have "(of_nat k :: u32) = 0" by simp
  then have "unat (of_nat k :: u32) = 0" by simp
  with k(1) have "k = 0" by (simp add: unat_of_nat)
  with k(3) have same: "latch_base (env (t + i)) (latch_seq env t) =
      latch_base (env t) (latch_seq env t)" if "i \<le> 9" for i
    using that by blast
  from same [of 1] same [of 2] same [of 4] same [of 5] same [of 6] same [of 7] same [of 8]
  show ?thesis by (simp add: observe_def)
qed

section \<open>The reader\<close>

lemma ktime_get_fast_ns_unfold:
  "ktime_get_fast_ns cfg K env rd t =
     (let tkr = observe env (latch_seq env t) t in
      case fast_ns cfg K tkr (tk_clock_read rd tkr (t + 3)) of
        Panic p \<Rightarrow> Some (Panic p, t + 8)
      | Ret now \<Rightarrow>
          if latch_seq env (t + 9) \<noteq> latch_seq env t then ktime_get_fast_ns cfg K env rd (t + 10)
          else Some (Ret now, t + 9))"
  by (subst ktime_get_fast_ns.simps)
     (simp add: raw_read_seqcount_latch_def latch_retry_eq Let_def split: res.split)

text \<open>The times at which the reader starts a round.\<close>

inductive rounds :: "build_cfg \<Rightarrow> 'k kernel \<Rightarrow> fast_env \<Rightarrow> clock_env \<Rightarrow> nat \<Rightarrow> nat \<Rightarrow> bool"
  for cfg :: build_cfg and K :: "'k kernel" and env :: fast_env and rd :: clock_env and t :: nat where
  first: "rounds cfg K env rd t t"
| retry: "rounds cfg K env rd t s \<Longrightarrow>
    fast_ns cfg K (observe env (latch_seq env s) s)
      (tk_clock_read rd (observe env (latch_seq env s) s) (s + 3)) = Ret now \<Longrightarrow>
    latch_seq env (s + 9) \<noteq> latch_seq env s \<Longrightarrow> rounds cfg K env rd t (s + 10)"

lemma rounds_same_result:
  "rounds cfg K env rd t s \<Longrightarrow> ktime_get_fast_ns cfg K env rd t = ktime_get_fast_ns cfg K env rd s"
proof (induction rule: rounds.induct)
  case first
  show ?case ..
next
  case (retry s now)
  have "ktime_get_fast_ns cfg K env rd s = ktime_get_fast_ns cfg K env rd (s + 10)"
    by (subst ktime_get_fast_ns_unfold) (simp only: Let_def retry.hyps(2,3) res.case if_True not_False_eq_True)
  with retry.IH show ?case by simp
qed

lemma rounds_ge: "rounds cfg K env rd t s \<Longrightarrow> \<exists>n. s = t + 10 * n"
proof (induction rule: rounds.induct)
  case (retry s now)
  then obtain n where "s = t + 10 * n" by blast
  then show ?case by (intro exI [of _ "Suc n"]) simp
qed simp

text \<open>A result comes from the last round.\<close>

abbreviation round_ns :: "build_cfg \<Rightarrow> 'k kernel \<Rightarrow> fast_env \<Rightarrow> clock_env \<Rightarrow> nat \<Rightarrow> u64 res" where
  "round_ns cfg K env rd s \<equiv>
     fast_ns cfg K (observe env (latch_seq env s) s) (tk_clock_read rd (observe env (latch_seq env s) s) (s + 3))"

definition last_round :: "build_cfg \<Rightarrow> 'k kernel \<Rightarrow> fast_env \<Rightarrow> clock_env \<Rightarrow> nat \<Rightarrow> u64 res \<times> nat \<Rightarrow> bool" where
  "last_round cfg K env rd t = (\<lambda>(r, t'). \<exists>s. rounds cfg K env rd t s \<and> r = round_ns cfg K env rd s \<and>
     (\<forall>now. r = Ret now \<longrightarrow> t' = s + 9 \<and> latch_seq env (s + 9) = latch_seq env s))"

lemma rounds_front:
  assumes "round_ns cfg K env rd t = Ret now" and "latch_seq env (t + 9) \<noteq> latch_seq env t"
    and "rounds cfg K env rd (t + 10) s"
  shows "rounds cfg K env rd t s"
  using assms(3)
proof (induction rule: rounds.induct)
  case first
  show ?case by (rule rounds.retry [OF rounds.first assms(1,2)])
qed (rule rounds.retry)

lemma fast_ns_last:
  assumes "ktime_get_fast_ns cfg K env rd t = Some y"
  shows "last_round cfg K env rd t y"
proof (rule ktime_get_fast_ns.raw_induct [OF _ assms, where P = last_round])
  fix rec cfg K env rd t y
  assume IH: "\<And>cfg K env rd t y. rec cfg K env rd t = Some y \<Longrightarrow> last_round cfg K env rd t y"
    and body: "(let s = raw_read_seqcount_latch (tkf_seq (env t)); tkr = observe env s t in
      case fast_ns cfg K tkr (tk_clock_read rd tkr (t + 3)) of
        Ret now \<Rightarrow>
          (case read_seqcount_latch_retry (tkf_seq (env (t + 9))) s of
             Ret retry \<Rightarrow> if retry then rec cfg K env rd (t + 10) else Some (Ret now, t + 9)
           | Panic p \<Rightarrow> Some (Panic p, t + 9))
      | Panic p \<Rightarrow> Some (Panic p, t + 8)) = Some y"
  show "last_round cfg K env rd t y"
  proof (cases "\<exists>now. round_ns cfg K env rd t = Ret now \<and> latch_seq env (t + 9) \<noteq> latch_seq env t")
    case True
    then obtain now where f: "round_ns cfg K env rd t = Ret now" "latch_seq env (t + 9) \<noteq> latch_seq env t" by blast
    with body have "rec cfg K env rd (t + 10) = Some y"
      by (simp add: raw_read_seqcount_latch_def latch_retry_eq Let_def)
    from IH [OF this] rounds_front [OF f] show ?thesis unfolding last_round_def by auto
  next
    case False
    with body show ?thesis unfolding last_round_def
      by (auto simp: raw_read_seqcount_latch_def latch_retry_eq Let_def split: res.splits
          intro!: exI [of _ t] rounds.first)
  qed
qed

lemma fast_ns_last_round:
  assumes "ktime_get_fast_ns cfg K env rd t = Some (r, t')"
  shows "\<exists>s. rounds cfg K env rd t s \<and> r = round_ns cfg K env rd s \<and>
    (\<forall>now. r = Ret now \<longrightarrow> t' = s + 9 \<and> latch_seq env (s + 9) = latch_seq env s)"
  using fast_ns_last [OF assms] by (simp add: last_round_def)

text \<open>Without overflow checks a round cannot panic.\<close>

lemma fast_ns_release:
  assumes "\<not> overflow_checks cfg"
  shows "\<exists>now. fast_ns cfg K tkr cycles = Ret now"
proof -
  have "\<exists>v. shr_checked cfg x n = Ret v" for x :: u64 and n
    using assms by (simp add: shr_checked_def)
  with assms show ?thesis
    by (simp add: fast_ns_def clocksource_delta_def timekeeping_delta_to_ns_def checked_release Let_def
        and_then_Ret_iff)
qed

text \<open>A round that finds the counter unchanged bounds the time of the result.\<close>

lemma fast_ns_returns_within:
  assumes "\<not> overflow_checks cfg" and "latch_seq env (t + 10 * n + 9) = latch_seq env (t + 10 * n)"
  shows "\<exists>now t'. ktime_get_fast_ns cfg K env rd t = Some (Ret now, t') \<and> t' \<le> t + 10 * n + 9"
proof -
  let ?eq = "\<lambda>m. latch_seq env (t + 10 * m + 9) = latch_seq env (t + 10 * m)"
  define m where "m = (LEAST m. ?eq m)"
  have m: "?eq m" unfolding m_def using assms(2) by (rule LeastI)
  have le: "m \<le> n" unfolding m_def using assms(2) by (rule Least_le)
  have before: "\<not> ?eq k" if "k < m" for k using that unfolding m_def by (rule not_less_Least)
  have "k \<le> m \<Longrightarrow> rounds cfg K env rd t (t + 10 * k)" for k
  proof (induction k)
    case (Suc k)
    then have "rounds cfg K env rd t (t + 10 * k)" and "latch_seq env (t + 10 * k + 9) \<noteq> latch_seq env (t + 10 * k)"
      using before [of k] by auto
    moreover obtain now where "fast_ns cfg K (observe env (latch_seq env (t + 10 * k)) (t + 10 * k))
        (tk_clock_read rd (observe env (latch_seq env (t + 10 * k)) (t + 10 * k)) (t + 10 * k + 3)) = Ret now"
      using fast_ns_release [OF assms(1)] by blast
    ultimately have "rounds cfg K env rd t (t + 10 * k + 10)" using rounds.retry by blast
    then show ?case by (simp add: algebra_simps)
  qed (simp add: rounds.first)
  then have "ktime_get_fast_ns cfg K env rd t = ktime_get_fast_ns cfg K env rd (t + 10 * m)"
    by (intro rounds_same_result) simp
  moreover obtain now where "fast_ns cfg K (observe env (latch_seq env (t + 10 * m)) (t + 10 * m))
      (tk_clock_read rd (observe env (latch_seq env (t + 10 * m)) (t + 10 * m)) (t + 10 * m + 3)) = Ret now"
    using fast_ns_release [OF assms(1)] by blast
  ultimately have "ktime_get_fast_ns cfg K env rd t = Some (Ret now, t + 10 * m + 9)"
    using m by (simp add: ktime_get_fast_ns_unfold [of cfg K env rd "t + 10 * m"] Let_def)
  with le show ?thesis by auto
qed

definition demo_fast :: TimeKeeperFast where
  "demo_fast =
     (let b = \<lparr>tkr_clock = 8, tkr_mask = - 1, tkr_cycle_last = 1, tkr_mult = 2, tkr_shift = 0,
               tkr_xtime_nsec = 3, tkr_base = 100\<rparr>
      in \<lparr>tkf_seq = \<lparr>seq_value = 0\<rparr>, tkf_base0 = b, tkf_base1 = b\<rparr>)"

lemma and_not_mask_iff: "(r :: u64) AND NOT (Bit_Operations.mask k) \<noteq> 0 \<longleftrightarrow> 2 ^ k \<le> uint r"
proof -
  have "r AND NOT (Bit_Operations.mask k) = 0 \<longleftrightarrow> take_bit k r = r"
    by (auto simp: bit_eq_iff bit_and_iff bit_not_iff bit_mask_iff bit_take_bit_iff)
  also have "\<dots> \<longleftrightarrow> take_bit k (uint r) = uint r"
    by (simp add: word_uint_eq_iff unsigned_take_bit_eq)
  also have "\<dots> \<longleftrightarrow> uint r < 2 ^ k"
    by (simp add: take_bit_int_eq_self_iff)
  finally show ?thesis by auto
qed

lemma ktime_consts:
  "sint NSEC_PER_SEC = 1000000000" "sint KTIME_MAX = 2 ^ 63 - 1" "sint KTIME_SEC_MAX = 9223372036"
  by (simp_all add: NSEC_PER_SEC_def KTIME_SEC_MAX_def KTIME_MAX_def push_bit_eq_mult)

lemma sint_small_i64:
  "- (2 ^ 63) \<le> x \<Longrightarrow> x < 2 ^ 63 \<Longrightarrow> sint (word_of_int x :: i64) = x"
  by (simp add: signed_of_int signed_take_bit_int_eq_self)

lemma sint_word_add:
  assumes "- (2 ^ 63) \<le> sint a + sint b" and "sint a + sint b < 2 ^ 63"
  shows "sint (a + b :: i64) = sint a + sint b"
proof -
  have "a + b = word_of_int (sint a + sint b)" by simp
  with sint_small_i64 [OF assms] show ?thesis by metis
qed

lemma sint_word_mult:
  assumes "- (2 ^ 63) \<le> sint a * sint b" and "sint a * sint b < 2 ^ 63"
  shows "sint (a * b :: i64) = sint a * sint b"
proof -
  have "a * b = word_of_int (sint a * sint b)" by simp
  with sint_small_i64 [OF assms] show ?thesis by metis
qed

lemma sint_uint_small:
  assumes "uint (x :: u64) < 2 ^ 63"
  shows "sint x = uint x"
proof -
  have "x = word_of_int (uint x)" by simp
  with sint_small_i64 [of "uint x"] assms show ?thesis by (metis uint_ge_0 order_trans neg_le_0_iff_le zero_le_numeral zero_le_power)
qed

section \<open>Properties\<close>

text \<open>
  Although the timekeeper changes under it, the reader of the fast timekeeper never mixes
  two of its states: under the latch writer's promise, a returned time is the time computed
  from one copy of the timekeeper as it was when the last round began, and one reading of
  that copy's clock.
\<close>
theorem ktime_get_fast_ns_snapshot:
  assumes "latch_env env" and "ktime_get_fast_ns cfg K env rd t = Some (Ret now, t')"
  shows "\<exists>s\<ge>t. t' = s + 9 \<and>
    fast_ns cfg K (latch_base (env s) (latch_seq env s))
      (rd (tkr_clock (latch_base (env s) (latch_seq env s))) (s + 3)) = Ret now"
proof -
  obtain s where s: "rounds cfg K env rd t s" "t' = s + 9" "latch_seq env (s + 9) = latch_seq env s"
    and r: "Ret now = fast_ns cfg K (observe env (latch_seq env s) s)
      (tk_clock_read rd (observe env (latch_seq env s) s) (s + 3))"
    using fast_ns_last_round [OF assms(2)] by blast
  have "t \<le> s" using rounds_ge [OF s(1)] by auto
  with s(2) r round_sees_snapshot [OF assms(1) s(3)] show ?thesis
    by (auto simp: tk_clock_read_def)
qed

text \<open>
  C6: In a release build the reader of the fast timekeeper returns exactly when some round
  finds the counter unchanged; a writer that changes it in every round keeps the reader
  retrying for ever.
\<close>
theorem ktime_get_fast_ns_returns_iff:
  assumes "\<not> overflow_checks cfg"
  shows "(\<exists>y. ktime_get_fast_ns cfg K env rd t = Some y) \<longleftrightarrow>
    (\<exists>n. latch_seq env (t + 10 * n + 9) = latch_seq env (t + 10 * n))"
proof
  assume "\<exists>y. ktime_get_fast_ns cfg K env rd t = Some y"
  then obtain r t' where "ktime_get_fast_ns cfg K env rd t = Some (r, t')" by auto
  from fast_ns_last_round [OF this] obtain s where "rounds cfg K env rd t s"
    "latch_seq env (s + 9) = latch_seq env s"
    using fast_ns_release [OF assms] by metis
  with rounds_ge show "\<exists>n. latch_seq env (t + 10 * n + 9) = latch_seq env (t + 10 * n)" by blast
next
  assume "\<exists>n. latch_seq env (t + 10 * n + 9) = latch_seq env (t + 10 * n)"
  then show "\<exists>y. ktime_get_fast_ns cfg K env rd t = Some y"
    using fast_ns_returns_within [OF assms] by blast
qed

theorem ktime_get_fast_ns_returns_iff_witness:
  "(\<exists>y. ktime_get_fast_ns release_x86 (demo_kernel :: unit kernel)
       (\<lambda>t. demo_fast\<lparr>tkf_seq := \<lparr>seq_value = if t < 15 then of_nat t else 15\<rparr>\<rparr>) (\<lambda>_ _. 5) 0 = Some y) \<and>
   ktime_get_fast_ns release_x86 (demo_kernel :: unit kernel)
       (\<lambda>t. demo_fast\<lparr>tkf_seq := \<lparr>seq_value = of_nat (t mod 10)\<rparr>\<rparr>) (\<lambda>_ _. 5) 0 = None"
proof
  have r: "\<not> overflow_checks release_x86" by simp
  show "\<exists>y. ktime_get_fast_ns release_x86 (demo_kernel :: unit kernel)
       (\<lambda>t. demo_fast\<lparr>tkf_seq := \<lparr>seq_value = if t < 15 then of_nat t else 15\<rparr>\<rparr>) (\<lambda>_ _. 5) 0 = Some y"
    by (subst ktime_get_fast_ns_returns_iff [OF r]) (auto intro: exI [of _ 2])
  have "\<nexists>y. ktime_get_fast_ns release_x86 (demo_kernel :: unit kernel)
       (\<lambda>t. demo_fast\<lparr>tkf_seq := \<lparr>seq_value = of_nat (t mod 10)\<rparr>\<rparr>) (\<lambda>_ _. 5) 0 = Some y"
    by (subst ktime_get_fast_ns_returns_iff [OF r]) simp
  then show "ktime_get_fast_ns release_x86 (demo_kernel :: unit kernel)
       (\<lambda>t. demo_fast\<lparr>tkf_seq := \<lparr>seq_value = of_nat (t mod 10)\<rparr>\<rparr>) (\<lambda>_ _. 5) 0 = None"
    by (metis not_None_eq)
qed

theorem ktime_get_fast_ns_snapshot_witness:
  "\<exists>s. fast_ns release_x86 (demo_kernel :: unit kernel) (tkf_base0 demo_fast) (5 :: u64) = Ret s \<and>
     ktime_get_fast_ns release_x86 (demo_kernel :: unit kernel) (\<lambda>_. demo_fast) (\<lambda>_ _. 5) 0 = Some (Ret s, 9)"
proof -
  have env: "latch_env (\<lambda>_. demo_fast)" by (auto simp: latch_env_def intro: exI [of _ 0])
  obtain s where s: "fast_ns release_x86 (demo_kernel :: unit kernel) (tkf_base0 demo_fast) 5 = Ret s"
    using fast_ns_release [of release_x86 "demo_kernel :: unit kernel" "tkf_base0 demo_fast" 5] by auto
  have obs: "observe (\<lambda>_. demo_fast) (latch_seq (\<lambda>_. demo_fast) 0) 0 = tkf_base0 demo_fast"
    by (simp add: observe_def latch_base_def demo_fast_def Let_def)
  have run: "ktime_get_fast_ns release_x86 (demo_kernel :: unit kernel) (\<lambda>_. demo_fast) (\<lambda>_ _. 5) 0 = Some (Ret s, 9)"
    by (subst ktime_get_fast_ns_unfold, simp only: Let_def obs tk_clock_read_def s res.case) simp
  from ktime_get_fast_ns_snapshot [OF env run] show ?thesis
    using run by (auto simp: latch_base_def demo_fast_def Let_def)
qed

text \<open>
  For a counter of \<open>n\<close> bits the clock difference is, in a release build, the number of
  cycles from the last reading modulo \<open>2 ^ n\<close>; with validation on, a difference of half the
  range or more, which means that the clock went backwards, counts as no time passed.
\<close>
theorem clocksource_delta_spec:
  assumes "\<not> overflow_checks cfg" and "0 < n" and "n \<le> 64"
  shows "clocksource_delta cfg K now last_cycle (Bit_Operations.mask n) = Ret (word_of_int (
    let d = (uint now - uint last_cycle) mod 2 ^ n in
    if CLOCKSOURCE_VALIDATE_LAST_CYCLE K \<noteq> 0 \<and> 2 ^ (n - 1) \<le> d then 0 else d))"
proof -
  let ?r = "(now - last_cycle) AND Bit_Operations.mask n"
  have r: "uint ?r = (uint now - uint last_cycle) mod 2 ^ n"
  proof -
    have "uint ?r = take_bit n (uint (now - last_cycle))"
      by (simp only: unsigned_take_bit_eq flip: take_bit_eq_mask)
    also have "uint (now - last_cycle) = take_bit 64 (uint now - uint last_cycle)"
      by (simp add: uint_word_ariths take_bit_eq_mod)
    also have "take_bit n (take_bit 64 (uint now - uint last_cycle)) =
        take_bit (min n 64) (uint now - uint last_cycle)"
      by (rule take_bit_take_bit)
    also have "\<dots> = take_bit n (uint now - uint last_cycle)"
      using assms(3) by (simp add: min_def)
    finally show ?thesis by (simp add: take_bit_eq_mod)
  qed
  have test: "?r AND NOT (drop_bit 1 (Bit_Operations.mask n)) \<noteq> 0 \<longleftrightarrow> 2 ^ (n - 1) \<le> uint ?r"
  proof -
    have "drop_bit 1 (Bit_Operations.mask n :: u64) = Bit_Operations.mask (n - 1)"
      using assms by (intro bit_word_eqI) (auto simp: bit_drop_bit_eq bit_mask_iff)
    then show ?thesis by (simp only: and_not_mask_iff)
  qed
  have ret: "Ret ?r = Ret (word_of_int (uint ?r))" by simp
  show ?thesis
    using test assms(1) unfolding clocksource_delta_def
    by (simp add: checked_release Let_def flip: r)
qed

theorem clocksource_delta_spec_witness:
  "clocksource_delta release_x86 demo_kernel 3 5 (Bit_Operations.mask 8) = Ret 0 \<and>
   clocksource_delta release_x86 demo_kernel 3 250 (Bit_Operations.mask 8) = Ret 9"
  using clocksource_delta_spec [of release_x86 8 demo_kernel 3 5]
    clocksource_delta_spec [of release_x86 8 demo_kernel 3 250] by simp

text \<open>The time \<open>d\<close> ticks after the last update, in a release build.\<close>

definition linear_ns :: "tk_read_base \<Rightarrow> nat \<Rightarrow> nat" where
  "linear_ns tkr d =
     unat (tkr_base tkr) + (d * unat (tkr_mult tkr) + unat (tkr_xtime_nsec tkr)) div 2 ^ unat (tkr_shift tkr)"

lemma drop_bit_of_nat_u64: "m < 2 ^ 64 \<Longrightarrow> drop_bit k (of_nat m :: u64) = of_nat (m div 2 ^ k)"
proof -
  assume m: "m < 2 ^ 64"
  then have "m div 2 ^ k < 2 ^ 64" by (rule order_le_less_trans [OF div_le_dividend])
  with m have "unat (drop_bit k (of_nat m :: u64)) = unat (of_nat (m div 2 ^ k) :: u64)"
    by (simp add: unsigned_drop_bit_eq unsigned_of_nat take_bit_nat_eq_self drop_bit_eq_div flip: drop_bit_eq_div)
  then show ?thesis by (simp only: word_unat_eq_iff)
qed

lemma fast_ns_linear:
  assumes "\<not> overflow_checks cfg" and "tkr_mask tkr = Bit_Operations.mask n" and "0 < n" and "n \<le> 64"
    and shift: "unat (tkr_shift tkr) < 64" and d: "d < 2 ^ (n - 1)"
    and prod: "d * unat (tkr_mult tkr) + unat (tkr_xtime_nsec tkr) < 2 ^ 64" and sum: "linear_ns tkr d < 2 ^ 64"
  shows "fast_ns cfg K tkr (tkr_cycle_last tkr + of_nat d) = Ret (of_nat (linear_ns tkr d))"
proof -
  let ?c = "tkr_cycle_last tkr" and ?p = "d * unat (tkr_mult tkr) + unat (tkr_xtime_nsec tkr)"
  have pow: "(2::nat) ^ (n - 1) \<le> 2 ^ 63" "(2::nat) ^ (n - 1) < 2 ^ n"
    by (rule power_increasing) (use assms(3,4) in auto)
  with d have small: "d < 2 ^ 64" "int d < 2 ^ n"
    by (simp, metis of_nat_less_iff of_nat_numeral of_nat_power order_less_trans)
  have "(uint (?c + of_nat d) - uint ?c) mod 2 ^ n = int d mod 2 ^ n"
  proof -
    have "(uint (?c + of_nat d) - uint ?c) mod 2 ^ 64 = int d mod 2 ^ 64"
      using small by (simp add: uint_word_ariths unsigned_of_nat take_bit_nat_eq_self mod_simps)
    then have "(uint (?c + of_nat d) - uint ?c) mod 2 ^ 64 mod 2 ^ n = int d mod 2 ^ 64 mod 2 ^ n" by simp
    moreover have "(2::int) ^ n dvd 2 ^ 64" using assms(4) by (rule le_imp_power_dvd)
    ultimately show ?thesis by (simp only: mod_mod_cancel)
  qed
  with small have delta: "(uint (?c + of_nat d) - uint ?c) mod 2 ^ n = int d" by simp
  have "\<not> (2::int) ^ (n - 1) \<le> int d" using d by (metis not_le of_nat_less_iff of_nat_numeral of_nat_power)
  with delta clocksource_delta_spec [OF assms(1,3,4), of K "?c + of_nat d" ?c]
  have "clocksource_delta cfg K (?c + of_nat d) ?c (tkr_mask tkr) = Ret (of_nat d)"
    by (simp add: assms(2) Let_def)
  moreover have "of_nat d * ucast (tkr_mult tkr) + tkr_xtime_nsec tkr = (of_nat ?p :: u64)" by simp
  moreover have "drop_bit (unat (tkr_shift tkr)) (of_nat ?p :: u64) = of_nat (?p div 2 ^ unat (tkr_shift tkr))"
    using prod by (rule drop_bit_of_nat_u64)
  moreover have "tkr_base tkr + of_nat (?p div 2 ^ unat (tkr_shift tkr)) = of_nat (linear_ns tkr d)"
    by (simp add: linear_ns_def del: of_nat_mult of_nat_add) (simp only: of_nat_add of_nat_unat ucast_id)
  ultimately show ?thesis
    using assms(1) shift
    by (simp add: fast_ns_def Let_def timekeeping_delta_to_ns_def checked_release [OF assms(1)] shr_checked_ok
        del: of_nat_add of_nat_mult)
qed

text \<open>
  Between two updates the reader's time is exact and never goes back: in a release build,
  \<open>d\<close> ticks of the clock after the last update, fewer than half of what its mask can count and
  with the counter free to wrap, it is the base plus the ticks' nanoseconds, and after fewer
  ticks it is no later.
\<close>
theorem fast_ns_monotone:
  assumes "\<not> overflow_checks cfg" and "tkr_mask tkr = Bit_Operations.mask n" and "0 < n" and "n \<le> 64"
    and "unat (tkr_shift tkr) < 64" and "d < 2 ^ (n - 1)" and "e \<le> d"
    and "d * unat (tkr_mult tkr) + unat (tkr_xtime_nsec tkr) < 2 ^ 64" and "linear_ns tkr d < 2 ^ 64"
  shows "\<exists>s t. fast_ns cfg K tkr (tkr_cycle_last tkr + of_nat e) = Ret s \<and>
    fast_ns cfg K tkr (tkr_cycle_last tkr + of_nat d) = Ret t \<and>
    unat s = linear_ns tkr e \<and> unat t = linear_ns tkr d \<and> s \<le> t"
proof -
  have "e * unat (tkr_mult tkr) + unat (tkr_xtime_nsec tkr) \<le> d * unat (tkr_mult tkr) + unat (tkr_xtime_nsec tkr)"
    using assms(7) by simp
  moreover from this have le: "linear_ns tkr e \<le> linear_ns tkr d" by (simp add: linear_ns_def div_le_mono)
  ultimately have "fast_ns cfg K tkr (tkr_cycle_last tkr + of_nat e) = Ret (of_nat (linear_ns tkr e))"
    using assms by (intro fast_ns_linear [OF assms(1-5)]) linarith+
  moreover have "fast_ns cfg K tkr (tkr_cycle_last tkr + of_nat d) = Ret (of_nat (linear_ns tkr d))"
    by (rule fast_ns_linear [OF assms(1-6,8,9)])
  ultimately show ?thesis
    using le assms(9) by (simp add: word_le_nat_alt unsigned_of_nat take_bit_nat_eq_self)
qed

text \<open>The counter wraps between the update and the reading.\<close>
theorem fast_ns_monotone_witness:
  "fast_ns release_x86 (demo_kernel :: unit kernel) \<lparr>tkr_clock = 0, tkr_mask = Bit_Operations.mask 64, tkr_cycle_last = - 1, tkr_mult = 2,
     tkr_shift = 1, tkr_xtime_nsec = 4, tkr_base = 100\<rparr> 2 = Ret 105"
  using fast_ns_monotone [of release_x86 "\<lparr>tkr_clock = 0, tkr_mask = Bit_Operations.mask 64, tkr_cycle_last = - 1, tkr_mult = 2,
     tkr_shift = 1, tkr_xtime_nsec = 4, tkr_base = 100\<rparr>" 64 3 0 "demo_kernel :: unit kernel"]
  by (auto simp: linear_ns_def word_unat_eq_iff)

text \<open>
  \<open>ktime_set\<close> on a time of day, non-negative seconds and less than a second of
  nanoseconds, never panics and never overflows: it is the exact number of nanoseconds while
  the seconds are below the limit, and the largest time from there on.
\<close>
theorem ktime_set_saturates:
  assumes "0 \<le> sint secs" and "uint nsecs < 1000000000"
  shows "\<exists>t. ktime_set cfg secs nsecs = Ret t \<and>
    sint t = (if sint secs < 9223372036 then sint secs * 1000000000 + uint nsecs else 2 ^ 63 - 1)"
proof (cases "sint secs < 9223372036")
  case True
  let ?p = "sint secs * 1000000000"
  have le: "\<not> KTIME_SEC_MAX \<le>s secs" using True by (simp add: ktime_consts word_sle_eq)
  have p: "0 \<le> ?p" "?p < 2 ^ 63" "?p + uint nsecs < 2 ^ 63" using assms True by auto
  have lo: "- (2 ^ 63) \<le> ?p + uint nsecs"
    by (rule order_trans [OF _ add_nonneg_nonneg [OF p(1) uint_ge_0]]) simp
  have n: "sint nsecs = uint nsecs" using assms(2) by (intro sint_uint_small) simp
  have m: "sint (secs * NSEC_PER_SEC) = ?p"
    using p assms by (subst sint_word_mult) (simp_all add: ktime_consts)
  have "smul_checked cfg secs NSEC_PER_SEC = Ret (secs * NSEC_PER_SEC)"
    using p assms by (simp add: smul_checked_def ktime_consts)
  moreover have "sadd_checked cfg (secs * NSEC_PER_SEC) nsecs = Ret (secs * NSEC_PER_SEC + nsecs)"
    using p lo assms by (simp add: sadd_checked_def m n)
  moreover have "sint (secs * NSEC_PER_SEC + nsecs) = ?p + uint nsecs"
    using p lo assms m n by (subst sint_word_add) simp_all
  ultimately show ?thesis using le True by (simp add: ktime_set_def)
next
  case False
  then have "KTIME_SEC_MAX \<le>s secs" by (simp add: ktime_consts word_sle_eq)
  with False show ?thesis by (simp add: ktime_set_def ktime_consts)
qed

theorem ktime_set_saturates_witness:
  "\<exists>t. ktime_set dev_x86 (2 :: i64) 5 = Ret t \<and> sint t = 2000000005"
  using ktime_set_saturates [of 2 5 dev_x86] by simp

end
