(* ===== verification/Latch_Writer.thy ===== *)
theory Latch_Writer
  imports Timekeeping
begin

text \<open>
  The fast timekeeper of \<open>timekeeping.rs\<close> with its writer. The writer is kernel code that is
  not in the sources: its protocol is the documented one of a sequence counter latch
  (\<open>raw_write_seqcount_latch\<close> and \<open>update_fast_timekeeper\<close>), bump the counter, write copy 0,
  bump it again, write copy 1, where writing a copy passes through arbitrary partly written
  values. A trace of the protocol keeps the promise \<open>latch_env\<close> the reader's lemmas rest on,
  and what a reader can see is what the writer last published.
\<close>

section \<open>The writer's protocol\<close>

text \<open>
  Between updates both copies are the published timekeeper. During an update, \<open>Copy0 old new\<close>
  is after the first bump and \<open>Copy1 new\<close> after the second.
\<close>

datatype phase = Quiet tk_read_base | Copy0 tk_read_base tk_read_base | Copy1 tk_read_base

fun published :: "phase \<Rightarrow> tk_read_base" where
  "published (Quiet b) = b"
| "published (Copy0 old new) = old"
| "published (Copy1 new) = new"

definition bump :: "TimeKeeperFast \<Rightarrow> TimeKeeperFast" where
  "bump tkf = tkf\<lparr>tkf_seq := \<lparr>seq_value = seq_value (tkf_seq tkf) + 1\<rparr>\<rparr>"

inductive latch_write :: "TimeKeeperFast \<Rightarrow> phase \<Rightarrow> TimeKeeperFast \<Rightarrow> phase \<Rightarrow> bool" where
  rest: "latch_write tkf ph tkf ph"
| first_bump: "latch_write tkf (Quiet b) (bump tkf) (Copy0 b new)"
| write0: "latch_write tkf (Copy0 old new) (tkf\<lparr>tkf_base0 := b\<rparr>) (Copy0 old new)"
| second_bump: "tkf_base0 tkf = new \<Longrightarrow> latch_write tkf (Copy0 old new) (bump tkf) (Copy1 new)"
| write1: "latch_write tkf (Copy1 new) (tkf\<lparr>tkf_base1 := b\<rparr>) (Copy1 new)"
| finish: "tkf_base1 tkf = new \<Longrightarrow> latch_write tkf (Copy1 new) tkf (Quiet new)"

text \<open>Several steps of it, counted.\<close>

inductive latch_writes :: "nat \<Rightarrow> TimeKeeperFast \<Rightarrow> phase \<Rightarrow> TimeKeeperFast \<Rightarrow> phase \<Rightarrow> bool" where
  none: "latch_writes 0 tkf ph tkf ph"
| more: "latch_writes n tkf ph tkf' ph' \<Longrightarrow> latch_write tkf' ph' tkf'' ph'' \<Longrightarrow>
    latch_writes (Suc n) tkf ph tkf'' ph''"

inductive_cases latch_writeE: "latch_write tkf ph tkf' ph'"

text \<open>The counter's parity tells which copy is whole, and that one is the published one.\<close>

fun latch_inv :: "TimeKeeperFast \<Rightarrow> phase \<Rightarrow> bool" where
  "latch_inv tkf (Quiet b) \<longleftrightarrow>
     seq_value (tkf_seq tkf) AND 1 = 0 \<and> tkf_base0 tkf = b \<and> tkf_base1 tkf = b"
| "latch_inv tkf (Copy0 old new) \<longleftrightarrow> seq_value (tkf_seq tkf) AND 1 \<noteq> 0 \<and> tkf_base1 tkf = old"
| "latch_inv tkf (Copy1 new) \<longleftrightarrow> seq_value (tkf_seq tkf) AND 1 = 0 \<and> tkf_base0 tkf = new"

text \<open>
  A run of the system: the reader's environment is a trace of the protocol in which the writer
  makes any number of steps below \<open>2 ^ 28\<close> between two accesses of the reader.
\<close>

definition writer_trace :: "fast_env \<Rightarrow> (nat \<Rightarrow> phase) \<Rightarrow> bool" where
  "writer_trace env ph \<longleftrightarrow>
     latch_inv (env 0) (ph 0) \<and> (\<forall>t. \<exists>n<2 ^ 28. latch_writes n (env t) (ph t) (env (Suc t)) (ph (Suc t)))"

section \<open>Lemmas\<close>

lemma parity_bump: "(s :: u32) + 1 AND 1 = 0 \<longleftrightarrow> s AND 1 \<noteq> 0"
  by (simp add: and_one_eq odd_iff_mod_2_eq_one flip: even_iff_mod_2_eq_zero)

lemma latch_inv_write: "latch_write tkf ph tkf' ph' \<Longrightarrow> latch_inv tkf ph \<Longrightarrow> latch_inv tkf' ph'"
  by (induction rule: latch_write.induct) (simp_all add: bump_def parity_bump)

lemma latch_inv_writes: "latch_writes n tkf ph tkf' ph' \<Longrightarrow> latch_inv tkf ph \<Longrightarrow> latch_inv tkf' ph'"
  by (induction rule: latch_writes.induct) (auto intro: latch_inv_write)

lemma latch_inv_trace: "writer_trace env ph \<Longrightarrow> latch_inv (env t) (ph t)"
  by (induction t) (auto simp: writer_trace_def intro: latch_inv_writes)

lemma latch_inv_base: "latch_inv tkf ph \<Longrightarrow> latch_base tkf (seq_value (tkf_seq tkf)) = published ph"
  by (cases ph) (auto simp: latch_base_def)

lemma trace_base: "writer_trace env ph \<Longrightarrow> latch_base (env t) (latch_seq env t) = published (ph t)"
  by (rule latch_inv_base [OF latch_inv_trace])

text \<open>One write moves the counter by at most one; without a bump the readers' copy stays.\<close>

lemma latch_write_promise:
  assumes "latch_write tkf ph tkf' ph'" and "latch_inv tkf ph"
  shows "(seq_value (tkf_seq tkf') = seq_value (tkf_seq tkf) \<or>
      seq_value (tkf_seq tkf') = seq_value (tkf_seq tkf) + 1) \<and>
    (seq_value (tkf_seq tkf') = seq_value (tkf_seq tkf) \<longrightarrow>
      latch_base tkf' (seq_value (tkf_seq tkf)) = latch_base tkf (seq_value (tkf_seq tkf)))"
  using assms by (induction rule: latch_write.induct) (simp_all add: bump_def latch_base_def)

text \<open>So \<open>n\<close> steps bump it at most \<open>n\<close> times, and without a bump the copy stays.\<close>

lemma latch_writes_promise:
  assumes "latch_writes n tkf ph tkf' ph'" and "latch_inv tkf ph"
  shows "\<exists>k\<le>n. seq_value (tkf_seq tkf') = seq_value (tkf_seq tkf) + of_nat k \<and>
    (k = 0 \<longrightarrow> latch_base tkf' (seq_value (tkf_seq tkf)) = latch_base tkf (seq_value (tkf_seq tkf)))"
  using assms
proof (induction rule: latch_writes.induct)
  case (more n tkf ph tkf' ph' tkf'' ph'')
  then obtain k where k: "k \<le> n" "seq_value (tkf_seq tkf') = seq_value (tkf_seq tkf) + of_nat k"
    "k = 0 \<longrightarrow> latch_base tkf' (seq_value (tkf_seq tkf)) = latch_base tkf (seq_value (tkf_seq tkf))" by blast
  from latch_write_promise [OF more.hyps(2) latch_inv_writes [OF more.hyps(1) more.prems]]
  have step: "seq_value (tkf_seq tkf'') = seq_value (tkf_seq tkf') \<or>
      seq_value (tkf_seq tkf'') = seq_value (tkf_seq tkf') + 1"
    "seq_value (tkf_seq tkf'') = seq_value (tkf_seq tkf') \<longrightarrow>
      latch_base tkf'' (seq_value (tkf_seq tkf')) = latch_base tkf' (seq_value (tkf_seq tkf'))" by blast+
  show ?case
  proof (cases "seq_value (tkf_seq tkf'') = seq_value (tkf_seq tkf')")
    case True
    with k step(2) show ?thesis by (intro exI [of _ k]) auto
  next
    case False
    with k step(1) show ?thesis by (intro exI [of _ "Suc k"]) (simp add: add.assoc add.commute)
  qed
qed simp

lemma writer_trace_latch_env: "writer_trace env ph \<Longrightarrow> latch_env env"
  unfolding latch_env_def
proof
  fix t assume tr: "writer_trace env ph"
  then obtain n where n: "n < 2 ^ 28" "latch_writes n (env t) (ph t) (env (Suc t)) (ph (Suc t))"
    unfolding writer_trace_def by blast
  from latch_writes_promise [OF n(2) latch_inv_trace [OF tr]] obtain k where
    "k \<le> n" "latch_seq env (Suc t) = latch_seq env t + of_nat k"
    "k = 0 \<longrightarrow> latch_base (env (Suc t)) (latch_seq env t) = latch_base (env t) (latch_seq env t)" by blast
  with n(1) show "\<exists>n<2 ^ 28. latch_seq env (Suc t) = latch_seq env t + of_nat n \<and>
      (n = 0 \<longrightarrow> latch_base (env (Suc t)) (latch_seq env t) = latch_base (env t) (latch_seq env t))"
    by (intro exI [of _ k]) simp
qed

text \<open>A writer at rest keeps the environment.\<close>

lemma round_alone:
  assumes "\<forall>i\<le>9. env (t + i) = env t"
  shows "observe env (latch_seq env t) t = latch_base (env t) (latch_seq env t)"
    and "latch_seq env (t + 9) = latch_seq env t"
  using assms [rule_format, of 1] assms [rule_format, of 2] assms [rule_format, of 4]
    assms [rule_format, of 5] assms [rule_format, of 6] assms [rule_format, of 7]
    assms [rule_format, of 8] assms [rule_format, of 9]
  by (simp_all add: observe_def)

text \<open>An update caught between its two bumps, for the witnesses: copy 0 is half written.\<close>

definition mid_update :: TimeKeeperFast where
  "mid_update = demo_fast\<lparr>tkf_seq := \<lparr>seq_value = 1\<rparr>, tkf_base0 := tkf_base0 demo_fast\<lparr>tkr_mult := 0\<rparr>\<rparr>"

lemma mid_update_trace:
  "writer_trace (\<lambda>_. mid_update) (\<lambda>_. Copy0 (tkf_base1 demo_fast) new)"
  by (auto simp: writer_trace_def mid_update_def intro: exI [of _ 0] latch_writes.none)

lemma demo_fast_ns:
  "fast_ns release_x86 (demo_kernel :: unit kernel) (tkf_base1 demo_fast) 5 = Ret 111"
proof -
  have "\<not> 2 ^ 63 \<le> uint (4 :: u64)" by simp
  then have m: "(4 :: u64) AND NOT (Bit_Operations.mask 63) = 0" using and_not_mask_iff [of 4 63] by blast
  have "drop_bit 1 (- 1 :: u64) = Bit_Operations.mask 63"
    by (rule bit_word_eqI) (auto simp: bit_drop_bit_eq bit_mask_iff)
  with m have "clocksource_delta release_x86 (demo_kernel :: unit kernel) 5 1 (- 1) = Ret 4"
    by (simp add: clocksource_delta_def checked_release)
  moreover have "timekeeping_delta_to_ns release_x86 (tkf_base1 demo_fast) 4 = Ret 11"
    by (simp add: timekeeping_delta_to_ns_def checked_release shr_checked_def demo_fast_def Let_def)
  ultimately show ?thesis
    by (simp add: fast_ns_def checked_release) (simp add: demo_fast_def Let_def)
qed

text \<open>What the reader returns, from the timekeeper that was published when its last round began.\<close>

lemma reader_last_round:
  assumes "writer_trace env ph" and "ktime_get_fast_ns cfg K env rd t = Some (Ret now, t')"
  shows "\<exists>s\<ge>t. t' = s + 9 \<and>
    fast_ns cfg K (published (ph s)) (rd (tkr_clock (published (ph s))) (s + 3)) = Ret now"
proof -
  obtain s where s: "rounds cfg K env rd t s" "t' = s + 9" "latch_seq env (s + 9) = latch_seq env s"
    and r: "Ret now = fast_ns cfg K (observe env (latch_seq env s) s)
      (tk_clock_read rd (observe env (latch_seq env s) s) (s + 3))"
    using fast_ns_last_round [OF assms(2)] by blast
  have "t \<le> s" using rounds_ge [OF s(1)] by auto
  with s(2) r round_sees_snapshot [OF writer_trace_latch_env [OF assms(1)] s(3)] trace_base [OF assms(1), of s]
  show ?thesis by (auto simp: tk_clock_read_def)
qed

text \<open>
  A clock that ticks: what the timekeeper's clock reads at a time is its reading at the last
  update and the ticks since, fewer than half of what the mask can count, and few enough
  until \<open>u\<close> for the nanoseconds to fit a word.
\<close>

definition ticking :: "tk_read_base \<Rightarrow> clock_env \<Rightarrow> (nat \<Rightarrow> nat) \<Rightarrow> nat \<Rightarrow> bool" where
  "ticking tkr rd ticks u \<longleftrightarrow>
     mono ticks \<and> (\<forall>s. rd (tkr_clock tkr) s = tkr_cycle_last tkr + of_nat (ticks s)) \<and>
     unat (tkr_shift tkr) < 64 \<and>
     (\<exists>n. 0 < n \<and> n \<le> 64 \<and> tkr_mask tkr = Bit_Operations.mask n \<and> ticks u < 2 ^ (n - 1)) \<and>
     ticks u * unat (tkr_mult tkr) + unat (tkr_xtime_nsec tkr) < 2 ^ 64 \<and> linear_ns tkr (ticks u) < 2 ^ 64"

lemma linear_ns_mono: "d \<le> e \<Longrightarrow> linear_ns tkr d \<le> linear_ns tkr e"
  by (simp add: linear_ns_def div_le_mono)

lemma ticking_earlier: "ticking tkr rd ticks u \<Longrightarrow> s \<le> u \<Longrightarrow> ticking tkr rd ticks s"
  unfolding ticking_def
  by (meson add_le_mono1 le_trans linear_ns_mono monoD mult_le_mono1 order_le_less_trans)

lemma ticking_ns:
  assumes "\<not> overflow_checks cfg" and "ticking tkr rd ticks s"
  shows "fast_ns cfg K tkr (rd (tkr_clock tkr) s) = Ret (of_nat (linear_ns tkr (ticks s)))"
    and "linear_ns tkr (ticks s) < 2 ^ 64"
  using assms fast_ns_linear [OF assms(1)] unfolding ticking_def by auto

text \<open>One reading is exact at the moment the clock was read, which is between call and return.\<close>

lemma reading_exact:
  assumes "writer_trace env ph" and "\<not> overflow_checks cfg" and "ktime_get_fast_ns cfg K env rd t = Some (Ret x, t')"
    and "\<forall>s. t \<le> s \<and> s \<le> t' \<longrightarrow> published (ph s) = tkr" and "ticking tkr rd ticks t'"
  shows "\<exists>s. t \<le> s \<and> s \<le> t' \<and> unat x = linear_ns tkr (ticks s)"
proof -
  from reader_last_round [OF assms(1,3)] obtain s where s: "t \<le> s" "t' = s + 9"
    and x: "fast_ns cfg K (published (ph s)) (rd (tkr_clock (published (ph s))) (s + 3)) = Ret x" by blast
  have pub: "published (ph s) = tkr" and tick: "ticking tkr rd ticks (s + 3)"
    using s assms(4,5) ticking_earlier [of tkr rd ticks t' "s + 3"] by auto
  from x ticking_ns(1) [where K = K, OF assms(2) tick] have "x = of_nat (linear_ns tkr (ticks (s + 3)))"
    unfolding pub by simp
  with ticking_ns(2) [OF assms(2) tick] have "unat x = linear_ns tkr (ticks (s + 3))"
    by (simp add: unsigned_of_nat take_bit_nat_eq_self)
  with s show ?thesis by (intro exI [of _ "s + 3"]) simp
qed

section \<open>Properties\<close>

text \<open>
  C4: The fast timekeeper is safe to read while it is updated, even from an interrupt that
  stopped the writer half-way through a copy: a writer at rest, in whatever phase of its
  protocol, lets the reader return in its first round, with the value computed from what the
  writer last published and one reading of its clock.
\<close>
theorem fast_reader_interrupts_writer:
  assumes "writer_trace env ph" and "\<forall>i\<le>9. env (t + i) = env t"
  shows "ktime_get_fast_ns cfg K env rd t =
    (case fast_ns cfg K (published (ph t)) (rd (tkr_clock (published (ph t))) (t + 3)) of
       Ret now \<Rightarrow> Some (Ret now, t + 9) | Panic p \<Rightarrow> Some (Panic p, t + 8))"
  using round_alone [OF assms(2)] trace_base [OF assms(1), of t]
  by (subst ktime_get_fast_ns_unfold) (simp add: tk_clock_read_def split: res.split)

theorem fast_reader_interrupts_writer_witness:
  "ktime_get_fast_ns release_x86 (demo_kernel :: unit kernel) (\<lambda>_. mid_update) (\<lambda>_ _. 5) 0 = Some (Ret 111, 9)"
  using fast_reader_interrupts_writer [OF mid_update_trace, where t = 0 and cfg = release_x86 and
      K = "demo_kernel :: unit kernel" and rd = "\<lambda>_ _. 5"]
  by (simp add: demo_fast_ns)

text \<open>
  C3: The reader never sees a half-written timekeeper: against the latch writer's protocol,
  with updates in progress at any time, every time it returns is the time computed from the
  timekeeper that was published when its last round began and one reading of that one's clock.
\<close>
theorem fast_reader_sees_published:
  assumes "writer_trace env ph" and "ktime_get_fast_ns cfg K env rd t = Some (Ret now, t')"
  shows "\<exists>s\<ge>t. t' = s + 9 \<and>
    fast_ns cfg K (published (ph s)) (rd (tkr_clock (published (ph s))) (s + 3)) = Ret now"
  by (rule reader_last_round [OF assms])

theorem fast_reader_sees_published_witness:
  "\<exists>now. ktime_get_fast_ns release_x86 (demo_kernel :: unit kernel) (\<lambda>_. mid_update) (\<lambda>_ _. 5) 0 = Some (Ret now, 9) \<and>
     fast_ns release_x86 (demo_kernel :: unit kernel) (tkf_base1 demo_fast) 5 = Ret now"
proof -
  have q: "\<forall>i\<le>9. mid_update = mid_update" by simp
  have run: "ktime_get_fast_ns release_x86 (demo_kernel :: unit kernel) (\<lambda>_. mid_update) (\<lambda>_ _. 5) 0 = Some (Ret 111, 9)"
    using round_alone [of "\<lambda>_. mid_update" 0] trace_base [OF mid_update_trace] demo_fast_ns
    by (subst ktime_get_fast_ns_unfold) (simp add: tk_clock_read_def)
  from fast_reader_sees_published [OF mid_update_trace run] run show ?thesis by auto
qed

text \<open>
  C5: How long the reader can be kept waiting: in a release build, once the counter stays as it
  is for 19 accesses, the reader has returned by the last of them, however long it has been
  retrying before.
\<close>
theorem fast_reader_bounded_wait:
  assumes "\<not> overflow_checks cfg" and "t \<le> u" and "\<forall>i\<le>18. latch_seq env (u + i) = latch_seq env u"
  shows "\<exists>now t'. ktime_get_fast_ns cfg K env rd t = Some (Ret now, t') \<and> t' \<le> u + 18"
proof -
  obtain v where v: "u = t + v" using assms(2) le_Suc_ex by blast
  obtain n d where n: "10 * n = v + d" "d \<le> 9"
  proof
    show "10 * ((v + 9) div 10) = v + (9 - (v + 9) mod 10)"
      using div_mult_mod_eq [of "v + 9" 10] mod_less_divisor [of 10 "v + 9"] by linarith
  qed simp
  then have at: "t + 10 * n = u + d" using v by simp
  have "latch_seq env (t + 10 * n + 9) = latch_seq env (t + 10 * n)"
    unfolding at add.assoc using assms(3) n(2) by simp
  from fast_ns_returns_within [OF assms(1) this] at n(2) show ?thesis by fastforce
qed

theorem fast_reader_bounded_wait_witness:
  "\<exists>now t'. ktime_get_fast_ns release_x86 (demo_kernel :: unit kernel)
     (\<lambda>t. demo_fast\<lparr>tkf_seq := \<lparr>seq_value = if t < 25 then of_nat t else 25\<rparr>\<rparr>) (\<lambda>_ _. 5) 0 =
       Some (Ret now, t') \<and> t' \<le> 43"
  using fast_reader_bounded_wait [of release_x86 0 25
      "\<lambda>t. demo_fast\<lparr>tkf_seq := \<lparr>seq_value = if t < 25 then of_nat t else 25\<rparr>\<rparr>" "demo_kernel :: unit kernel" "\<lambda>_ _. 5"]
  by auto

text \<open>
  C39: Readings of the fast timekeeper are linearizable between two publications, with updates
  that are under way but not yet published going on beside them: a reading is the exact time
  of a moment between its call and its return, and of two readings, one after the other, the
  second is no earlier.
\<close>
theorem fast_readings_linearizable:
  assumes "writer_trace env ph" and "\<not> overflow_checks cfg"
    and "ktime_get_fast_ns cfg K env rd t = Some (Ret x, t')" and "t' \<le> u"
    and "ktime_get_fast_ns cfg K env rd u = Some (Ret y, u')"
    and "\<forall>s. t \<le> s \<and> s \<le> u' \<longrightarrow> published (ph s) = tkr" and "ticking tkr rd ticks u'"
  shows "(\<exists>s. t \<le> s \<and> s \<le> t' \<and> unat x = linear_ns tkr (ticks s)) \<and>
    (\<exists>s. u \<le> s \<and> s \<le> u' \<and> unat y = linear_ns tkr (ticks s)) \<and> x \<le> y"
proof -
  have "t \<le> t'" "u \<le> u'" using reader_last_round [OF assms(1,3)] reader_last_round [OF assms(1,5)] by auto
  then have "\<forall>s. t \<le> s \<and> s \<le> t' \<longrightarrow> published (ph s) = tkr" "\<forall>s. u \<le> s \<and> s \<le> u' \<longrightarrow> published (ph s) = tkr"
    "ticking tkr rd ticks t'"
    using assms(4,6) ticking_earlier [OF assms(7)] by auto
  from reading_exact [OF assms(1-3) this(1,3)] reading_exact [OF assms(1,2,5) this(2) assms(7)]
  obtain s r where s: "t \<le> s" "s \<le> t'" "unat x = linear_ns tkr (ticks s)"
    and r: "u \<le> r" "r \<le> u'" "unat y = linear_ns tkr (ticks r)" by blast
  have "ticks s \<le> ticks r" using assms(4,7) s(2) r(1) by (auto simp: ticking_def intro: monoD)
  with s r linear_ns_mono show ?thesis by (auto simp: word_le_nat_alt)
qed

text \<open>Two readings on the half-written timekeeper, ten accesses apart.\<close>

lemma mid_update_run:
  assumes "ticking (tkf_base1 demo_fast) rd ticks (t + 3)"
  shows "ktime_get_fast_ns release_x86 (demo_kernel :: unit kernel) (\<lambda>_. mid_update) rd t =
    Some (Ret (of_nat (linear_ns (tkf_base1 demo_fast) (ticks (t + 3)))), t + 9)"
proof -
  have "\<not> overflow_checks release_x86" by simp
  note ns = ticking_ns(1) [where K = "demo_kernel :: unit kernel", OF this assms]
  have "latch_base mid_update (seq_value (tkf_seq mid_update)) = tkf_base1 demo_fast"
    using trace_base [where t = t, OF mid_update_trace] by simp
  with round_alone [of "\<lambda>_. mid_update" t] ns show ?thesis
    by (subst ktime_get_fast_ns_unfold) (simp add: tk_clock_read_def)
qed

theorem fast_readings_linearizable_witness:
  "\<exists>x y. ktime_get_fast_ns release_x86 (demo_kernel :: unit kernel) (\<lambda>_. mid_update) (\<lambda>_ s. 1 + of_nat s) 0 = Some (Ret x, 9) \<and>
     ktime_get_fast_ns release_x86 (demo_kernel :: unit kernel) (\<lambda>_. mid_update) (\<lambda>_ s. 1 + of_nat s) 10 = Some (Ret y, 19) \<and>
     x \<le> y \<and> 100 < unat x"
proof -
  have "(- 1 :: u64) = Bit_Operations.mask 64" by (rule bit_word_eqI) (simp add: bit_mask_iff)
  then have tick: "ticking (tkf_base1 demo_fast) (\<lambda>_ s. 1 + of_nat s) (\<lambda>s. s) 19"
    by (auto simp: ticking_def demo_fast_def Let_def mono_def linear_ns_def intro!: exI [of _ 64])
  note run = mid_update_run [OF ticking_earlier [OF tick]]
  from fast_readings_linearizable [where tkr = "tkf_base1 demo_fast" and ticks = "\<lambda>s. s",
      OF mid_update_trace _ run [of 0] _ run [of 10]] tick
  have "(of_nat (linear_ns (tkf_base1 demo_fast) 3) :: u64) \<le> of_nat (linear_ns (tkf_base1 demo_fast) 13)" by simp
  with run [of 0] run [of 10] show ?thesis
    by (simp add: demo_fast_def Let_def linear_ns_def)
qed

end
