(* ===== verification/Sysctl.thy ===== *)
theory Sysctl
  imports Base_Helper
begin

text \<open>
  \<open>sysctl.rs\<close>: the helpers of sysctl programs. Number parsing is Rust's \<open>str::parse\<close> on the
  string's bytes. The kernel functions whose addresses the module looks up are arguments.
  (The module is not linked into the crate at this commit: \<open>lib.rs\<close> comments it out.)
\<close>

section \<open>Parsing\<close>

definition ascii_digit :: "u8 \<Rightarrow> nat option" where
  "ascii_digit c = (if 48 \<le> c \<and> c \<le> 57 then Some (unat c - 48) else None)"

fun parse_digits :: "nat \<Rightarrow> u8 list \<Rightarrow> nat option" where
  "parse_digits acc [] = Some acc"
| "parse_digits acc (c # rest) =
     (case ascii_digit c of Some d \<Rightarrow> parse_digits (10 * acc + d) rest | None \<Rightarrow> None)"

text \<open>
  The sign rules of \<open>from_str_radix\<close>: a lone sign is an error, a minus only belongs to a
  signed type. The result is the exact number, for the range check of the type.
\<close>

definition parse_int :: "bool \<Rightarrow> u8 list \<Rightarrow> int option" where
  "parse_int is_signed s =
     (case s of
        [] \<Rightarrow> None
      | c # rest \<Rightarrow>
          if (c = 43 \<or> c = 45) \<and> rest = [] then None
          else if c = 43 then map_option int (parse_digits 0 rest)
          else if c = 45 \<and> is_signed then map_option (\<lambda>n. - int n) (parse_digits 0 rest)
          else map_option int (parse_digits 0 s))"

definition parse_i64 :: "u8 list \<Rightarrow> i64 option" where
  "parse_i64 s =
     (case parse_int True s of
        Some i \<Rightarrow> if - (2 ^ 63) \<le> i \<and> i < 2 ^ 63 then Some (word_of_int i) else None
      | None \<Rightarrow> None)"

definition parse_u64 :: "u8 list \<Rightarrow> u64 option" where
  "parse_u64 s =
     (case parse_int False s of
        Some i \<Rightarrow> if 0 \<le> i \<and> i < 2 ^ 64 then Some (word_of_int i) else None
      | None \<Rightarrow> None)"

definition str_to_i64 :: "'k kernel \<Rightarrow> u8 list \<Rightarrow> 'k machine_scheme \<Rightarrow> i64 \<times> 'k machine_scheme" where
  "str_to_i64 K s \<sigma> =
     (case parse_i64 s of
        Some n \<Rightarrow> (n, \<sigma>)
      | None \<Rightarrow> (0, snd (bpf_trace_printk K (map of_char ''Error parsing string to i64'') 0 0 0 \<sigma>)))"

definition str_to_u64 :: "'k kernel \<Rightarrow> u8 list \<Rightarrow> 'k machine_scheme \<Rightarrow> u64 \<times> 'k machine_scheme" where
  "str_to_u64 K s \<sigma> =
     (case parse_u64 s of
        Some n \<Rightarrow> (n, \<sigma>)
      | None \<Rightarrow> (0, snd (bpf_trace_printk K (map of_char ''Error parsing string to u64'') 0 0 0 \<sigma>)))"

section \<open>Values\<close>

record bpf_sysctl_kern =
  sk_write :: u32
  sk_cur_val :: u64
  sk_cur_len :: u64
  sk_new_val :: u64
  sk_new_len :: u64

text \<open>A kernel helper that fills a buffer from an address and a length.\<close>

type_synonym 'k copy_fn =
  "u8 list \<Rightarrow> u64 \<Rightarrow> u64 \<Rightarrow> u64 \<Rightarrow> 'k machine_scheme \<Rightarrow> i32 \<times> u8 list \<times> 'k machine_scheme"

definition copy_sysctl_value ::
  "'k copy_fn \<Rightarrow> u8 list \<Rightarrow> u64 \<Rightarrow> u64 \<Rightarrow> 'k machine_scheme \<Rightarrow> i32 \<times> u8 list \<times> 'k machine_scheme" where
  "copy_sysctl_value helper dst src src_len \<sigma> = helper dst (of_nat (length dst)) src src_len \<sigma>"

definition bpf_sysctl_get_current_value ::
  "'k copy_fn \<Rightarrow> bpf_sysctl_kern \<Rightarrow> u8 list \<Rightarrow> 'k machine_scheme \<Rightarrow> i64 \<times> u8 list \<times> 'k machine_scheme" where
  "bpf_sysctl_get_current_value helper ctx buf \<sigma> =
     (let (r, out) = copy_sysctl_value helper buf (sk_cur_val ctx) (sk_cur_len ctx) \<sigma> in (scast r, out))"

definition bpf_sysctl_get_new_value ::
  "'k kernel \<Rightarrow> 'k copy_fn \<Rightarrow> bpf_sysctl_kern \<Rightarrow> u8 list \<Rightarrow> 'k machine_scheme
   \<Rightarrow> i64 \<times> u8 list \<times> 'k machine_scheme" where
  "bpf_sysctl_get_new_value K helper ctx buf \<sigma> =
     (if sk_write ctx = 0
      then (- ucast (EINVAL K),
            (if \<not> list_all (\<lambda>v. v = 0) buf then replicate (length buf) 0 else buf), \<sigma>)
      else let (r, out) = copy_sysctl_value helper buf (sk_new_val ctx) (sk_new_len ctx) \<sigma> in
           (scast r, out))"

definition bpf_sysctl_set_new_value ::
  "(bpf_sysctl_kern \<Rightarrow> u8 list \<Rightarrow> u64 \<Rightarrow> 'k machine_scheme \<Rightarrow> i64 \<times> bpf_sysctl_kern \<times> 'k machine_scheme)
   \<Rightarrow> bpf_sysctl_kern \<Rightarrow> u8 list \<Rightarrow> 'k machine_scheme \<Rightarrow> i64 \<times> bpf_sysctl_kern \<times> 'k machine_scheme" where
  "bpf_sysctl_set_new_value helper ctx buf \<sigma> = helper ctx buf (of_nat (length buf)) \<sigma>"

text \<open>The kernel writes the name through the pointer of the shared string \<open>buf\<close>.\<close>

definition bpf_sysctl_get_name ::
  "(bpf_sysctl_kern \<Rightarrow> u8 list \<Rightarrow> u64 \<Rightarrow> u64 \<Rightarrow> 'k machine_scheme \<Rightarrow> i64 \<times> u8 list \<times> 'k machine_scheme)
   \<Rightarrow> bpf_sysctl_kern \<Rightarrow> u8 list \<Rightarrow> u64 \<Rightarrow> 'k machine_scheme \<Rightarrow> i64 \<times> u8 list \<times> 'k machine_scheme" where
  "bpf_sysctl_get_name helper ctx buf flags \<sigma> = helper ctx buf (of_nat (length buf)) flags \<sigma>"

section \<open>Printing\<close>

text \<open>Decimal digits, the reference that parsing is measured against.\<close>

fun decimal :: "nat \<Rightarrow> u8 list" where
  "decimal n = (if n < 10 then [of_nat (48 + n)] else decimal (n div 10) @ [of_nat (48 + n mod 10)])"

declare decimal.simps [simp del]

lemma ascii_digit_of_nat: "d < 10 \<Longrightarrow> ascii_digit (of_nat (48 + d)) = Some d"
proof -
  assume d: "d < 10"
  then have "unat (of_nat (48 + d) :: u8) = 48 + d"
    by (simp only: unsigned_of_nat) (simp add: take_bit_nat_eq_self)
  with d show ?thesis by (simp only: ascii_digit_def word_le_nat_alt) simp
qed

lemma parse_digits_append:
  "parse_digits acc (xs @ ys) =
     (case parse_digits acc xs of Some a \<Rightarrow> parse_digits a ys | None \<Rightarrow> None)"
  by (induction xs arbitrary: acc) (auto split: option.splits)

lemma parse_digits_decimal: "parse_digits 0 (decimal n) = Some n"
proof (induction n rule: decimal.induct)
  case (1 n)
  show ?case
  proof (cases "n < 10")
    case True
    then show ?thesis
      by (subst decimal.simps) (simp add: ascii_digit_of_nat del: of_nat_add)
  next
    case False
    then show ?thesis using 1
      by (subst decimal.simps) (simp add: parse_digits_append ascii_digit_of_nat del: of_nat_add)
  qed
qed

lemma decimal_first: "\<exists>d rest. decimal n = of_nat (48 + d) # rest \<and> d < 10"
proof (induction n rule: decimal.induct)
  case (1 n)
  show ?case
    using 1 by (subst decimal.simps) (fastforce simp del: of_nat_add)
qed

lemma digit_not_sign: "d < 10 \<Longrightarrow> (of_nat (48 + d) :: u8) \<noteq> 43 \<and> (of_nat (48 + d) :: u8) \<noteq> 45"
proof -
  assume d: "d < 10"
  then have "unat (of_nat (48 + d) :: u8) = 48 + d"
    by (simp only: unsigned_of_nat) (simp add: take_bit_nat_eq_self)
  then show ?thesis by (auto simp del: of_nat_add)
qed

lemma parse_int_decimal: "parse_int b (decimal n) = Some (int n)"
  using decimal_first [of n] digit_not_sign parse_digits_decimal [of n]
  by (auto simp: parse_int_def simp del: of_nat_add)

lemma parse_int_minus_decimal: "parse_int True (45 # decimal n) = Some (- int n)"
  using decimal_first [of n] parse_digits_decimal [of n] by (auto simp: parse_int_def)

lemma sint_scast_i64: "sint (scast (w :: i32) :: i64) = sint w"
  using sint_lt [of w] sint_ge [of w]
  by (simp add: signed_scast_eq signed_take_bit_int_eq_self)

section \<open>Properties\<close>

text \<open>
  C40: Both parsers read back every number of their type from its decimal digits, without
  touching the machine; a decimal number that does not fit gives 0, after a message.
\<close>
theorem sysctl_parse_roundtrip:
  "str_to_u64 K (decimal n) \<sigma> =
     (if n < 2 ^ 64 then (of_nat n, \<sigma>)
      else (0, snd (bpf_trace_printk K (map of_char ''Error parsing string to u64'') 0 0 0 \<sigma>))) \<and>
   str_to_i64 K (45 # decimal n) \<sigma> =
     (if n \<le> 2 ^ 63 then (- of_nat n, \<sigma>)
      else (0, snd (bpf_trace_printk K (map of_char ''Error parsing string to i64'') 0 0 0 \<sigma>))) \<and>
   str_to_i64 K (decimal n) \<sigma> =
     (if n < 2 ^ 63 then (of_nat n, \<sigma>)
      else (0, snd (bpf_trace_printk K (map of_char ''Error parsing string to i64'') 0 0 0 \<sigma>)))"
  by (simp add: str_to_u64_def str_to_i64_def parse_u64_def parse_i64_def parse_int_decimal
      parse_int_minus_decimal)

text \<open>
  Asked for the new value when the access is a read, the helper returns \<open>-EINVAL\<close>, leaves a
  buffer of zeros of the same length, and does not call the kernel; on a write it returns the
  kernel's code, sign-extended, with what the kernel made of the buffer.
\<close>
theorem sysctl_get_new_value_spec:
  "(sk_write ctx = 0 \<longrightarrow>
      bpf_sysctl_get_new_value K helper ctx buf \<sigma> =
        (- ucast (EINVAL K), replicate (length buf) 0, \<sigma>)) \<and>
   (sk_write ctx \<noteq> 0 \<longrightarrow>
      sint (fst (bpf_sysctl_get_new_value K helper ctx buf \<sigma>)) =
        sint (fst (helper buf (of_nat (length buf)) (sk_new_val ctx) (sk_new_len ctx) \<sigma>)) \<and>
      snd (bpf_sysctl_get_new_value K helper ctx buf \<sigma>) =
        snd (helper buf (of_nat (length buf)) (sk_new_val ctx) (sk_new_len ctx) \<sigma>))"
proof -
  have "list_all (\<lambda>v. v = 0) buf \<Longrightarrow> buf = replicate (length buf) 0"
    by (induction buf) auto
  then show ?thesis
    by (simp add: bpf_sysctl_get_new_value_def copy_sysctl_value_def case_prod_unfold Let_def sint_scast_i64)
qed

theorem sysctl_get_new_value_spec_witness:
  "bpf_sysctl_get_new_value demo_kernel (\<lambda>dst n src len \<sigma>. (0, dst, \<sigma>))
     \<lparr>sk_write = 0, sk_cur_val = 0, sk_cur_len = 0, sk_new_val = 0, sk_new_len = 0\<rparr> [1, 2]
     demo_machine = (- 22, [0, 0], demo_machine) \<and>
   sint (fst (bpf_sysctl_get_new_value demo_kernel (\<lambda>dst n src len \<sigma>. (- 5, dst, \<sigma>))
     \<lparr>sk_write = 1, sk_cur_val = 0, sk_cur_len = 0, sk_new_val = 0, sk_new_len = 0\<rparr> [1, 2]
     demo_machine)) = - 5"
proof
  let ?rd = "\<lparr>sk_write = 0, sk_cur_val = 0, sk_cur_len = 0, sk_new_val = 0, sk_new_len = 0\<rparr>"
  have "bpf_sysctl_get_new_value demo_kernel (\<lambda>dst n src len \<sigma>. (0, dst, \<sigma>)) ?rd [1, 2] demo_machine =
      (- ucast (EINVAL (demo_kernel :: unit kernel)), replicate (length [1::u8, 2]) 0, demo_machine)"
    by (rule sysctl_get_new_value_spec [THEN conjunct1, rule_format]) simp
  then show "bpf_sysctl_get_new_value demo_kernel (\<lambda>dst n src len \<sigma>. (0, dst, \<sigma>)) ?rd [1, 2]
      demo_machine = (- 22, [0, 0], demo_machine)" by simp
  let ?wr = "\<lparr>sk_write = 1, sk_cur_val = 0, sk_cur_len = 0, sk_new_val = 0, sk_new_len = 0\<rparr>"
  show "sint (fst (bpf_sysctl_get_new_value demo_kernel (\<lambda>dst n src len \<sigma>. (- 5, dst, \<sigma>)) ?wr [1, 2]
      demo_machine)) = - 5"
    using sysctl_get_new_value_spec [THEN conjunct2, rule_format, THEN conjunct1,
      of ?wr demo_kernel "\<lambda>dst n src len \<sigma>. (- 5, dst, \<sigma>)" "[1, 2]" demo_machine] by simp
qed

end
