(* ===== verification/Samples.thy ===== *)
theory Samples
  imports Xdp Kprobe Tracepoint Typed_Map
begin

text \<open>
  The four sample programs (\<open>samples/*/src/main.rs\<close>), in the program monad, on the helpers of
  the runtime crate. Constants of generated bindings that the samples use beyond the crate's
  own are arguments.
\<close>

definition lit :: "string \<Rightarrow> u8 list" where
  "lit s = map of_char s"

definition printk_m :: "'k kernel \<Rightarrow> string \<Rightarrow> u64 list \<Rightarrow> ('k, unit) run" where
  "printk_m K fmt args = modify_m (bpf_printk K (lit fmt) args)"

section \<open>hello\<close>

definition hello_prog1_fn :: "'k kernel \<Rightarrow> tp_ctx \<Rightarrow> ('k, c_result) run" where
  "hello_prog1_fn K _ =
     bind_m (get_m (tp_bpf_get_current_task K)) (\<lambda>option_task.
       case option_task of
         Some task \<Rightarrow>
           bind_m (get_m (bpf_get_smp_processor_id K)) (\<lambda>cpu.
           bind_m (get_m (\<lambda>\<sigma>. get_pid \<sigma> task)) (\<lambda>pid.
           bind_m (printk_m K ''Rust triggered from PID %u on CPU %u.\<newline>'' [scast pid, ucast cpu])
             (\<lambda>_. ret_m (Ok 0))))
       | None \<Rightarrow> ret_m (Ok 0))"

definition hello_PROG :: "'k kernel \<Rightarrow> 'k tracepoint" where
  "hello_PROG K = tracepoint_new K (hello_prog1_fn K) ''iu_prog1'' Void"

section \<open>map\_test\<close>

definition map_hash :: "'k kernel \<Rightarrow> u64 \<Rightarrow> iu_map" where
  "map_hash K = MAP_DEF (BPF_MAP_TYPE_HASH K) 4 8 1024 0"

definition map_array :: "'k kernel \<Rightarrow> u64 \<Rightarrow> iu_map" where
  "map_array K = MAP_DEF (BPF_MAP_TYPE_ARRAY K) 4 8 256 0"

text \<open>The \<open>match\<close> on a lookup, which prints what it found.\<close>

definition print_lookup :: "'k kernel \<Rightarrow> iu_map \<Rightarrow> u8 list \<Rightarrow> ('k, unit) run" where
  "print_lookup K mp key =
     bind_m (lift_m (bpf_map_lookup_elem K mp key)) (\<lambda>r.
       case r of
         None \<Rightarrow> printk_m K ''Not found.\<newline>'' []
       | Some val \<Rightarrow>
           bind_m (get_m (\<lambda>\<sigma>. load_le (mem \<sigma>) val)) (\<lambda>v. printk_m K ''Found Val=%llu.\<newline>'' [v]))"

text \<open>The current task's pid, or -1 without one.\<close>

definition pid_or_minus1 :: "'k kernel \<Rightarrow> 'k machine_scheme \<Rightarrow> i32" where
  "pid_or_minus1 K \<sigma> =
     (case tp_bpf_get_current_task K \<sigma> of Some task \<Rightarrow> get_pid \<sigma> task | None \<Rightarrow> - 1)"

definition map_test1 :: "'k kernel \<Rightarrow> u64 \<Rightarrow> iu_map \<Rightarrow> ('k, c_result) run" where
  "map_test1 K BPF_ANY mp =
     (let key = word_bytes (0 :: u32) in
      bind_m (printk_m K ''Map Testing 1 Start with key %u\<newline>'' [0]) (\<lambda>_.
      bind_m (print_lookup K mp key) (\<lambda>_.
      bind_m (get_m (pid_or_minus1 K)) (\<lambda>pid.
      bind_m (printk_m K ''Rust program triggered from PID %llu\<newline>'' [scast pid]) (\<lambda>_.
      try_m (lift_m (bpf_map_update_elem K mp key (word_bytes (scast pid :: i64)) BPF_ANY)) (\<lambda>_.
      bind_m (printk_m K ''Map Updated\<newline>'' []) (\<lambda>_.
      bind_m (print_lookup K mp key) (\<lambda>_.
      try_m (lift_m (bpf_map_delete_elem K mp key)) (\<lambda>_.
      bind_m (printk_m K ''Map delete key\<newline>'' []) (\<lambda>_.
      bind_m (print_lookup K mp key) (\<lambda>_. ret_m (Ok 0))))))))))))"

definition map_test2 :: "'k kernel \<Rightarrow> u64 \<Rightarrow> iu_map \<Rightarrow> ('k, c_result) run" where
  "map_test2 K BPF_ANY mp =
     (let key = word_bytes (0 :: u32) in
      bind_m (printk_m K ''Array Map Testing Start\<newline>'' []) (\<lambda>_.
      bind_m (get_m (pid_or_minus1 K)) (\<lambda>pid.
      bind_m (printk_m K ''Rust program triggered from PID %llu\<newline>'' [scast pid]) (\<lambda>_.
      try_m (lift_m (bpf_map_update_elem K mp key (word_bytes (scast pid :: u64)) BPF_ANY)) (\<lambda>_.
      bind_m (printk_m K ''Map Updated\<newline>'' []) (\<lambda>_.
      bind_m (print_lookup K mp key) (\<lambda>_. ret_m (Ok 0))))))))"

text \<open>\<open>map_err\<close> with a closure that prints and returns the error.\<close>

definition map_err_print :: "'k kernel \<Rightarrow> string \<Rightarrow> ('k, c_result) run \<Rightarrow> ('k, c_result) run" where
  "map_err_print K fmt m =
     bind_m m (\<lambda>r. case r of
       Ok v \<Rightarrow> ret_m (Ok v)
     | Err e \<Rightarrow> bind_m (printk_m K fmt [scast e]) (\<lambda>_. ret_m (Err e)))"

definition map_test_prog1_fn :: "'k kernel \<Rightarrow> u64 \<Rightarrow> iu_map \<Rightarrow> iu_map \<Rightarrow> tp_ctx \<Rightarrow> ('k, c_result) run" where
  "map_test_prog1_fn K BPF_ANY hash arr _ =
     try_m (map_err_print K ''map_test1 failed with %lld.\<newline>'' (map_test1 K BPF_ANY hash)) (\<lambda>_.
       map_err_print K ''map_test2 failed with %lld.\<newline>'' (map_test2 K BPF_ANY arr))"

definition map_test_PROG :: "'k kernel \<Rightarrow> u64 \<Rightarrow> iu_map \<Rightarrow> iu_map \<Rightarrow> 'k tracepoint" where
  "map_test_PROG K BPF_ANY hash arr =
     tracepoint_new K (map_test_prog1_fn K BPF_ANY hash arr) ''iu_prog1'' Void"

section \<open>mp4-sample\<close>

definition xdp_rx_filter_fn :: "'k kernel \<Rightarrow> xdp_md \<Rightarrow> ('k, c_result) run" where
  "xdp_rx_filter_fn K ctx = ret_m (Ok (XDP_PASS K))"

definition mp4_PROG1 :: "'k kernel \<Rightarrow> u64 \<Rightarrow> 'k xdp" where
  "mp4_PROG1 K BPF_PROG_TYPE_XDP = xdp_new (xdp_rx_filter_fn K) ''xdp_rx_filter'' BPF_PROG_TYPE_XDP"

section \<open>tracex5\<close>

text \<open>
  \<open>seccomp_data\<close> is \<open>nr\<close>, \<open>arch\<close> (4 bytes each), the instruction pointer and six arguments
  (8 bytes each); the programs read it whole and use the arguments.
\<close>

definition sd_zero :: "u8 list" where
  "sd_zero = replicate 64 0"

definition sd_arg :: "u8 list \<Rightarrow> nat \<Rightarrow> u64" where
  "sd_arg sd i = load_le (\<lambda>a. sd ! unat a) (of_nat (16 + 8 * i))"

definition read_sd :: "'k kernel \<Rightarrow> u64 \<Rightarrow> 'k machine_scheme \<Rightarrow> (c_result \<times> u8 list) \<times> 'k machine_scheme" where
  "read_sd K ctx \<sigma> =
     (let (r, sd, \<sigma>') = bpf_probe_read_kernel K sd_zero (rsi (pt_regss \<sigma> ctx)) \<sigma> in ((r, sd), \<sigma>'))"

definition func_sys_write :: "'k kernel \<Rightarrow> u64 \<Rightarrow> ('k, c_result) run" where
  "func_sys_write K ctx =
     bind_m (lift_m (read_sd K ctx)) (\<lambda>(r, sd).
     try_m (ret_m r) (\<lambda>_.
     bind_m (if sd_arg sd 2 = 512
             then printk_m K ''write(fd=%d, buf=%p, size=%d)\<newline>'' [sd_arg sd 0, sd_arg sd 1, sd_arg sd 2]
             else ret_m ()) (\<lambda>_. ret_m (Ok 0))))"

definition func_sys_read :: "'k kernel \<Rightarrow> u64 \<Rightarrow> ('k, c_result) run" where
  "func_sys_read K ctx =
     bind_m (lift_m (read_sd K ctx)) (\<lambda>(r, sd).
     try_m (ret_m r) (\<lambda>_.
     bind_m (if sd_arg sd 2 > 128 \<and> sd_arg sd 2 \<le> 1024
             then printk_m K ''read(fd=%d, buf=%p, size=%d)\<newline>'' [sd_arg sd 0, sd_arg sd 1, sd_arg sd 2]
             else ret_m ()) (\<lambda>_. ret_m (Ok 0))))"

definition func_sys_mmap :: "'k kernel \<Rightarrow> ('k, c_result) run" where
  "func_sys_mmap K = bind_m (printk_m K ''mmap\<newline>'' []) (\<lambda>_. ret_m (Ok 0))"

text \<open>The system call numbers of \<open>unistd\<close> that the program matches on.\<close>

record unistd =
  NR_read :: u32
  NR_write :: u32
  NR_mmap :: u32
  NR_getuid :: u32
  NR_getsid :: u32

definition tracex5_prog1_fn :: "unistd \<Rightarrow> 'k kernel \<Rightarrow> u64 \<Rightarrow> ('k, c_result) run" where
  "tracex5_prog1_fn U K ctx =
     bind_m (get_m (\<lambda>\<sigma>. rdi (pt_regss \<sigma> ctx))) (\<lambda>di.
       let nr = ucast di :: u32 in
       if nr = NR_read U then func_sys_read K ctx
       else if nr = NR_write U then func_sys_write K ctx
       else if nr = NR_mmap U then func_sys_mmap K
       else if NR_getuid U \<le> nr \<and> nr \<le> NR_getsid U
       then bind_m (printk_m K ''syscall=%d (one of get/set uid/pid/gid)\<newline>'' [di]) (\<lambda>_. ret_m (Ok 0))
       else ret_m (Ok 0))"

definition tracex5_PROG :: "unistd \<Rightarrow> 'k kernel \<Rightarrow> 'k kprobe" where
  "tracex5_PROG U K = kprobe_new K (tracex5_prog1_fn U K) ''iu_prog1''"

section \<open>Reasoning about programs\<close>

text \<open>\<open>reach m P \<sigma>\<close>: the program returns from \<open>\<sigma>\<close>, with a value and state that satisfy \<open>P\<close>.\<close>

definition reach :: "('k, 'a) run \<Rightarrow> ('a \<Rightarrow> 'k machine_scheme \<Rightarrow> bool) \<Rightarrow> 'k machine_scheme \<Rightarrow> bool" where
  "reach m P \<sigma> \<longleftrightarrow> (\<exists>x \<sigma>'. m \<sigma> = (Ret x, \<sigma>') \<and> P x \<sigma>')"

named_theorems reach_simps \<open>weakest preconditions of the program monad\<close>

lemma reach_bind [reach_simps]: "reach (bind_m m f) P \<sigma> \<longleftrightarrow> reach m (\<lambda>x. reach (f x) P) \<sigma>"
  by (auto simp: reach_def bind_m_def split: prod.splits res.splits)

lemma reach_ret [reach_simps]: "reach (ret_m x) P \<sigma> \<longleftrightarrow> P x \<sigma>"
  by (simp add: reach_def ret_m_def)

lemma reach_get [reach_simps]: "reach (get_m h) P \<sigma> \<longleftrightarrow> P (h \<sigma>) \<sigma>"
  by (simp add: reach_def get_m_def)

lemma reach_modify [reach_simps]: "reach (modify_m t) P \<sigma> \<longleftrightarrow> P () (t \<sigma>)"
  by (simp add: reach_def modify_m_def)

lemma reach_lift [reach_simps]: "reach (lift_m g) P \<sigma> \<longleftrightarrow> P (fst (g \<sigma>)) (snd (g \<sigma>))"
  by (simp add: reach_def lift_m_def split: prod.splits)

lemma reach_mono: "reach m P \<sigma> \<Longrightarrow> (\<And>x \<tau>. P x \<tau> \<Longrightarrow> Q x \<tau>) \<Longrightarrow> reach m Q \<sigma>"
  by (auto simp: reach_def)

lemma reach_verdict [reach_simps]:
  "reach (verdict d m) P \<sigma> \<longleftrightarrow> reach m (\<lambda>r. P (unwrap_or_else r (\<lambda>_. d))) \<sigma>"
  by (auto simp: reach_def verdict_def bind_m_def ret_m_def split: prod.splits res.splits)

section \<open>The two maps of the map test\<close>

text \<open>
  Both maps keep the slot contract; an update with \<open>BPF_ANY\<close> of an element the array has cannot
  fail. What
  is done to one map, or printed, does not touch the other map; and while the program runs on
  the CPU with base \<open>b\<close>, it stays there and the current task keeps its pid.
\<close>

definition untouched :: "iu_map \<Rightarrow> 'k slots \<Rightarrow> 'k machine_scheme \<Rightarrow> 'k machine_scheme \<Rightarrow> bool" where
  "untouched mp slots \<sigma> \<tau> \<longleftrightarrow> slots \<tau> = slots \<sigma> \<and> same_values mp slots UNIV \<sigma> \<tau>"

definition same_task :: "'k kernel \<Rightarrow> u64 \<Rightarrow> 'k machine_scheme \<Rightarrow> 'k machine_scheme \<Rightarrow> bool" where
  "same_task K b \<sigma> \<tau> \<longleftrightarrow>
     (gs_base \<sigma> = b \<longrightarrow> gs_base \<tau> = b \<and> pid_or_minus1 K \<tau> = pid_or_minus1 K \<sigma>)"

definition map_frames :: "'k kernel \<Rightarrow> u64 \<Rightarrow> iu_map \<Rightarrow> iu_map \<Rightarrow> 'k slots \<Rightarrow> bool" where
  "map_frames K b mp other slots \<longleftrightarrow>
     (\<forall>key \<sigma>. length key = ksize mp \<longrightarrow>
        (let \<tau> = snd (k_map_lookup_elem K (kptr mp) key \<sigma>) in untouched other slots \<sigma> \<tau> \<and> same_task K b \<sigma> \<tau>)) \<and>
     (\<forall>key val flags \<sigma>. length key = ksize mp \<and> length val = vsize mp \<longrightarrow>
        (let \<tau> = snd (k_map_update_elem K (kptr mp) key val flags \<sigma>) in untouched other slots \<sigma> \<tau> \<and> same_task K b \<sigma> \<tau>)) \<and>
     (\<forall>key \<sigma>. length key = ksize mp \<longrightarrow>
        (let \<tau> = snd (k_map_delete_elem K (kptr mp) key \<sigma>) in untouched other slots \<sigma> \<tau> \<and> same_task K b \<sigma> \<tau>))"

definition print_frames :: "'k kernel \<Rightarrow> u64 \<Rightarrow> iu_map \<Rightarrow> 'k slots \<Rightarrow> bool" where
  "print_frames K b mp slots \<longleftrightarrow>
     (\<forall>fmt n x y z \<sigma>. let \<tau> = snd (k_trace_printk K fmt n x y z \<sigma>) in untouched mp slots \<sigma> \<tau> \<and> same_task K b \<sigma> \<tau>)"

definition array_env :: "'k kernel \<Rightarrow> u64 \<Rightarrow> iu_map \<Rightarrow> 'k slots \<Rightarrow> bool" where
  "array_env K flags mp slots \<longleftrightarrow> lookup_env K mp slots \<and> update_env K mp slots \<and>
     (\<forall>key val \<sigma>. length key = ksize mp \<and> length val = vsize mp \<and> slots \<sigma> key \<noteq> None \<longrightarrow>
        fst (k_map_update_elem K (kptr mp) key val flags \<sigma>) = 0)"

definition two_maps_env ::
  "'k kernel \<Rightarrow> u64 \<Rightarrow> u64 \<Rightarrow> iu_map \<Rightarrow> 'k slots \<Rightarrow> iu_map \<Rightarrow> 'k slots \<Rightarrow> bool" where
  "two_maps_env K flags b hash hs arr ars \<longleftrightarrow>
     map_env K hash hs \<and> array_env K flags arr ars \<and>
     map_frames K b hash arr ars \<and> map_frames K b arr hash hs \<and>
     print_frames K b hash hs \<and> print_frames K b arr ars"

text \<open>What a program can tell of a state: the two dictionaries, that all is in order, the pid.\<close>

type_synonym dictionary = "u8 list \<Rightarrow> u8 list option"

definition view ::
  "'k kernel \<Rightarrow> u64 \<Rightarrow> iu_map \<Rightarrow> 'k slots \<Rightarrow> iu_map \<Rightarrow> 'k slots \<Rightarrow> 'k machine_scheme
   \<Rightarrow> dictionary \<times> dictionary \<times> bool \<times> i32" where
  "view K b hash hs arr ars \<sigma> =
     (dict hash hs \<sigma>, dict arr ars \<sigma>,
      slots_ok hash hs \<sigma> \<and> slots_ok arr ars \<sigma> \<and> gs_base \<sigma> = b, pid_or_minus1 K \<sigma>)"

lemma untouched_dict:
  assumes "untouched mp slots \<sigma> \<tau>"
  shows "dict mp slots \<tau> = dict mp slots \<sigma>" and "slots_ok mp slots \<tau> = slots_ok mp slots \<sigma>"
  using assms dict_same [of slots \<tau> \<sigma> mp] by (auto simp: untouched_def)

lemma view_untouched:
  assumes "view K b hash hs arr ars \<sigma> = (d, e, True, p)"
    and "untouched hash hs \<sigma> \<tau>" and "untouched arr ars \<sigma> \<tau>" and "same_task K b \<sigma> \<tau>"
  shows "view K b hash hs arr ars \<tau> = (d, e, True, p)"
  using assms(1,4) untouched_dict [OF assms(2)] untouched_dict [OF assms(3)]
  by (auto simp: view_def same_task_def)

section \<open>The map test, command by command\<close>

lemma reach_pid:
  "view K b hash hs arr ars \<sigma> = (d, e, True, p) \<Longrightarrow> P p \<sigma> \<Longrightarrow> reach (get_m (pid_or_minus1 K)) P \<sigma>"
  by (simp add: reach_get view_def)

lemma reach_print:
  assumes "two_maps_env K flags b hash hs arr ars" and "view K b hash hs arr ars \<sigma> = (d, e, True, p)"
    and "\<And>\<tau>. view K b hash hs arr ars \<tau> = (d, e, True, p) \<Longrightarrow> P () \<tau>"
  shows "reach (printk_m K fmt args) P \<sigma>"
proof -
  have "view K b hash hs arr ars (snd (k_trace_printk K f n x y z \<sigma>)) = (d, e, True, p)" for f n x y z
    using assms(1) by (intro view_untouched [OF assms(2)]) (auto simp: two_maps_env_def print_frames_def Let_def)
  then show ?thesis
    using assms(3) by (auto simp: printk_m_def reach_modify bpf_printk_def bpf_trace_printk_def
        case_prod_unfold Let_def split: list.split)
qed

lemma lookup_untouched:
  assumes "lookup_env K mp slots" and "length key = ksize mp"
  shows "untouched mp slots \<sigma> (snd (k_map_lookup_elem K (kptr mp) key \<sigma>))"
  using lookup_envD [OF assms, of \<sigma>] by (cases "k_map_lookup_elem K (kptr mp) key \<sigma>") (auto simp: untouched_def)

lemma reach_print_lookup:
  assumes env: "two_maps_env K flags b hash hs arr ars" and v: "view K b hash hs arr ars \<sigma> = (d, e, True, p)"
    and mp: "mp = hash \<or> mp = arr" and len: "length key = ksize mp"
    and P: "\<And>\<tau>. view K b hash hs arr ars \<tau> = (d, e, True, p) \<Longrightarrow> P () \<tau>"
  shows "reach (print_lookup K mp key) P \<sigma>"
proof -
  let ?\<tau> = "snd (k_map_lookup_elem K (kptr mp) key \<sigma>)"
  have "untouched hash hs \<sigma> ?\<tau> \<and> untouched arr ars \<sigma> ?\<tau> \<and> same_task K b \<sigma> ?\<tau>"
    using env mp len lookup_untouched [of K mp _ key \<sigma>]
    by (auto simp: two_maps_env_def map_env_def array_env_def map_frames_def Let_def)
  then have "view K b hash hs arr ars ?\<tau> = (d, e, True, p)" using view_untouched [OF v] by blast
  then have "view K b hash hs arr ars (snd (bpf_map_lookup_elem K mp key \<sigma>)) = (d, e, True, p)"
    using v by (simp add: bpf_map_lookup_elem_def Let_def case_prod_unfold)
  then show ?thesis
    using P by (auto simp: print_lookup_def reach_bind reach_lift reach_get split: option.split
        intro!: reach_print [OF env])
qed

lemma update_helper_state:
  "kptr mp \<noteq> 0 \<Longrightarrow> snd (bpf_map_update_elem K mp key val flags \<sigma>) = snd (k_map_update_elem K (kptr mp) key val flags \<sigma>)"
  by (simp add: bpf_map_update_elem_def Let_def case_prod_unfold)

lemma delete_helper_state:
  "kptr mp \<noteq> 0 \<Longrightarrow> snd (bpf_map_delete_elem K mp key \<sigma>) = snd (k_map_delete_elem K (kptr mp) key \<sigma>)"
  by (simp add: bpf_map_delete_elem_def Let_def case_prod_unfold)

lemma reach_hash_update:
  assumes env: "two_maps_env K flags b hash hs arr ars" and v: "view K b hash hs arr ars \<sigma> = (d, e, True, p)"
    and k: "kptr hash \<noteq> 0" and len: "length key = ksize hash \<and> length val = vsize hash"
    and ok: "\<And>\<tau>. view K b hash hs arr ars \<tau> = (d(key \<mapsto> val), e, True, p) \<Longrightarrow> reach (f 0) P \<tau>"
    and err: "\<And>x \<tau>. view K b hash hs arr ars \<tau> = (d, e, True, p) \<Longrightarrow> P (Err x) \<tau>"
  shows "reach (try_m (lift_m (bpf_map_update_elem K hash key val flags)) f) P \<sigma>"
proof -
  obtain r \<tau> where run: "bpf_map_update_elem K hash key val flags \<sigma> = (r, \<tau>)" by fastforce
  have \<tau>: "\<tau> = snd (k_map_update_elem K (kptr hash) key val flags \<sigma>)"
    using update_helper_state [OF k, of K key val flags \<sigma>] run by simp
  have u: "untouched arr ars \<sigma> \<tau>" "same_task K b \<sigma> \<tau>"
    using env len unfolding \<tau> two_maps_env_def map_frames_def Let_def by blast+
  have "update_env K hash hs" and "slots_ok hash hs \<sigma>"
    using env v by (auto simp: two_maps_env_def map_env_def view_def)
  from put_refines [OF this k len run]
  have "r = Ok 0 \<and> view K b hash hs arr ars \<tau> = (d(key \<mapsto> val), e, True, p) \<or>
      (\<exists>x. r = Err x) \<and> view K b hash hs arr ars \<tau> = (d, e, True, p)"
    using v untouched_dict [OF u(1)] u(2) by (auto simp: view_def same_task_def)
  then show ?thesis
    using ok err run by (auto simp: try_m_def reach_bind reach_lift reach_ret)
qed

lemma reach_array_update:
  assumes env: "two_maps_env K flags b hash hs arr ars" and v: "view K b hash hs arr ars \<sigma> = (d, e, True, p)"
    and k: "kptr arr \<noteq> 0" and len: "length key = ksize arr \<and> length val = vsize arr" and "e key \<noteq> None"
    and ok: "\<And>\<tau>. view K b hash hs arr ars \<tau> = (d, e(key \<mapsto> val), True, p) \<Longrightarrow> reach (f 0) P \<tau>"
  shows "reach (try_m (lift_m (bpf_map_update_elem K arr key val flags)) f) P \<sigma>"
proof -
  obtain r \<tau> where run: "bpf_map_update_elem K arr key val flags \<sigma> = (r, \<tau>)" by fastforce
  have \<tau>: "\<tau> = snd (k_map_update_elem K (kptr arr) key val flags \<sigma>)"
    using update_helper_state [OF k, of K key val flags \<sigma>] run by simp
  have u: "untouched hash hs \<sigma> \<tau>" "same_task K b \<sigma> \<tau>"
    using env len unfolding \<tau> two_maps_env_def map_frames_def Let_def by blast+
  have "ars \<sigma> key \<noteq> None" using v assms(5) by (auto simp: view_def dict_def)
  then have "fst (k_map_update_elem K (kptr arr) key val flags \<sigma>) = 0"
    using env len unfolding two_maps_env_def array_env_def by blast
  then have r: "r = Ok 0" using run k by (auto simp: bpf_map_update_elem_def Let_def code_ok split: prod.splits)
  have "update_env K arr ars" and "slots_ok arr ars \<sigma>"
    using env v by (auto simp: two_maps_env_def array_env_def view_def)
  from put_refines [OF this k len run] r
  have "view K b hash hs arr ars \<tau> = (d, e(key \<mapsto> val), True, p)"
    using v untouched_dict [OF u(1)] u(2) by (auto simp: view_def same_task_def)
  then show ?thesis using ok run r by (simp add: try_m_def reach_bind reach_lift)
qed

lemma reach_hash_delete:
  assumes env: "two_maps_env K flags b hash hs arr ars" and v: "view K b hash hs arr ars \<sigma> = (d, e, True, p)"
    and k: "kptr hash \<noteq> 0" and len: "length key = ksize hash" and "d key \<noteq> None"
    and ok: "\<And>\<tau>. view K b hash hs arr ars \<tau> = (d(key := None), e, True, p) \<Longrightarrow> reach (f 0) P \<tau>"
  shows "reach (try_m (lift_m (bpf_map_delete_elem K hash key)) f) P \<sigma>"
proof -
  obtain r \<tau> where run: "bpf_map_delete_elem K hash key \<sigma> = (r, \<tau>)" by fastforce
  have \<tau>: "\<tau> = snd (k_map_delete_elem K (kptr hash) key \<sigma>)"
    using delete_helper_state [OF k, of K key \<sigma>] run by simp
  have u: "untouched arr ars \<sigma> \<tau>" "same_task K b \<sigma> \<tau>"
    using env len unfolding \<tau> two_maps_env_def map_frames_def Let_def by blast+
  have "delete_env K hash hs" and "slots_ok hash hs \<sigma>"
    using env v by (auto simp: two_maps_env_def map_env_def view_def)
  from del_refines [OF this k len run]
  have "r = Ok 0 \<and> view K b hash hs arr ars \<tau> = (d(key := None), e, True, p)"
    using v assms(5) untouched_dict [OF u(1)] u(2) by (auto simp: view_def same_task_def)
  then show ?thesis using ok run by (simp add: try_m_def reach_bind reach_lift)
qed


text \<open>The first test: the hash map ends without the key, or the update was refused.\<close>

lemma map_test1_reach:
  assumes env: "two_maps_env K BPF_ANY b hash hs arr ars" and k: "kptr hash \<noteq> 0"
    and sizes: "ksize hash = 4" "vsize hash = 8" and v: "view K b hash hs arr ars \<sigma> = (d, e, True, p)"
  shows "reach (map_test1 K BPF_ANY hash) (\<lambda>r \<tau>.
      r = Ok 0 \<and> view K b hash hs arr ars \<tau> = (d(word_bytes (0 :: u32) := None), e, True, p) \<or>
      (\<exists>x. r = Err x) \<and> view K b hash hs arr ars \<tau> = (d, e, True, p)) \<sigma>"
  unfolding map_test1_def Let_def reach_bind using v
  apply -
  apply (rule reach_print [OF env], assumption)
  apply (rule reach_print_lookup [OF env], assumption, simp, simp add: sizes)
  apply (rule reach_pid, assumption)
  apply (rule reach_print [OF env], assumption)
  apply (rule reach_hash_update [OF env _ k], assumption, simp add: sizes)
   apply (unfold reach_bind)
   apply (rule reach_print [OF env], assumption)
   apply (rule reach_print_lookup [OF env], assumption, simp, simp add: sizes)
   apply (rule reach_hash_delete [OF env _ k], assumption, simp add: sizes, simp)
   apply (unfold reach_bind)
   apply (rule reach_print [OF env], assumption)
   apply (rule reach_print_lookup [OF env], assumption, simp, simp add: sizes)
   apply (simp add: reach_ret)
  apply simp
  done

lemma map_test2_reach:
  assumes env: "two_maps_env K BPF_ANY b hash hs arr ars" and k: "kptr arr \<noteq> 0"
    and sizes: "ksize arr = 4" "vsize arr = 8" and v: "view K b hash hs arr ars \<sigma> = (d, e, True, p)"
    and there: "e (word_bytes (0 :: u32)) \<noteq> None"
  shows "reach (map_test2 K BPF_ANY arr) (\<lambda>r \<tau>. r = Ok 0 \<and> view K b hash hs arr ars \<tau> =
      (d, e(word_bytes (0 :: u32) \<mapsto> word_bytes (scast p :: u64)), True, p)) \<sigma>"
  unfolding map_test2_def Let_def reach_bind using v
  apply -
  apply (rule reach_print [OF env], assumption)
  apply (rule reach_pid, assumption)
  apply (rule reach_print [OF env], assumption)
  apply (rule reach_array_update [OF env _ k], assumption, simp add: sizes, rule there)
  apply (unfold reach_bind)
  apply (rule reach_print [OF env], assumption)
  apply (rule reach_print_lookup [OF env], assumption, simp, simp add: sizes)
  apply (simp add: reach_ret)
  done

lemma reach_try:
  "reach m (\<lambda>r \<tau>. case r of Ok v \<Rightarrow> reach (f v) P \<tau> | Err x \<Rightarrow> P (Err x) \<tau>) \<sigma> \<Longrightarrow> reach (try_m m f) P \<sigma>"
  by (auto simp: try_m_def reach_bind reach_ret elim!: reach_mono split: result.splits)

lemma reach_map_err:
  "reach m (\<lambda>r \<tau>. case r of Ok v \<Rightarrow> P (Ok v) \<tau>
     | Err x \<Rightarrow> reach (printk_m K fmt [scast x]) (\<lambda>_. P (Err x)) \<tau>) \<sigma> \<Longrightarrow> reach (map_err_print K fmt m) P \<sigma>"
  by (auto simp: map_err_print_def reach_bind reach_ret elim!: reach_mono split: result.splits)

lemma map_test_body_reach:
  assumes env: "two_maps_env K BPF_ANY b hash hs arr ars" and k: "kptr hash \<noteq> 0" "kptr arr \<noteq> 0"
    and sizes: "ksize hash = 4" "vsize hash = 8" "ksize arr = 4" "vsize arr = 8"
    and v: "view K b hash hs arr ars \<sigma> = (d, e, True, p)" and there: "e (word_bytes (0 :: u32)) \<noteq> None"
  shows "reach (map_test_prog1_fn K BPF_ANY hash arr c) (\<lambda>r \<tau>.
      r = Ok 0 \<and> view K b hash hs arr ars \<tau> = (d(word_bytes (0 :: u32) := None),
        e(word_bytes (0 :: u32) \<mapsto> word_bytes (scast p :: u64)), True, p) \<or>
      (\<exists>x. r = Err x) \<and> view K b hash hs arr ars \<tau> = (d, e, True, p)) \<sigma>"
  (is "reach _ ?P _")
proof -
  have two: "reach (map_err_print K fmt (map_test2 K BPF_ANY arr)) ?P \<tau>"
    if "view K b hash hs arr ars \<tau> = (d(word_bytes (0 :: u32) := None), e, True, p)" for fmt \<tau>
    by (rule reach_map_err, rule reach_mono [OF map_test2_reach [OF env k(2) sizes(3,4) that there]]) simp
  have "reach (map_test1 K BPF_ANY hash) (\<lambda>r \<tau>. r = Ok 0 \<and> (\<forall>fmt. reach (map_err_print K fmt (map_test2 K BPF_ANY arr)) ?P \<tau>) \<or>
      (\<exists>x. r = Err x \<and> (\<forall>fmt. reach (printk_m K fmt [scast x]) (\<lambda>_. ?P (Err x)) \<tau>))) \<sigma>"
    by (rule reach_mono [OF map_test1_reach [OF env k(1) sizes(1,2) v]])
       (use two reach_print [OF env, where d = d and e = e and p = p] in \<open>elim disjE; fastforce\<close>)
  then show ?thesis
    unfolding map_test_prog1_fn_def
    by (intro reach_try reach_map_err) (auto elim!: reach_mono)
qed


text \<open>
  A kernel with both maps, for the witnesses: its state is the key of the hash map's only slot,
  at \<open>0x5000\<close>; the array, at \<open>0x6000\<close>, has one element.
\<close>

definition pair_array :: "u8 list option slots" where
  "pair_array \<sigma> key = (if key = word_bytes (0 :: u32) then Some 0x6000 else None)"

definition pair_kernel :: "u8 list option kernel" where
  "pair_kernel = demo_kernel\<lparr>
     k_map_lookup_elem := (\<lambda>p key \<sigma>.
       if p = 8 then k_map_lookup_elem slot_kernel p key \<sigma>
       else (if key = word_bytes (0 :: u32) then 0x6000 else 0, \<sigma>)),
     k_map_update_elem := (\<lambda>p key val flags \<sigma>.
       if p = 8 then k_map_update_elem slot_kernel p key val flags \<sigma>
       else if key = word_bytes (0 :: u32) then (0, \<sigma>\<lparr>mem := store_bytes (mem \<sigma>) 0x6000 val\<rparr>) else (- 7, \<sigma>)),
     k_map_delete_elem := (\<lambda>p key \<sigma>.
       if p = 8 then k_map_delete_elem slot_kernel p key \<sigma> else (- 22, \<sigma>))\<rparr>"

abbreviation hash_ex :: iu_map where "hash_ex \<equiv> map_hash pair_kernel 8"
abbreviation array_ex :: iu_map where "array_ex \<equiv> map_array pair_kernel 16"

lemma map_statics:
  "kptr (map_hash K h) = h" "ksize (map_hash K h) = 4" "vsize (map_hash K h) = 8"
  "kptr (map_array K a) = a" "ksize (map_array K a) = 4" "vsize (map_array K a) = 8"
  by (simp_all add: map_hash_def map_array_def MAP_DEF_def iu_map_new_def)

lemma demo_trace_printk: "k_trace_printk demo_kernel fmt n a b c \<sigma> = (0, \<sigma>)"
  by (simp add: demo_kernel_def)

lemma pair_hash_env: "map_env pair_kernel hash_ex slot_slots"
  using slot_env [of hash_ex]
  by (simp add: map_env_def lookup_env_def update_env_def delete_env_def pair_kernel_def map_statics)

lemma pair_array_env: "array_env pair_kernel flags array_ex pair_array"
  by (auto simp: array_env_def lookup_env_def update_env_def pair_kernel_def map_statics pair_array_def
      same_values_def slots_ok_def fun_eq_iff fits_i32_def load_stored)

text \<open>The two values and the current task's pointer lie apart.\<close>

lemma pair_loads:
  assumes "length val = 8"
  shows "load_bytes (store_bytes m 0x6000 val) 0x5000 8 = load_bytes m 0x5000 8"
    and "load_bytes (store_bytes m 0x5000 val) 0x6000 8 = load_bytes m 0x6000 8"
    and "(load_le (store_bytes m 0x5000 val) 0x10118 :: u64) = load_le m 0x10118"
    and "(load_le (store_bytes m 0x6000 val) 0x10118 :: u64) = load_le m 0x10118"
  using assms by (simp_all add: load_bytes_def load_le_def store_bytes_def upt_rec)

lemma pair_pid:
  "pid_or_minus1 pair_kernel \<sigma> =
     (let p = load_le (mem \<sigma>) (gs_base \<sigma> + 0x118) in if p = 0 then - 1 else ts_pid (task_structs \<sigma> p))"
  by (simp add: pid_or_minus1_def tp_bpf_get_current_task_def get_current_task_def get_pid_def
      task_new_def this_cpu_read_ptr_def pair_kernel_def Let_def)

lemma more_update_sel [simp]:
  "gs_base (machine.more_update f \<sigma>) = gs_base \<sigma>"
  "task_structs (machine.more_update f \<sigma>) = task_structs \<sigma>"
  by (cases \<sigma>, simp)+

lemma pair_same_task:
  "same_task pair_kernel 0x10000 \<sigma> \<sigma>"
  "same_task pair_kernel 0x10000 \<sigma> (machine.more_update f \<sigma>)"
  "length val = 8 \<Longrightarrow> same_task pair_kernel 0x10000 \<sigma> (\<sigma>\<lparr>mem := store_bytes (mem \<sigma>) 0x6000 val\<rparr>)"
  "length val = 8 \<Longrightarrow> same_task pair_kernel 0x10000 \<sigma>
     (machine.more_update f (\<sigma>\<lparr>mem := store_bytes (mem \<sigma>) 0x5000 val\<rparr>))"
  by (simp_all add: same_task_def pair_pid pair_loads Let_def)

lemma pair_untouched:
  "untouched mp slots \<sigma> \<sigma>"
  "untouched array_ex pair_array \<sigma> (machine.more_update f \<sigma>)"
  "length val = 8 \<Longrightarrow> untouched hash_ex slot_slots \<sigma> (\<sigma>\<lparr>mem := store_bytes (mem \<sigma>) 0x6000 val\<rparr>)"
  "length val = 8 \<Longrightarrow> untouched array_ex pair_array \<sigma>
     (machine.more_update f (\<sigma>\<lparr>mem := store_bytes (mem \<sigma>) 0x5000 val\<rparr>))"
  by (auto simp: untouched_def same_values_def slot_slots_def pair_array_def map_statics pair_loads fun_eq_iff)

lemma pair_fns:
  "k_map_lookup_elem pair_kernel p key \<sigma> =
     (if p = 8 then (if machine.more \<sigma> = Some key then 0x5000 else 0, \<sigma>)
      else (if key = word_bytes (0 :: u32) then 0x6000 else 0, \<sigma>))"
  "k_map_update_elem pair_kernel p key val f \<sigma> =
     (if p = 8
      then (if machine.more \<sigma> = None \<or> machine.more \<sigma> = Some key
        then (0, machine.more_update (\<lambda>_. Some key) (\<sigma>\<lparr>mem := store_bytes (mem \<sigma>) 0x5000 val\<rparr>))
        else (- 7, \<sigma>))
      else if key = word_bytes (0 :: u32) then (0, \<sigma>\<lparr>mem := store_bytes (mem \<sigma>) 0x6000 val\<rparr>) else (- 7, \<sigma>))"
  "k_map_delete_elem pair_kernel p key \<sigma> =
     (if p = 8
      then (if machine.more \<sigma> = Some key then (0, machine.more_update (\<lambda>_. None) \<sigma>) else (- 2, \<sigma>))
      else (- 22, \<sigma>))"
  "k_trace_printk pair_kernel fmt n x y z \<sigma> = (0, \<sigma>)"
  by (simp_all add: pair_kernel_def slot_kernel_def demo_trace_printk)

lemma pair_env: "two_maps_env pair_kernel flags 0x10000 hash_ex slot_slots array_ex pair_array"
proof -
  have "map_frames pair_kernel 0x10000 hash_ex array_ex pair_array"
    by (simp add: map_frames_def map_statics pair_fns Let_def pair_untouched pair_same_task)
  moreover have "map_frames pair_kernel 0x10000 array_ex hash_ex slot_slots"
    by (simp add: map_frames_def map_statics pair_fns Let_def pair_untouched pair_same_task)
  moreover have "print_frames pair_kernel 0x10000 mp slots" for mp slots
    by (simp add: print_frames_def pair_fns Let_def pair_untouched pair_same_task)
  ultimately show ?thesis by (simp add: two_maps_env_def pair_hash_env pair_array_env)
qed

section \<open>Properties\<close>

text \<open>
  C13: The map test composed with the maps, down to the kernel's slots: on a kernel that keeps
  the slot contract of both maps, with key 0 in the array, the program returns verdict 0. If
  its own result is \<open>Ok\<close>, the hash map has lost key 0, the array has the current task's pid
  there, and every other entry is as it was; if it is an error, which is then one of the
  hash map's update, both dictionaries are unchanged. The slots of both maps stay in order.
\<close>
theorem map_test_effect:
  assumes "two_maps_env K BPF_ANY b (map_hash K h) hs (map_array K a) ars" and "h \<noteq> 0" and "a \<noteq> 0"
    and "slots_ok (map_hash K h) hs \<sigma>" and "slots_ok (map_array K a) ars \<sigma>" and "gs_base \<sigma> = b"
    and "dict (map_array K a) ars \<sigma> (word_bytes (0 :: u32)) \<noteq> None"
  shows "\<exists>r \<tau>. map_test_prog1_fn K BPF_ANY (map_hash K h) (map_array K a) CtxVoid \<sigma> = (Ret r, \<tau>) \<and>
    tp_prog_run (map_test_PROG K BPF_ANY (map_hash K h) (map_array K a)) ctx \<sigma> = (Ret 0, \<tau>) \<and>
    slots_ok (map_hash K h) hs \<tau> \<and> slots_ok (map_array K a) ars \<tau> \<and>
    (case r of
       Ok v \<Rightarrow>
         dict (map_hash K h) hs \<tau> = (dict (map_hash K h) hs \<sigma>)(word_bytes (0 :: u32) := None) \<and>
         dict (map_array K a) ars \<tau> = (dict (map_array K a) ars \<sigma>)
           (word_bytes (0 :: u32) \<mapsto> word_bytes (scast (pid_or_minus1 K \<sigma>) :: u64))
     | Err x \<Rightarrow>
         dict (map_hash K h) hs \<tau> = dict (map_hash K h) hs \<sigma> \<and>
         dict (map_array K a) ars \<tau> = dict (map_array K a) ars \<sigma>)"
proof -
  let ?PROG = "map_test_PROG K BPF_ANY (map_hash K h) (map_array K a)"
  let ?V = "view K b (map_hash K h) hs (map_array K a) ars"
  have v: "?V \<sigma> = (dict (map_hash K h) hs \<sigma>, dict (map_array K a) ars \<sigma>, True, pid_or_minus1 K \<sigma>)"
    using assms(4-6) by (simp add: view_def)
  obtain r \<tau> where run: "map_test_prog1_fn K BPF_ANY (map_hash K h) (map_array K a) CtxVoid \<sigma> = (Ret r, \<tau>)"
    and out: "r = Ok 0 \<and> ?V \<tau> = ((dict (map_hash K h) hs \<sigma>)(word_bytes (0 :: u32) := None),
        (dict (map_array K a) ars \<sigma>)(word_bytes (0 :: u32) \<mapsto> word_bytes (scast (pid_or_minus1 K \<sigma>) :: u64)),
        True, pid_or_minus1 K \<sigma>) \<or> (\<exists>x. r = Err x) \<and> ?V \<tau> = ?V \<sigma>"
    using map_test_body_reach [OF assms(1) _ _ _ _ _ _ v assms(7), of CtxVoid] assms(2,3) v
    by (auto simp: reach_def map_statics)
  have prog: "tp_prog ?PROG (tp_convert_ctx ?PROG ctx) \<sigma> = (Ret r, \<tau>)"
    by (simp add: map_test_PROG_def tracepoint_new_def tp_convert_ctx_def run)
  have "tp_prog_run ?PROG ctx \<sigma> = (Ret 0, \<tau>)"
  proof (cases r)
    case (Ok x)
    with out prog tp_run.run_ok [OF refl, of ?PROG ctx \<sigma> 0 \<tau>] show ?thesis by auto
  next
    case (Err x)
    with prog tp_run.run_err [OF refl, of ?PROG ctx \<sigma> x \<tau>] show ?thesis by simp
  qed
  with run out v show ?thesis by (auto simp: view_def)
qed

theorem map_test_effect_witness:
  "\<exists>r \<tau>. map_test_prog1_fn pair_kernel 0 hash_ex array_ex CtxVoid slot_machine_init = (Ret r, \<tau>) \<and>
     tp_prog_run (map_test_PROG pair_kernel 0 hash_ex array_ex) 0 slot_machine_init = (Ret 0, \<tau>)"
proof -
  have "slots_ok array_ex pair_array slot_machine_init"
    by (simp add: slots_ok_def pair_array_def)
  moreover have "gs_base slot_machine_init = 0x10000"
    by (simp add: slot_machine_init_def machine.extend_def)
  moreover have "dict array_ex pair_array slot_machine_init (word_bytes (0 :: u32)) \<noteq> None"
    by (simp add: dict_def pair_array_def)
  ultimately show ?thesis
    using map_test_effect [OF pair_env [of 0], where ctx = 0 and \<sigma> = slot_machine_init] slot_init_ok by auto
qed

text \<open>
  The verdict of the tracing sample on system calls is 0 whatever the call and whatever the
  kernel's helpers answer, and it never panics; on a call outside the four groups it handles
  it leaves the machine as it was.
\<close>
lemma tracex5_run:
  "\<exists>\<tau>. kp_prog_run (tracex5_PROG U K) ctx \<sigma> = (Ret 0, \<tau>) \<and>
     ((let nr = ucast (rdi (pt_regss \<sigma> ctx)) :: u32 in
        nr \<notin> {NR_read U, NR_write U, NR_mmap U} \<and> \<not> (NR_getuid U \<le> nr \<and> nr \<le> NR_getsid U)) \<longrightarrow> \<tau> = \<sigma>)"
proof -
  have two: "reach (func_sys_read K ctx) (\<lambda>r \<tau>. unwrap_or_else r (\<lambda>_. 0) = 0) \<sigma>"
    "reach (func_sys_write K ctx) (\<lambda>r \<tau>. unwrap_or_else r (\<lambda>_. 0) = 0) \<sigma>"
    by (simp_all add: func_sys_read_def func_sys_write_def try_m_def printk_m_def reach_simps
        split: prod.split result.split)
  have "reach (tracex5_prog1_fn U K ctx) (\<lambda>r \<tau>. unwrap_or_else r (\<lambda>_. 0) = 0 \<and>
     ((let nr = ucast (rdi (pt_regss \<sigma> ctx)) :: u32 in
        nr \<notin> {NR_read U, NR_write U, NR_mmap U} \<and> \<not> (NR_getuid U \<le> nr \<and> nr \<le> NR_getsid U)) \<longrightarrow> \<tau> = \<sigma>)) \<sigma>"
    using reach_mono [OF two(1)] reach_mono [OF two(2)]
    by (simp add: tracex5_prog1_fn_def Let_def reach_simps func_sys_mmap_def printk_m_def)
  then have "reach (verdict 0 (tracex5_prog1_fn U K ctx)) (\<lambda>r \<tau>. r = 0 \<and>
     ((let nr = ucast (rdi (pt_regss \<sigma> ctx)) :: u32 in
        nr \<notin> {NR_read U, NR_write U, NR_mmap U} \<and> \<not> (NR_getuid U \<le> nr \<and> nr \<le> NR_getsid U)) \<longrightarrow> \<tau> = \<sigma>)) \<sigma>"
    by (simp only: reach_verdict)
  then show ?thesis
    by (auto simp: reach_def kp_prog_run_def kp_convert_ctx_def tracex5_PROG_def kprobe_new_def)
qed

text \<open>The other samples: what they return and do.\<close>

lemma hello_run:
  "tp_prog_run (hello_PROG K) ctx \<sigma> =
     (Ret 0, case get_current_task K \<sigma> of
        None \<Rightarrow> \<sigma>
      | Some t \<Rightarrow> bpf_printk K (lit ''Rust triggered from PID %u on CPU %u.\<newline>'')
          [scast (get_pid \<sigma> t), ucast (bpf_get_smp_processor_id K \<sigma>)] \<sigma>)"
  by (rule tp_run.run_ok [OF refl])
     (simp add: hello_PROG_def tracepoint_new_def tp_convert_ctx_def hello_prog1_fn_def run_simps
       tp_bpf_get_current_task_def printk_m_def ret_m_def split: option.split)

lemma mp4_run:
  "xdp_convert_ctx cfg ctx \<sigma> = Ret md \<Longrightarrow>
   xdp_prog_run cfg K (mp4_PROG1 K ty) ctx \<sigma> = (Ret (XDP_PASS K), \<sigma>)"
  by (rule xdp_run.run_ok) (simp_all add: mp4_PROG1_def xdp_new_def xdp_rx_filter_fn_def ret_m_def)


text \<open>A program that always returns.\<close>

definition returns :: "('k, 'a) run \<Rightarrow> bool" where
  "returns m \<longleftrightarrow> (\<forall>\<sigma>. reach m (\<lambda>_ _. True) \<sigma>)"

lemma reach_returns: "returns m \<Longrightarrow> (\<And>x \<tau>. P x \<tau>) \<Longrightarrow> reach m P \<sigma>"
  unfolding returns_def by (blast intro: reach_mono)

lemma returns_printk: "returns (printk_m K fmt args)"
  by (simp add: returns_def printk_m_def reach_simps)

lemma returns_print_lookup: "returns (print_lookup K mp key)"
  unfolding returns_def print_lookup_def reach_bind
  by (auto simp: reach_lift reach_get reach_bind split: option.split intro!: reach_returns [OF returns_printk])

text \<open>The map test's result on any kernel is \<open>Ok 0\<close> or an error.\<close>

lemma map_test_result:
  "reach (map_test_prog1_fn K BPF_ANY hash arr c) (\<lambda>r _. \<forall>v. r = Ok v \<longrightarrow> v = 0) \<sigma>"
proof -
  let ?P = "\<lambda>(r :: c_result) (\<tau> :: 'a machine_scheme). \<forall>v. r = Ok v \<longrightarrow> v = 0"
  note rules = reach_returns [OF returns_printk] reach_returns [OF returns_print_lookup]
  have one: "reach (map_test1 K BPF_ANY hash) ?P \<sigma>" for \<sigma>
    unfolding map_test1_def Let_def reach_bind
    by (intro rules reach_try allI impI conjI | simp add: reach_get reach_lift reach_ret reach_bind split: result.split)+
  have two: "reach (map_test2 K BPF_ANY arr) ?P \<sigma>" for \<sigma>
    unfolding map_test2_def Let_def reach_bind
    by (intro rules reach_try allI impI conjI | simp add: reach_get reach_lift reach_ret reach_bind split: result.split)+
  have "reach (map_err_print K fmt (map_test2 K BPF_ANY arr)) ?P \<tau>" for fmt \<tau>
    by (rule reach_map_err, rule reach_mono [OF two]) (auto split: result.split intro!: rules)
  then show ?thesis
    unfolding map_test_prog1_fn_def
    by (intro reach_try reach_map_err reach_mono [OF one]) (auto split: result.split intro!: rules)
qed

lemma map_test_run:
  "\<exists>\<tau>. tp_prog_run (map_test_PROG K BPF_ANY hash arr) ctx \<sigma> = (Ret 0, \<tau>)"
proof -
  let ?PROG = "map_test_PROG K BPF_ANY hash arr"
  obtain r \<tau> where "map_test_prog1_fn K BPF_ANY hash arr CtxVoid \<sigma> = (Ret r, \<tau>)" and r: "\<forall>v. r = Ok v \<longrightarrow> v = 0"
    using map_test_result [of K BPF_ANY hash arr CtxVoid \<sigma>] by (auto simp: reach_def)
  then have "tp_prog ?PROG (tp_convert_ctx ?PROG ctx) \<sigma> = (Ret r, \<tau>)"
    by (simp add: map_test_PROG_def tracepoint_new_def tp_convert_ctx_def)
  then show ?thesis
    using r tp_run.run_ok [OF refl, of ?PROG ctx \<sigma> 0 \<tau>] tp_run.run_err [OF refl, of ?PROG ctx \<sigma> _ \<tau>]
    by (cases r) auto
qed

end
