(* ===== verification/Build_Script.thy ===== *)
theory Build_Script
  imports Prelude
begin

text \<open>
  \<open>build.rs\<close>: the steps of the build before the crate is compiled. The operating system is an
  argument: environment variables, commands, and the file system \<open>'s\<close> they change. The result
  is how \<open>main\<close> ends, what it printed for Cargo, and the file system.
\<close>

section \<open>The operating system\<close>

text \<open>What a command that could be started left: its status, and its output as text.\<close>

record cmd_output =
  status_ok :: bool
  cmd_stdout :: string
  cmd_stderr :: string

record 's os =
  os_var :: "string \<Rightarrow> string option"
  os_output :: "string \<Rightarrow> string list \<Rightarrow> 's \<Rightarrow> cmd_output option \<times> 's"
  os_exists :: "string \<Rightarrow> 's \<Rightarrow> bool"
  os_create_dir :: "string \<Rightarrow> 's \<Rightarrow> bool \<times> 's"
  os_canonicalize :: "string \<Rightarrow> 's \<Rightarrow> string option"

text \<open>\<open>BuildErr\<close> is an \<open>io::Error\<close> handed on by \<open>?\<close>.\<close>

datatype build_outcome = BuildOk | BuildErr | BuildPanic string

definition path_join :: "string \<Rightarrow> string \<Rightarrow> string" where
  "path_join p q = (if p = [] \<or> last p = CHR ''/'' then p @ q else p @ ''/'' @ q)"

section \<open>The script\<close>

definition cargo_lines :: "string \<Rightarrow> string list" where
  "cargo_lines iustub_outdir =
     [''cargo:rerun-if-changed=Cargo.toml'', ''cargo:rerun-if-changed=./src/*'',
      ''cargo:rerun-if-changed=./libiustub/*'', ''cargo:rustc-link-lib=dylib=iustub'',
      ''cargo:rustc-link-search=native='' @ iustub_outdir]"

definition gcc_args :: "string \<Rightarrow> string list" where
  "gcc_args iustub_so =
     [''-fPIC'', ''-nostartfiles'', ''-nodefaultlibs'', ''--shared'', ''-o'', iustub_so,
      ''./libiustub/lib.c'']"

text \<open>From the stub library on; \<open>printed\<close> is what went to Cargo before.\<close>

definition build_stub :: "'s os \<Rightarrow> string \<Rightarrow> string list \<Rightarrow> 's \<Rightarrow> build_outcome \<times> string list \<times> 's" where
  "build_stub E out_dir printed s =
     (let iustub_outdir = path_join out_dir ''libiustub'' in
      case (if os_exists E iustub_outdir s then (True, s) else os_create_dir E iustub_outdir s) of
        (False, s) \<Rightarrow> (BuildErr, printed, s)
      | (True, s) \<Rightarrow>
         (let iustub_so = path_join iustub_outdir ''libiustub.so'' in
          case os_output E ''gcc'' (gcc_args iustub_so) s of
            (None, s) \<Rightarrow> (BuildErr, printed, s)
          | (Some _, s) \<Rightarrow>
             (case os_canonicalize E iustub_outdir s of
                None \<Rightarrow> (BuildErr, printed, s)
              | Some dir \<Rightarrow> (BuildOk, printed @ cargo_lines dir, s))))"

definition build_main :: "'s os \<Rightarrow> 's \<Rightarrow> build_outcome \<times> string list \<times> 's" where
  "build_main E s =
     (case (os_var E ''OUT_DIR'', os_var E ''LINUX'') of
        (Some out_dir, Some linux_dir) \<Rightarrow>
         (case os_output E ''python3'' [''build.py'', linux_dir, out_dir] s of
            (None, s) \<Rightarrow> (BuildErr, [], s)
          | (Some output, s) \<Rightarrow>
              if status_ok output then build_stub E out_dir [cmd_stdout output] s
              else (BuildPanic (CHR 10 # cmd_stderr output), [], s))
      | _ \<Rightarrow> (BuildPanic ''NotPresent'', [], s))"

text \<open>
  The guard of \<open>lib.rs\<close>: with the configuration values given to the compiler, the error it stops
  with, if any.
\<close>

definition kallsyms_guard :: "(string \<Rightarrow> string option) \<Rightarrow> string option" where
  "kallsyms_guard cfg =
     (if cfg ''CONFIG_KALLSYMS_ALL'' = Some ''y'' then None
      else Some ''CONFIG_KALLSYMS_ALL is required for inner-unikernels'')"

section \<open>Properties\<close>

text \<open>The same system, except that \<open>gcc\<close> exits with the given status whenever it is started.\<close>

definition with_gcc_status :: "bool \<Rightarrow> 's os \<Rightarrow> 's os" where
  "with_gcc_status ok E = E\<lparr>os_output := (\<lambda>prog args s.
     if prog = ''gcc'' then (map_option (\<lambda>r. r\<lparr>status_ok := ok\<rparr>) (fst (os_output E prog args s)),
                             snd (os_output E prog args s))
     else os_output E prog args s)\<rparr>"

text \<open>
  The build stops with the generator's error text exactly when the binding generator ran
  and failed. The compiler of the stub library is treated otherwise: only that it could be
  started matters, its exit status changes nothing, so a stub library that failed to compile
  is reported to Cargo as built.
\<close>
theorem build_ignores_gcc_status:
  "((\<exists>msg p t. build_main E s = (BuildPanic (CHR 10 # msg), p, t)) \<longleftrightarrow>
     (\<exists>out_dir linux_dir output t. os_var E ''OUT_DIR'' = Some out_dir \<and>
        os_var E ''LINUX'' = Some linux_dir \<and>
        os_output E ''python3'' [''build.py'', linux_dir, out_dir] s = (Some output, t) \<and>
        \<not> status_ok output)) \<and>
   build_main (with_gcc_status ok E) s = build_main E s"
proof
  have "\<nexists>msg p' t. build_stub E d p s = (BuildPanic msg, p', t)" for d p s
    by (auto simp: build_stub_def Let_def split: prod.splits bool.splits option.splits if_splits)
  then show "(\<exists>msg p t. build_main E s = (BuildPanic (CHR 10 # msg), p, t)) \<longleftrightarrow>
     (\<exists>out_dir linux_dir output t. os_var E ''OUT_DIR'' = Some out_dir \<and>
        os_var E ''LINUX'' = Some linux_dir \<and>
        os_output E ''python3'' [''build.py'', linux_dir, out_dir] s = (Some output, t) \<and>
        \<not> status_ok output)"
    by (auto simp: build_main_def split: option.splits prod.splits if_splits)
  have "build_stub (with_gcc_status ok E) d p s = build_stub E d p s" for d p s
    by (auto simp: with_gcc_status_def build_stub_def Let_def split: prod.splits option.splits bool.splits)
  then show "build_main (with_gcc_status ok E) s = build_main E s"
    by (simp add: build_main_def with_gcc_status_def split: option.splits prod.splits)
qed

end
