(* ===== verification/Spec2Isabelle.thy ===== *)
theory Spec2Isabelle
  imports Perf_Bitfields Perf_Memory Struct_Filter Random32 Helper_Methods Ring_Sessions Context_Escape Debug
    Cleanup_Tables Spinlock_Cpus Xdp Sched_Cls Kprobe Tracepoint Perf_Event Latch_Writer Sysctl
    Samples Build_Script
begin

text \<open>
  A verification library for the Rust part of the repository, \<open>src/rust-inner-unikernels\<close>:
  the runtime crate \<open>inner_unikernel_rt\<close> that kernel extension programs are linked with, the
  procedural macros of \<open>struct_filter\<close>, and the four sample programs. The crate stands
  between a program written in safe Rust and the Linux kernel: an entry point converts the
  raw context pointer of a hook, runs the program on a safe view of it, and returns a verdict;
  helpers wrap kernel functions; a panic runs the cleanup table of the CPU and leaves through
  a landing pad of the kernel.

  How the model is made. Machine integers are words; arithmetic that can panic goes through the
  checked operations of theory \<open>Prelude\<close>, which take the build configuration, so properties
  speak of release and checked builds alike. A computation that may panic has type \<open>res\<close>; a
  program or helper that also changes the machine has type \<open>run\<close> (theory \<open>Prog_Type\<close>), from a
  machine to a result and a machine, also when it panics. The machine (theory \<open>Machine\<close>) is a
  byte memory, the \<open>gs\<close> base of the CPU and a typed heap per kernel struct; its extension
  \<open>'k\<close> is the kernel's private state. Code that is not in the repository is a parameter: the
  record \<open>kernel\<close> extends the declarations of \<open>stub.rs\<close> (\<open>stub_functions\<close>, \<open>stub_globals\<close>) by the
  generated constants and sizes. What properties assume of it is spelled out where it is
  used: \<open>on_cpu\<close>, \<open>spin_contract\<close>, \<open>codes_fit\<close>, \<open>map_env\<close>, \<open>two_maps_env\<close>, \<open>ring_env\<close>,
  \<open>value_layout\<close>, \<open>readable\<close>, \<open>redirect_contract\<close>, \<open>adjust_contract\<close>, \<open>latch_env\<close>, \<open>writer_trace\<close>,
  \<open>ticking\<close>; each has an instance in a witness. Rust's overflow checks, slice
  indexing and \<open>str::parse\<close> are modelled, they belong to the language.

  The theories, in the order they build on each other:
  \<^item> \<open>Prelude\<close>: integers, build configuration, panics, checked arithmetic, bit lemmas.
  \<^item> \<open>Utils\<close> (\<open>utils.rs\<close>): return codes to \<open>Result\<close>, \<open>u16be\<close>, the packet access trait.
  \<^item> \<open>Bitfield\<close> and \<open>Perf_Bitfields\<close> (\<open>perf_event/binding.rs\<close>): the bitfield unit with its bit
    loops, a reference that shifts and masks one integer, and the two packed structs; every
    accessor, and the laws of a family of fields as locales.
  \<^item> \<open>Layout\<close>, \<open>Perf_Types\<close>, \<open>Perf_Memory\<close> (\<open>perf_event/binding.rs\<close>): size, alignment and offsets
    under \<open>repr(C)\<close>, the layout of every struct and union of the bindings, flexible arrays, and
    the perf-event context as loads from the byte memory.
  \<^item> \<open>Struct_Filter\<close> (\<open>struct_filter/src/lib.rs\<close>): the macros on the syntax they look at.
  \<^item> \<open>Machine\<close> (\<open>stub.rs\<close>, \<open>read_once.rs\<close>, \<open>barrier.rs\<close>, the structs): the state and the kernel
    record, with a concrete kernel for the witnesses. \<open>Debug\<close> (\<open>debug.rs\<close>): the printer.
  \<^item> \<open>Per_Cpu\<close> (\<open>per_cpu.rs\<close>), \<open>Base_Helper\<close> (\<open>base_helper.rs\<close>), \<open>Map_Helpers\<close> (\<open>map.rs\<close> and the map
    helpers), \<open>Task_Struct\<close> (\<open>task_struct.rs\<close>), \<open>Random32\<close> (\<open>random32.rs\<close>).
  \<^item> \<open>Helper_Methods\<close> (\<open>base_helper_defs!\<close>): the methods of every program type and the calls
    of the kernel they stand for. \<open>Typed_Map\<close>: the map helpers as a dictionary whose values
    live in kernel memory, and how long its references are good. \<open>Ring_Buffer\<close>: the ring
    buffer helpers as a queue of records with a consumer at its head; \<open>Ring_Sessions\<close>: the same
    over several invocations that return or panic.
  \<^item> \<open>Cleanup\<close> (\<open>panic.rs\<close>): the cleanup table, the panic handler, the message, the stack check.
    The handler may be entered again by a panicking cleanup function, so it is a partial
    function in which \<open>None\<close> is "never reaches the landing pad". \<open>Cleanup_Tables\<close>: the tables
    of all CPUs over histories of registrations, panics and migrations.
  \<^item> \<open>Spinlock\<close> (\<open>spinlock.rs\<close>): guards as scopes; a panic does not unwind. \<open>Spinlock_Cpus\<close>: the
    guards of all CPUs as a step relation over lock, drop and panic, with mutual exclusion
    (where the rest of the system keeps the locks of all guards), and the locks of a program
    that panicked, which only the kernel can release (where it may do so at will).
  \<^item> \<open>Prog_Type\<close> (\<open>prog_type.rs\<close>, \<open>lib.rs\<close>): the program monad, the contract of \<open>prog_run\<close>, and
    \<open>enter\<close>, an invocation with its panic handler.
  \<^item> \<open>Packet\<close>, \<open>Xdp\<close> (\<open>xdp/xdp_impl.rs\<close>), \<open>Sched_Cls\<close> (\<open>sched_cls/sched_cls_impl.rs\<close>): packet
    views, checksum, contexts and when they describe their buffer.
  \<^item> \<open>Kprobe\<close>, \<open>Tracepoint\<close>, \<open>Perf_Event\<close>: the three tracing program types.
    \<open>Context_Escape\<close>: what safe programs can do with their contexts, and with the current task,
    through the generic helpers and maps of any value type.
  \<^item> \<open>Seqlock\<close> (\<open>seqlock.rs\<close>), \<open>Timekeeping\<close> (\<open>timekeeping.rs\<close>), \<open>Sysctl\<close> (\<open>sysctl.rs\<close>): modules that
    \<open>lib.rs\<close> comments out at this commit. The timekeeper's reader runs against an environment
    that gives the timekeeper's value at every access; ten accesses are one round.
    \<open>Latch_Writer\<close>: that environment as a trace of the latch writer's protocol, with any number
    of the writer's steps below \<open>2 ^ 28\<close> from one access of the reader to the next (a counter of
    32 bits cannot tell \<open>2 ^ 32\<close> bumps within a round from none), and readings against a clock
    that ticks.
  \<^item> \<open>Samples\<close> (\<open>samples/*/src/main.rs\<close>): the sample programs on the models of the helpers; the map
    test is composed with the slots of its two maps.
  \<^item> \<open>Build_Script\<close> (\<open>build.rs\<close>): the build's steps over an operating system given as argument.

  Interfaces are locales, each interpreted on the model where it is provided: \<open>per_cpu_read\<close> (six
  widths), \<open>map_op\<close> (five helpers), \<open>struct_view\<close> (two conversions), \<open>iu_prog\<close> (five program
  types), and the field families of \<open>Bitfield\<close>.

  What the lemmas show. Functional behaviour of the helpers on every branch, and which errors
  they return and from where; which calls of the kernel a program makes; that packet views
  stay in the packet in every state a program reaches, as long as it does not assign the
  context's public fields; that typed maps refine a dictionary and the ring buffer a queue; that
  the panic path runs the cleanup table and lands, what stops it, and what holds of the tables
  over time; that spin locks exclude each other on all CPUs; that fields of the kernel's structs
  are at their listed offsets, aligned and apart; that the lock-free time reader only sees
  published timekeepers, when and how soon it returns, and that its readings are linearizable
  between publications; round trips of bitfields and number parsing.
  Some theorems state where the code falls short: views after an assignment to a public
  length, map references that alias or reach another key's value, ring buffer records written
  after their submission or left behind by a panic, transport headers behind IP options, saved registers,
  event pointers and tasks within the reach of safe programs, misaligned header references, locks held
  over a panic, a checksum folded once, a 32-bit variable read at 64 bits, a failed compiler
  the build does not notice.

  Recursion without bound. Only the panic handler and the time reader may run forever; both
  are partial functions into \<open>option\<close>, and their properties say when the result is \<open>Some\<close>.
  No definition takes fuel.

  Not modelled: the module lists, which re-export and include bindings generated at build
  time; derived \<open>Debug\<close> code; the three generic functions that only dispatch to a trait's
  implementation (\<open>read_once\<close>, \<open>this_cpu_read\<close>, \<open>seq_prop\<close>), which the compiler resolves, as each
  implementation is a definition of its own and callers use the one of their type; the compiler's stack instrumentation, of which only the check it
  calls is here; the borrow checker, so that what safe code may do with references is said in
  the definitions of reachable states; the other directories of the repository, which are C,
  C++ and Python.
\<close>

section \<open>Entries\<close>

text \<open>
  \<open>lib.rs\<close> generates one entry point per program type; each runs the program of its type on the
  raw context.
\<close>

definition iu_entry_tracepoint :: "'k tracepoint \<Rightarrow> u64 \<Rightarrow> ('k, u32) run" where
  "iu_entry_tracepoint prog ctx = tp_prog_run prog ctx"

definition iu_entry_kprobe :: "'k kprobe \<Rightarrow> u64 \<Rightarrow> ('k, u32) run" where
  "iu_entry_kprobe prog ctx = kp_prog_run prog ctx"

definition iu_entry_perf_event :: "'k perf_event \<Rightarrow> u64 \<Rightarrow> ('k, u32) run" where
  "iu_entry_perf_event prog ctx = pe_prog_run prog ctx"

definition iu_entry_xdp :: "build_cfg \<Rightarrow> 'k kernel \<Rightarrow> 'k xdp \<Rightarrow> u64 \<Rightarrow> ('k, u32) run" where
  "iu_entry_xdp cfg K prog ctx = xdp_prog_run cfg K prog ctx"

definition iu_entry_sched_cls :: "'k kernel \<Rightarrow> 'k sched_cls \<Rightarrow> u64 \<Rightarrow> ('k, u32) run" where
  "iu_entry_sched_cls K prog ctx = sc_prog_run K prog ctx"

lemmas entry_defs = iu_entry_tracepoint_def iu_entry_kprobe_def iu_entry_perf_event_def
  iu_entry_xdp_def iu_entry_sched_cls_def

section \<open>Properties that span components\<close>

text \<open>
  C2: What the kernel gets back from the five entries. A program that returns gives its verdict,
  and an error of any code the verdict that lets the event pass: 0 for the three tracing
  types, \<open>XDP_PASS\<close> and \<open>TC_ACT_OK\<close> for the two network types; the tables are left alone. A
  program that panics gives no verdict: under cleanup functions that do not panic, control
  reaches the landing pad with a NUL-terminated message of 128 bytes, every valid entry of
  this CPU's table has run once in order on the state the program left, and the table is all
  default entries.
\<close>
theorem entries_outcome:
  assumes "xdp_convert_ctx cfg ctx \<sigma> = Ret md"
  shows
   "entry_outcome cfg K tabs 0 (tp_prog p1 (tp_convert_ctx p1 ctx) \<sigma>)
      (enter cfg K info_of tabs (iu_entry_tracepoint p1 ctx \<sigma>)) \<and>
    entry_outcome cfg K tabs 0 (kp_prog p2 (kp_convert_ctx ctx) \<sigma>)
      (enter cfg K info_of tabs (iu_entry_kprobe p2 ctx \<sigma>)) \<and>
    entry_outcome cfg K tabs 0 (pe_prog p3 (pe_convert_ctx ctx \<sigma>) \<sigma>)
      (enter cfg K info_of tabs (iu_entry_perf_event p3 ctx \<sigma>)) \<and>
    entry_outcome cfg K tabs (XDP_PASS K) (xdp_prog p4 md \<sigma>)
      (enter cfg K info_of tabs (iu_entry_xdp cfg K p4 ctx \<sigma>)) \<and>
    entry_outcome cfg K tabs (TC_ACT_OK K) (sc_prog p5 (sc_convert_ctx ctx \<sigma>) \<sigma>)
      (enter cfg K info_of tabs (iu_entry_sched_cls K p5 ctx \<sigma>))"
  unfolding entry_defs
  by (intro conjI tp_run.enter_outcome [OF refl] kp_run.enter_outcome [OF refl]
      pe_run.enter_outcome [OF refl] sc_run.enter_outcome [OF refl] xdp_run.enter_outcome [OF assms])

theorem entries_outcome_witness:
  "\<exists>msg. enter release_x86 demo_kernel (\<lambda>p. \<lparr>message = None, payload = None\<rparr>)
     (\<lambda>_. [entry_new (\<lambda>a \<sigma>. (\<sigma>\<lparr>gs_base := a\<rparr>, None)) 7])
     (iu_entry_xdp release_x86 demo_kernel
       (xdp_new (\<lambda>md \<sigma>. (Panic UnwrapOnNone, \<sigma>)) ''p'' 6) 8 demo_machine) =
     Some (Landed msg, (\<lambda>_. [entry_new (\<lambda>a \<sigma>. (\<sigma>\<lparr>gs_base := a\<rparr>, None)) 7])(0x10200 := [entry_default]),
       demo_machine\<lparr>gs_base := 7\<rparr>)"
proof -
  let ?p = "xdp_new (\<lambda>md (\<sigma>::machine). (Panic UnwrapOnNone, \<sigma>)) ''p'' 6"
  let ?e = "entry_new (\<lambda>a (\<sigma>::machine). (\<sigma>\<lparr>gs_base := a\<rparr>, None)) 7"
  have "xdp_buff_wf demo_machine 8" by (simp add: xdp_buff_wf_def)
  from convert_ctx_wf [OF this, of release_x86] obtain md where
    md: "xdp_convert_ctx release_x86 8 demo_machine = Ret md" by blast
  have prog: "xdp_prog ?p md demo_machine = (Panic UnwrapOnNone, demo_machine)"
    by (simp add: xdp_new_def)
  have t: "cleanup_entries_this_cpu release_x86 demo_kernel (snd (xdp_prog ?p md demo_machine)) = Ret 0x10200"
    unfolding prog snd_conv by (rule demo_table)
  have np: "\<forall>e\<in>set ((\<lambda>_. [?e]) 0x10200). never_panics e"
    by (simp add: never_panics_def cleanup_def entry_new_def)
  have run: "run_entry ?e demo_machine = demo_machine\<lparr>gs_base := 7\<rparr>"
    by (simp add: run_entry_def cleanup_def entry_new_def)
  from entries_outcome [OF md, of demo_kernel "\<lambda>_. [?e]" _ "\<lambda>p. \<lparr>message = None, payload = None\<rparr>" _ _ ?p]
  have "entry_outcome release_x86 demo_kernel (\<lambda>_. [?e]) 2 (xdp_prog ?p md demo_machine)
      (enter release_x86 demo_kernel (\<lambda>p. \<lparr>message = None, payload = None\<rparr>) (\<lambda>_. [?e])
        (iu_entry_xdp release_x86 demo_kernel ?p 8 demo_machine))" by simp
  with prog t np run show ?thesis by (auto simp: entry_outcome_def)
qed

text \<open>
  The four samples at their entries: on any kernel, in any state and build, none of them
  panics, the cleanup tables stay as they are, and the verdicts are 0 for the three tracing
  programs and \<open>XDP_PASS\<close> for the packet filter, which leaves the machine as it was; the
  first one's only effect is its message.
\<close>
theorem samples_at_entries:
  assumes "xdp_convert_ctx cfg ctx \<sigma> = Ret md"
  shows
   "enter cfg K info_of tabs (iu_entry_tracepoint (hello_PROG K) ctx \<sigma>) =
      Some (Returned 0, tabs, case get_current_task K \<sigma> of
        None \<Rightarrow> \<sigma>
      | Some t \<Rightarrow> bpf_printk K (lit ''Rust triggered from PID %u on CPU %u.\<newline>'')
          [scast (get_pid \<sigma> t), ucast (bpf_get_smp_processor_id K \<sigma>)] \<sigma>) \<and>
    (\<exists>\<tau>. enter cfg K info_of tabs (iu_entry_tracepoint (map_test_PROG K BPF_ANY hash arr) ctx \<sigma>) =
      Some (Returned 0, tabs, \<tau>)) \<and>
    (\<exists>\<tau>. enter cfg K info_of tabs (iu_entry_kprobe (tracex5_PROG U K) ctx \<sigma>) = Some (Returned 0, tabs, \<tau>)) \<and>
    enter cfg K info_of tabs (iu_entry_xdp cfg K (mp4_PROG1 K ty) ctx \<sigma>) = Some (Returned (XDP_PASS K), tabs, \<sigma>)"
  using map_test_run [of K BPF_ANY hash arr ctx \<sigma>] tracex5_run [of U K ctx \<sigma>]
  by (auto simp: entry_defs hello_run mp4_run [OF assms] enter_def)

theorem samples_at_entries_witness:
  "enter release_x86 (demo_kernel :: unit kernel) (\<lambda>p. \<lparr>message = None, payload = None\<rparr>) (\<lambda>_. [])
     (iu_entry_xdp release_x86 demo_kernel (mp4_PROG1 demo_kernel 6) 8 demo_machine) =
   Some (Returned 2, \<lambda>_. [], demo_machine)"
proof -
  have "xdp_buff_wf demo_machine 8" by (simp add: xdp_buff_wf_def)
  from convert_ctx_wf [OF this, of release_x86] obtain md where
    md: "xdp_convert_ctx release_x86 8 demo_machine = Ret md" by blast
  from samples_at_entries [OF md, of "demo_kernel :: unit kernel"] show ?thesis by simp
qed

text \<open>The kernel's return codes fit the \<open>i32\<close> the crate casts them to.\<close>

definition codes_fit :: "'k kernel \<Rightarrow> bool" where
  "codes_fit K \<longleftrightarrow>
     (\<forall>p key val flags \<sigma>. fits_i32 (fst (k_map_update_elem K p key val flags \<sigma>))) \<and>
     (\<forall>p key \<sigma>. fits_i32 (fst (k_map_delete_elem K p key \<sigma>))) \<and>
     (\<forall>p val flags \<sigma>. fits_i32 (fst (k_map_push_elem K p val flags \<sigma>))) \<and>
     (\<forall>p val \<sigma>. fits_i32 (fst (k_map_pop_elem K p val \<sigma>)) \<and> fits_i32 (fst (k_map_peek_elem K p val \<sigma>))) \<and>
     (\<forall>ctx p flags \<sigma>. fits_i32 (fst (k_get_stackid_pe K ctx p flags \<sigma>)))"

text \<open>
  C14: The errors of every helper that takes a map and returns a \<open>Result\<close>: \<open>+EINVAL\<close> exactly for
  a map that is not loaded, and then the kernel is not called and nothing changes; on a loaded
  map the kernel's code when it is negative, unchanged; and no error otherwise. So an error's
  sign tells the crate's own refusal from the kernel's.
\<close>
theorem map_helper_errors:
  assumes "codes_fit K"
  shows "error_of (fst (bpf_map_update_elem K mp key val flags \<sigma>)) =
      map_error K mp (fst (k_map_update_elem K (kptr mp) key val flags \<sigma>)) \<and>
    error_of (fst (bpf_map_delete_elem K mp key \<sigma>)) = map_error K mp (fst (k_map_delete_elem K (kptr mp) key \<sigma>)) \<and>
    error_of (fst (bpf_map_push_elem K mp val flags \<sigma>)) =
      map_error K mp (fst (k_map_push_elem K (kptr mp) val flags \<sigma>)) \<and>
    error_of (fst (bpf_map_pop_elem K mp val \<sigma>)) = map_error K mp (fst (k_map_pop_elem K (kptr mp) val \<sigma>)) \<and>
    error_of (fst (bpf_map_peek_elem K mp val \<sigma>)) = map_error K mp (fst (k_map_peek_elem K (kptr mp) val \<sigma>)) \<and>
    error_of (fst (bpf_get_stackid_pe K ctx mp flags \<sigma>)) =
      map_error K mp (fst (k_get_stackid_pe K (pe_kptr ctx) (kptr mp) flags \<sigma>)) \<and>
    (kptr mp = 0 \<longrightarrow> snd (bpf_map_update_elem K mp key val flags \<sigma>) = \<sigma> \<and>
       snd (bpf_map_delete_elem K mp key \<sigma>) = \<sigma> \<and> snd (bpf_map_push_elem K mp val flags \<sigma>) = \<sigma> \<and>
       snd (bpf_map_pop_elem K mp val \<sigma>) = (val, \<sigma>) \<and> snd (bpf_map_peek_elem K mp val \<sigma>) = (val, \<sigma>) \<and>
       snd (bpf_get_stackid_pe K ctx mp flags \<sigma>) = \<sigma>)"
  using assms update_op.error_eq [of K mp "(key, val, flags)" \<sigma>] delete_op.error_eq [of K mp key \<sigma>]
    push_op.error_eq [of K mp "(val, flags)" \<sigma>] pop_op.error_eq [of K mp "(val, \<sigma>)"]
    peek_op.error_eq [of K mp "(val, \<sigma>)"] stackid_error [of K ctx mp flags \<sigma>]
    update_op.error_without_call [of mp K "(key, val, flags)" \<sigma>] delete_op.error_without_call [of mp K key \<sigma>]
    push_op.error_without_call [of mp K "(val, flags)" \<sigma>] pop_op.error_without_call [of mp K "(val, \<sigma>)"]
    peek_op.error_without_call [of mp K "(val, \<sigma>)"] stackid_without_call [of mp K ctx flags \<sigma>]
  by (simp add: codes_fit_def)

theorem map_helper_errors_witness:
  "error_of (fst (bpf_map_delete_elem (demo_kernel :: unit kernel) (iu_map_new 1 4 8 16 0) [0] demo_machine)) = Some 22 \<and>
   error_of (fst (bpf_map_delete_elem (demo_kernel\<lparr>k_map_delete_elem := (\<lambda>_ _ \<sigma>. (- 2, \<sigma>))\<rparr> :: unit kernel)
     ((iu_map_new 1 4 8 16 0)\<lparr>kptr := 1\<rparr>) [0] demo_machine)) = Some (- 2)"
proof -
  have "codes_fit (demo_kernel :: unit kernel)"
    and "codes_fit (demo_kernel\<lparr>k_map_delete_elem := (\<lambda>_ _ \<sigma>. (- 2, \<sigma>))\<rparr> :: unit kernel)"
    by (simp_all add: codes_fit_def demo_kernel_def fits_i32_def)
  from map_helper_errors [OF this(1), THEN conjunct2, THEN conjunct1, of "iu_map_new 1 4 8 16 0" "[0]" demo_machine]
    map_helper_errors [OF this(2), THEN conjunct2, THEN conjunct1, of "(iu_map_new 1 4 8 16 0)\<lparr>kptr := 1\<rparr>" "[0]" demo_machine]
  show ?thesis by (simp add: map_error_def iu_map_new_def)
qed

text \<open>
  While a CPU runs, a per-CPU variable is read the same way whether directly relative to
  \<open>gs\<close> or through the address \<open>this_cpu_ptr\<close> computes from the offset table, at every width
  the crate reads; the address computation does not panic.
\<close>
theorem per_cpu_read_through_ptr:
  assumes "on_cpu K \<sigma> cpu" and "\<not> overflow_checks cfg \<or> unat addr + unat (gs_base \<sigma>) < 2 ^ 64"
  shows "\<exists>p. this_cpu_ptr cfg K \<sigma> addr = Ret p \<and>
    this_cpu_read_u64 \<sigma> addr = load_le (mem \<sigma>) p \<and> this_cpu_read_u32 \<sigma> addr = load_le (mem \<sigma>) p \<and>
    this_cpu_read_u16 \<sigma> addr = load_le (mem \<sigma>) p \<and> this_cpu_read_u8 \<sigma> addr = load_le (mem \<sigma>) p \<and>
    this_cpu_read_ptr \<sigma> addr = load_le (mem \<sigma>) p"
  using pc_u64.read_through_ptr [OF assms] pc_u32.read_through_ptr [OF assms]
    pc_u16.read_through_ptr [OF assms] pc_u8.read_through_ptr [OF assms]
    pc_ptr.read_through_ptr [OF assms]
  by auto

theorem per_cpu_read_through_ptr_witness:
  "\<exists>p. this_cpu_ptr dev_x86 demo_kernel demo_machine 0x110 = Ret p \<and>
     this_cpu_read_u64 demo_machine 0x110 = load_le (mem demo_machine) p"
proof -
  have "on_cpu demo_kernel demo_machine 0" by (simp add: on_cpu_def this_cpu_read_u32_def)
  from per_cpu_read_through_ptr [OF this, of dev_x86 "0x110"] show ?thesis by auto
qed

end
